(* ===== verification/Transitions.thy ===== *)
theory Transitions
  imports Main
begin

text \<open>
  The interfaces of the step relations of the development: a relation that keeps an invariant, and one that in addition
  runs down, because every step takes it nearer to an end and a state that is no end has a step. What follows from
  them for runs is proved here once.
\<close>

locale keeps_invariant =
  fixes step :: "'s \<Rightarrow> 's \<Rightarrow> bool" and inv :: "'s \<Rightarrow> bool"
  assumes step_keeps: "step s s' \<Longrightarrow> inv s \<Longrightarrow> inv s'"
begin

lemma run_keeps: "step\<^sup>*\<^sup>* s s' \<Longrightarrow> inv s \<Longrightarrow> inv s'"
  by (induction rule: rtranclp_induct) (auto dest: step_keeps)

lemma steps_keep: "(step ^^ k) s s' \<Longrightarrow> inv s \<Longrightarrow> inv s'"
  by (rule run_keeps) (rule relpowp_imp_rtranclp)

end

locale runs_down = keeps_invariant +
  fixes left :: "'s \<Rightarrow> nat" and ended :: "'s \<Rightarrow> bool"
  assumes step_nearer: "step s s' \<Longrightarrow> inv s \<Longrightarrow> left s' < left s"
    and no_deadlock: "inv s \<Longrightarrow> ended s \<or> (\<exists>s'. step s s')"
begin

lemma steps_bounded: "(step ^^ k) s s' \<Longrightarrow> inv s \<Longrightarrow> k + left s' \<le> left s"
proof (induction k arbitrary: s')
  case (Suc k)
  then obtain u where u: "(step ^^ k) s u" "step u s'" by auto
  with Suc have "k + left u \<le> left s" and "left s' < left u"
    using step_nearer [OF u(2) steps_keep [OF u(1)]] by auto
  then show ?case by simp
qed simp

lemma run_ends: "inv s \<Longrightarrow> \<exists>s'. step\<^sup>*\<^sup>* s s' \<and> ended s'"
proof (induction "left s" arbitrary: s rule: less_induct)
  case less
  from no_deadlock [OF less.prems] show ?case
  proof (elim disjE exE)
    fix u assume u: "step s u"
    from less.hyps [OF step_nearer [OF u less.prems] step_keeps [OF u less.prems]]
    obtain s' where "step\<^sup>*\<^sup>* u s'" "ended s'" by blast
    with u show ?thesis by (meson converse_rtranclp_into_rtranclp)
  qed blast
qed

text \<open>A run that cannot go on has ended.\<close>

lemma stuck_ended: "step\<^sup>*\<^sup>* s s' \<Longrightarrow> inv s \<Longrightarrow> \<nexists>u. step s' u \<Longrightarrow> ended s'"
  using no_deadlock run_keeps by blast

end

end
