(* ===== verification/Prelude.thy ===== *)
theory Prelude
  imports Transitions "HOL-Library.State_Monad" "HOL-Library.Word" "HOL-Library.Multiset"
begin

text \<open>
  Shared base of the development: the effect monad of the model, a weakest-precondition
  calculus for it, the interface of state relations that every effect keeps (the locale
  \<open>state_frame\<close>), and generic facts on lists, options and machine integers that the
  component theories use.

  A Go function that touches the driver's state or the outside world is a value of the
  library type \<open>('s, 'a) state\<close>; a Go result pair \<open>(x, err)\<close> is a sum, \<open>Inl\<close> the error.
\<close>

named_theorems wp_rules \<open>equations of the weakest-precondition calculus\<close>
named_theorems gives_intros \<open>introduction rules for what a successful result satisfies\<close>
named_theorems frame_intros \<open>introduction rules for state relations kept by an effect\<close>

section \<open>Effects\<close>

abbreviation ret :: "'a \<Rightarrow> ('s, 'a) state" where
  "ret \<equiv> State_Monad.return"

abbreviation ok :: "'a \<Rightarrow> ('s, 'e + 'a) state" where
  "ok x \<equiv> ret (Inr x)"

abbreviation fail :: "'e \<Rightarrow> ('s, 'e + 'a) state" where
  "fail e \<equiv> ret (Inl e)"

abbreviation gets :: "('s \<Rightarrow> 'a) \<Rightarrow> ('s, 'a) state" where
  "gets f \<equiv> State (\<lambda>s. (f s, s))"

abbreviation modify :: "('s \<Rightarrow> 's) \<Rightarrow> ('s, unit) state" where
  "modify f \<equiv> State (\<lambda>s. ((), f s))"

text \<open>
  The statement \<open>x, err := m; if err != nil { return h(err) }\<close> followed by the rest \<open>k\<close>.
\<close>

definition tryE :: "('s, 'e + 'a) state \<Rightarrow> ('e \<Rightarrow> 'e2) \<Rightarrow> ('a \<Rightarrow> ('s, 'e2 + 'b) state)
    \<Rightarrow> ('s, 'e2 + 'b) state" where
  "tryE m h k = State_Monad.bind m (\<lambda>r. case r of Inl e \<Rightarrow> fail (h e) | Inr a \<Rightarrow> k a)"

text \<open>\<open>defer\<close>: the clean-up runs after the body, whatever the body returned.\<close>

definition deferring :: "('s, 'b) state \<Rightarrow> ('s, 'a) state \<Rightarrow> ('s, 'a) state" where
  "deferring cleanup body =
     State_Monad.bind body (\<lambda>r. State_Monad.bind cleanup (\<lambda>_. ret r))"

text \<open>A loop over a list whose body may decide the result of the whole loop.\<close>

fun first_some :: "('a \<Rightarrow> ('s, 'b option) state) \<Rightarrow> 'a list \<Rightarrow> ('s, 'b option) state" where
  "first_some f [] = ret None"
| "first_some f (x # xs) =
     State_Monad.bind (f x) (\<lambda>r. case r of Some b \<Rightarrow> ret (Some b) | None \<Rightarrow> first_some f xs)"

section \<open>Weakest preconditions\<close>

definition wp :: "('s, 'a) state \<Rightarrow> ('a \<Rightarrow> 's \<Rightarrow> bool) \<Rightarrow> 's \<Rightarrow> bool" where
  "wp m Q s = (case run_state m s of (r, s') \<Rightarrow> Q r s')"

lemma wp_iff: "wp m Q s \<longleftrightarrow> Q (fst (run_state m s)) (snd (run_state m s))"
  by (simp add: wp_def split: prod.splits)

lemma wp_return [wp_rules]: "wp (ret x) Q s = Q x s"
  by (simp add: wp_def)

lemma wp_bind [wp_rules]: "wp (State_Monad.bind m f) Q s = wp m (\<lambda>r. wp (f r) Q) s"
  by (simp add: wp_def split: prod.splits)

lemma wp_State [wp_rules]: "wp (State f) Q s = (case f s of (r, s') \<Rightarrow> Q r s')"
  by (simp add: wp_def)

lemma wp_tryE [wp_rules]:
  "wp (tryE m h k) Q s =
     wp m (\<lambda>r s'. case r of Inl e \<Rightarrow> Q (Inl (h e)) s' | Inr a \<Rightarrow> wp (k a) Q s') s"
  by (simp add: tryE_def wp_def split: prod.splits sum.splits)

lemma wp_deferring [wp_rules]:
  "wp (deferring c b) Q s = wp b (\<lambda>r. wp c (\<lambda>_. Q r)) s"
  by (simp add: deferring_def wp_def split: prod.splits)

lemma wp_if [wp_rules]: "wp (if b then m else n) Q s = (if b then wp m Q s else wp n Q s)"
  by simp

lemma wp_case_option [wp_rules]:
  "wp (case x of None \<Rightarrow> m | Some a \<Rightarrow> f a) Q s =
     (case x of None \<Rightarrow> wp m Q s | Some a \<Rightarrow> wp (f a) Q s)"
  by (cases x) simp_all

lemma wp_case_sum [wp_rules]:
  "wp (case x of Inl e \<Rightarrow> f e | Inr a \<Rightarrow> g a) Q s =
     (case x of Inl e \<Rightarrow> wp (f e) Q s | Inr a \<Rightarrow> wp (g a) Q s)"
  by (cases x) simp_all

lemma wp_mono: "wp m P s \<Longrightarrow> (\<And>r s'. P r s' \<Longrightarrow> Q r s') \<Longrightarrow> wp m Q s"
  by (simp add: wp_iff)

lemma wp_conj: "wp m P s \<Longrightarrow> wp m Q s \<Longrightarrow> wp m (\<lambda>r s'. P r s' \<and> Q r s') s"
  by (simp add: wp_iff)

lemma wp_run: "wp m Q s \<Longrightarrow> run_state m s = (r, s') \<Longrightarrow> Q r s'"
  by (simp add: wp_iff)

section \<open>What a success satisfies\<close>

definition gives :: "('a \<Rightarrow> bool) \<Rightarrow> ('s, 'e + 'a) state \<Rightarrow> bool" where
  "gives P m \<longleftrightarrow> (\<forall>s. case fst (run_state m s) of Inl e \<Rightarrow> True | Inr x \<Rightarrow> P x)"

lemma gives_any: "gives (\<lambda>_. True) m"
  by (simp add: gives_def split: sum.splits)

lemma gives_ok [gives_intros]: "P x \<Longrightarrow> gives P (ok x)"
  by (simp add: gives_def)

lemma gives_fail [gives_intros]: "gives P (fail e)"
  by (simp add: gives_def)

lemma gives_tryE: "gives P m \<Longrightarrow> (\<And>x. P x \<Longrightarrow> gives Q (k x)) \<Longrightarrow> gives Q (tryE m h k)"
  unfolding gives_def tryE_def by (auto split: sum.splits prod.splits) (metis fst_conv snd_conv sum.case)+

lemma gives_bind [gives_intros]: "(\<And>x. gives Q (k x)) \<Longrightarrow> gives Q (State_Monad.bind m k)"
  unfolding gives_def by (auto split: prod.splits)

lemma gives_deferring [gives_intros]: "gives P b \<Longrightarrow> gives P (deferring c b)"
  unfolding gives_def deferring_def by (auto split: prod.splits) (metis fst_conv)

lemma gives_if [gives_intros]: "(b \<Longrightarrow> gives P m) \<Longrightarrow> (\<not> b \<Longrightarrow> gives P n) \<Longrightarrow> gives P (if b then m else n)"
  by simp

lemma gives_option [gives_intros]:
  "(x = None \<Longrightarrow> gives P m) \<Longrightarrow> (\<And>a. x = Some a \<Longrightarrow> gives P (f a)) \<Longrightarrow>
    gives P (case x of None \<Rightarrow> m | Some a \<Rightarrow> f a)"
  by (cases x) simp_all
lemma gives_ret: "(\<And>x. r = Inr x \<Longrightarrow> P x) \<Longrightarrow> gives P (ret r)"
  by (simp add: gives_def split: sum.splits)

lemma wp_gives: "gives P m \<Longrightarrow> wp m (\<lambda>r _. case r of Inl e \<Rightarrow> True | Inr x \<Rightarrow> P x) s"
  by (simp add: gives_def wp_iff)

section \<open>State relations kept by an effect\<close>

text \<open>
  A reflexive and transitive relation between the state before and after. An effect keeps
  the relation when every run of it does; the rules compose that over the constructs the
  model uses. Each component interprets this interface at the relations it promises to
  keep (same locks, same mount references, same cache, ...).
\<close>

locale state_frame =
  fixes R :: "'s \<Rightarrow> 's \<Rightarrow> bool"
  assumes R_refl: "R s s"
    and R_trans: "R s t \<Longrightarrow> R t u \<Longrightarrow> R s u"
begin

lemma keep_return [frame_intros]: "state_io_rel R (ret x)"
  by (auto simp: R_refl)

lemma keep_bind [frame_intros]:
  assumes "state_io_rel R m" and "\<And>x. state_io_rel R (f x)"
  shows "state_io_rel R (State_Monad.bind m f)"
proof
  fix a s s'
  assume run: "run_state (State_Monad.bind m f) s = (a, s')"
  obtain b t where m: "run_state m s = (b, t)" by (cases "run_state m s")
  with run have f: "run_state (f b) t = (a, s')" by simp
  from assms(1) m have "R s t" by (rule state_io_relD)
  moreover from assms(2) f have "R t s'" by (rule state_io_relD)
  ultimately show "R s s'" by (rule R_trans)
qed

lemma keep_gets [frame_intros]: "state_io_rel R (gets f)"
  by (auto simp: R_refl)

lemma keep_tryE [frame_intros]:
  assumes "state_io_rel R m" and "\<And>x. state_io_rel R (k x)"
  shows "state_io_rel R (tryE m h k)"
  unfolding tryE_def
  by (rule keep_bind) (auto intro: assms keep_return split: sum.splits)

text \<open>The continuation need only keep the relation for the results that can come.\<close>

lemma keep_tryE_result:
  assumes "state_io_rel R m" and "\<And>s. wp m (\<lambda>r _. case r of Inl e \<Rightarrow> True | Inr x \<Rightarrow> Q x) s"
    and "\<And>x. Q x \<Longrightarrow> state_io_rel R (k x)"
  shows "state_io_rel R (tryE m h k)"
proof
  fix a s s'
  assume run: "run_state (tryE m h k) s = (a, s')"
  obtain b t where m: "run_state m s = (b, t)" by (cases "run_state m s")
  have st: "R s t" using assms(1) m by (rule state_io_relD)
  show "R s s'"
  proof (cases b)
    case (Inl e)
    then show ?thesis using run m st by (simp add: tryE_def)
  next
    case (Inr x)
    then have "Q x" using assms(2) [of s] m by (simp add: wp_def)
    then have "R t s'" using run m Inr assms(3) by (auto simp: tryE_def dest: state_io_relD)
    with st show ?thesis by (rule R_trans)
  qed
qed

lemma keep_deferring [frame_intros]:
  "state_io_rel R b \<Longrightarrow> state_io_rel R c \<Longrightarrow> state_io_rel R (deferring c b)"
  unfolding deferring_def by (intro keep_bind keep_return)

lemma keep_if [frame_intros]:
  "state_io_rel R m \<Longrightarrow> state_io_rel R n \<Longrightarrow> state_io_rel R (if b then m else n)"
  by simp

lemma keep_case_option [frame_intros]:
  "state_io_rel R m \<Longrightarrow> (\<And>a. state_io_rel R (f a)) \<Longrightarrow>
    state_io_rel R (case x of None \<Rightarrow> m | Some a \<Rightarrow> f a)"
  by (cases x) simp_all

lemma keep_case_sum [frame_intros]:
  "(\<And>e. state_io_rel R (f e)) \<Longrightarrow> (\<And>a. state_io_rel R (g a)) \<Longrightarrow>
    state_io_rel R (case x of Inl e \<Rightarrow> f e | Inr a \<Rightarrow> g a)"
  by (cases x) simp_all

lemma keep_case_prod [frame_intros]:
  "(\<And>a b. state_io_rel R (f a b)) \<Longrightarrow> state_io_rel R (case x of (a, b) \<Rightarrow> f a b)"
  by (cases x) simp_all

lemma keep_case_list [frame_intros]:
  "state_io_rel R m \<Longrightarrow> (\<And>a as. state_io_rel R (f a as)) \<Longrightarrow>
    state_io_rel R (case x of [] \<Rightarrow> m | a # as \<Rightarrow> f a as)"
  by (cases x) simp_all

lemma keep_first_some [frame_intros]:
  "(\<And>x. state_io_rel R (f x)) \<Longrightarrow> state_io_rel R (first_some f xs)"
  by (induction xs) (auto intro!: keep_return keep_bind split: option.splits)

lemma keep_wp: "state_io_rel R m \<Longrightarrow> wp m (\<lambda>_ s'. R s s') s"
  by (auto simp: wp_iff state_io_rel_def)

end

lemma keep_iff_wp: "state_io_rel R m \<longleftrightarrow> (\<forall>s. wp m (\<lambda>_ s'. R s s') s)"
  by (auto simp: state_io_rel_def wp_iff)

text \<open>Every observation of the state gives such a relation: the observation is unchanged.\<close>

lemma state_frame_same: "state_frame (\<lambda>s s'. f s' = f s)"
  by (rule state_frame.intro) simp_all

section \<open>Machine integers\<close>

text \<open>
  Go's \<open>int64\<close> arithmetic wraps around in two's complement; values are kept as integers and
  each arithmetic result is brought back into range.
\<close>

definition int64 :: "int \<Rightarrow> int" where
  "int64 x = signed_take_bit 63 x"

definition MaxInt64 :: int where
  "MaxInt64 = 9223372036854775807"

definition MinInt64 :: int where
  "MinInt64 = - 9223372036854775808"

lemma int64_in_range: "MinInt64 \<le> x \<Longrightarrow> x \<le> MaxInt64 \<Longrightarrow> int64 x = x"
  unfolding int64_def MinInt64_def MaxInt64_def
  by (rule signed_take_bit_int_eq_self) simp_all

lemma int64_bounds: "MinInt64 \<le> int64 x \<and> int64 x \<le> MaxInt64"
proof -
  have "- (2 ^ 63) \<le> signed_take_bit 63 x" by (rule signed_take_bit_int_greater_eq_minus_exp)
  moreover have "signed_take_bit 63 x < 2 ^ 63" by (rule signed_take_bit_int_less_exp)
  ultimately show ?thesis unfolding int64_def MinInt64_def MaxInt64_def by simp
qed

section \<open>Lists\<close>

lemma rotate_set_mset: "set (drop n xs @ take n xs) = set xs"
  by (metis append_take_drop_id set_append sup_commute)

lemma mset_rotate: "mset (rotate k xs) = mset xs"
proof -
  have "mset (take (k mod length xs) xs @ drop (k mod length xs) xs) = mset xs" by simp
  then show ?thesis by (simp only: rotate_drop_take mset_append add.commute)
qed

lemma mset_partition: "mset (filter P xs @ filter (\<lambda>x. \<not> P x) xs) = mset xs"
  by (induction xs) auto

lemma sorted_wrt_partition: "sorted_wrt (\<lambda>x y. P y \<longrightarrow> P x) (filter P xs @ filter (\<lambda>x. \<not> P x) xs)"
proof -
  have "sorted_wrt (\<lambda>x y. P y \<longrightarrow> P x) ys" if "\<forall>y \<in> set ys. P y \<longleftrightarrow> b" for ys b
    using that by (induction ys) auto
  from this [of "filter P xs" True] this [of "filter (\<lambda>x. \<not> P x) xs" False] show ?thesis
    by (simp add: sorted_wrt_append)
qed

lemma map_nth_mod_rotate:
  assumes "start < length xs"
  shows "map (\<lambda>i. xs ! ((start + i) mod length xs)) [0..<length xs] = rotate start xs"
  by (rule nth_equalityI) (simp_all add: nth_rotate)

end
