(* ===== verification/Go_Strings.thy ===== *)
theory Go_Strings
  imports Prelude
begin

text \<open>
  The parts of Go's packages \<open>strings\<close>, \<open>strconv\<close>, \<open>path\<close>, \<open>net/url\<close> and \<open>fmt\<close> that the
  driver uses, on byte strings (\<open>char list\<close>), with the facts the component theories need:
  splitting and joining, decimal round trips, and the lexical path operations on the shapes
  of path the driver builds. White space is the ASCII white space of \<open>strings.TrimSpace\<close>.
\<close>

named_theorems go_str \<open>rewrites for the string library\<close>

section \<open>Package strings\<close>

definition has_prefix :: "string \<Rightarrow> string \<Rightarrow> bool" where
  "has_prefix s p \<longleftrightarrow> take (length p) s = p"

definition has_suffix :: "string \<Rightarrow> string \<Rightarrow> bool" where
  "has_suffix s p \<longleftrightarrow> has_prefix (rev s) (rev p)"

definition trim_prefix :: "string \<Rightarrow> string \<Rightarrow> string" where
  "trim_prefix s p = (if has_prefix s p then drop (length p) s else s)"

definition trim_suffix :: "string \<Rightarrow> string \<Rightarrow> string" where
  "trim_suffix s p = (if has_suffix s p then take (length s - length p) s else s)"

fun index_of :: "string \<Rightarrow> string \<Rightarrow> nat option" where
  "index_of [] p = (if p = [] then Some 0 else None)"
| "index_of (c # s) p = (if has_prefix (c # s) p then Some 0 else map_option Suc (index_of s p))"

definition contains :: "string \<Rightarrow> string \<Rightarrow> bool" where
  "contains s p \<longleftrightarrow> index_of s p \<noteq> None"

function count_sub :: "string \<Rightarrow> string \<Rightarrow> nat" where
  "count_sub s p =
     (if s = [] \<or> p = [] then 0
      else if has_prefix s p then Suc (count_sub (drop (length p) s) p)
      else count_sub (tl s) p)"
  by pat_completeness auto
termination
  by (relation "measure (\<lambda>(s, p). length s)") auto

declare count_sub.simps [simp del]

fun split_on :: "char \<Rightarrow> string \<Rightarrow> string list" where
  "split_on c [] = [[]]"
| "split_on c (x # xs) =
     (if x = c then [] # split_on c xs
      else (case split_on c xs of [] \<Rightarrow> [[x]] | y # ys \<Rightarrow> (x # y) # ys))"

fun split_n :: "nat \<Rightarrow> char \<Rightarrow> string \<Rightarrow> string list" where
  "split_n 0 c s = []"
| "split_n (Suc 0) c s = [s]"
| "split_n (Suc (Suc n)) c s =
     (let a = takeWhile (\<lambda>x. x \<noteq> c) s; r = dropWhile (\<lambda>x. x \<noteq> c) s
      in case r of [] \<Rightarrow> [s] | _ # t \<Rightarrow> a # split_n (Suc n) c t)"

fun join_with :: "string \<Rightarrow> string list \<Rightarrow> string" where
  "join_with sep [] = []"
| "join_with sep [x] = x"
| "join_with sep (x # y # ys) = x @ sep @ join_with sep (y # ys)"

definition is_space :: "char \<Rightarrow> bool" where
  "is_space c \<longleftrightarrow> c \<in> {CHR 0x09, CHR 0x0A, CHR 0x0B, CHR 0x0C, CHR 0x0D, CHR '' ''}"

definition trim_by :: "(char \<Rightarrow> bool) \<Rightarrow> string \<Rightarrow> string" where
  "trim_by p s = rev (dropWhile p (rev (dropWhile p s)))"

definition trim_space :: "string \<Rightarrow> string" where
  "trim_space = trim_by is_space"

definition trim_cutset :: "string \<Rightarrow> string \<Rightarrow> string" where
  "trim_cutset s cutset = trim_by (\<lambda>c. c \<in> set cutset) s"

fun fields_aux :: "string \<Rightarrow> string \<Rightarrow> string list" where
  "fields_aux acc [] = (if acc = [] then [] else [rev acc])"
| "fields_aux acc (c # s) =
     (if is_space c then (if acc = [] then fields_aux [] s else rev acc # fields_aux [] s)
      else fields_aux (c # acc) s)"

definition str_fields :: "string \<Rightarrow> string list" where
  "str_fields s = fields_aux [] s"

text \<open>\<open>strings.Cut\<close> at a one-byte separator.\<close>

definition cut :: "string \<Rightarrow> char \<Rightarrow> (string \<times> string) option" where
  "cut s c = (case dropWhile (\<lambda>x. x \<noteq> c) s of [] \<Rightarrow> None
     | _ # r \<Rightarrow> Some (takeWhile (\<lambda>x. x \<noteq> c) s, r))"

definition lines :: "string \<Rightarrow> string list" where
  "lines s = split_on (CHR 0x0A) s"

section \<open>Package strconv\<close>

definition digit_val :: "char \<Rightarrow> nat option" where
  "digit_val c = (let n = of_char c :: nat in if 48 \<le> n \<and> n \<le> 57 then Some (n - 48) else None)"

definition digit_char :: "nat \<Rightarrow> char" where
  "digit_char n = char_of (48 + n)"

fun parse_digits :: "nat \<Rightarrow> string \<Rightarrow> nat option" where
  "parse_digits acc [] = Some acc"
| "parse_digits acc (c # s) =
     (case digit_val c of None \<Rightarrow> None | Some d \<Rightarrow> parse_digits (10 * acc + d) s)"

definition ParseInt :: "string \<Rightarrow> int option" where
  "ParseInt s =
     (let neg = (s \<noteq> [] \<and> hd s = CHR ''-'');
          ds = (if s \<noteq> [] \<and> (hd s = CHR ''-'' \<or> hd s = CHR ''+'') then tl s else s)
      in if ds = [] then None
         else case parse_digits 0 ds of
           None \<Rightarrow> None
         | Some n \<Rightarrow>
             (let v = (if neg then - int n else int n)
              in if MinInt64 \<le> v \<and> v \<le> MaxInt64 then Some v else None))"

fun nat_dec :: "nat \<Rightarrow> string" where
  "nat_dec n = (if n < 10 then [digit_char n] else nat_dec (n div 10) @ [digit_char (n mod 10)])"

declare nat_dec.simps [simp del]

definition FormatInt :: "int \<Rightarrow> string" where
  "FormatInt i = (if i < 0 then CHR ''-'' # nat_dec (nat (- i)) else nat_dec (nat i))"

definition ParseBool :: "string \<Rightarrow> bool option" where
  "ParseBool s =
     (if s \<in> {''1'', ''t'', ''T'', ''TRUE'', ''true'', ''True''} then Some True
      else if s \<in> {''0'', ''f'', ''F'', ''FALSE'', ''false'', ''False''} then Some False
      else None)"

definition FormatBool :: "bool \<Rightarrow> string" where
  "FormatBool b = (if b then ''true'' else ''false'')"

definition hex_digit :: "nat \<Rightarrow> char" where
  "hex_digit n = (if n < 10 then char_of (48 + n) else char_of (55 + n))"

section \<open>Package net/url\<close>

definition is_alnum :: "char \<Rightarrow> bool" where
  "is_alnum c = (let n = of_char c :: nat in
     (48 \<le> n \<and> n \<le> 57) \<or> (65 \<le> n \<and> n \<le> 90) \<or> (97 \<le> n \<and> n \<le> 122))"

definition percent :: "char \<Rightarrow> string" where
  "percent c = (let n = of_char c :: nat in [CHR ''%'', hex_digit (n div 16), hex_digit (n mod 16)])"

definition PathEscape :: "string \<Rightarrow> string" where
  "PathEscape s = concat (map (\<lambda>c.
     if is_alnum c \<or> c \<in> set ''-_.~$&+=:@'' then [c] else percent c) s)"

definition QueryEscape :: "string \<Rightarrow> string" where
  "QueryEscape s = concat (map (\<lambda>c.
     if c = CHR '' '' then ''+''
     else if is_alnum c \<or> c \<in> set ''-_.~'' then [c] else percent c) s)"

section \<open>Package fmt\<close>

text \<open>
  \<open>fmt.Sprintf(format, arg)\<close> with one string argument: \<open>%s\<close> and \<open>%v\<close> take the argument,
  \<open>%%\<close> is a percent sign, a verb with no argument left is marked missing, any other verb
  is marked bad, and an argument no verb took is marked extra. Flags and widths are not
  modelled.
\<close>

fun sprintf_s :: "string \<Rightarrow> string option \<Rightarrow> string" where
  "sprintf_s [] None = []"
| "sprintf_s [] (Some a) = ''%!(EXTRA string='' @ a @ '')''"
| "sprintf_s (c # cs) arg =
     (if c \<noteq> CHR ''%'' then c # sprintf_s cs arg
      else (case cs of
        [] \<Rightarrow> ''%!(NOVERB)'' @ sprintf_s [] arg
      | v # cs' \<Rightarrow>
          (if v = CHR ''%'' then CHR ''%'' # sprintf_s cs' arg
           else (case arg of
             None \<Rightarrow> ''%!'' @ [v] @ ''(MISSING)'' @ sprintf_s cs' None
           | Some a \<Rightarrow>
               (if v = CHR ''s'' \<or> v = CHR ''v'' then a @ sprintf_s cs' None
                else ''%!'' @ [v] @ ''(string='' @ a @ '')'' @ sprintf_s cs' None)))))"

text \<open>\<open>%q\<close>: quotes, backslashes and the ASCII control characters are escaped; the bytes of other characters are kept, as
  they are for the printable ones.\<close>

definition lower_hex :: "nat \<Rightarrow> char" where
  "lower_hex n = char_of (if n < 10 then 48 + n else 87 + n)"

definition quote_char :: "char \<Rightarrow> string" where
  "quote_char c =
     (if c = CHR 0x22 then [CHR 0x5C, CHR 0x22]
      else if c = CHR 0x5C then [CHR 0x5C, CHR 0x5C]
      else if c = CHR 0x0A then [CHR 0x5C, CHR ''n'']
      else if c = CHR 0x09 then [CHR 0x5C, CHR ''t'']
      else if c = CHR 0x0D then [CHR 0x5C, CHR ''r'']
      else if c = CHR 0x07 then [CHR 0x5C, CHR ''a'']
      else if c = CHR 0x08 then [CHR 0x5C, CHR ''b'']
      else if c = CHR 0x0C then [CHR 0x5C, CHR ''f'']
      else if c = CHR 0x0B then [CHR 0x5C, CHR ''v'']
      else let n = of_char c :: nat in
           if n < 32 \<or> n = 127 then [CHR 0x5C, CHR ''x'', lower_hex (n div 16), lower_hex (n mod 16)]
           else [c])"

definition go_quote :: "string \<Rightarrow> string" where
  "go_quote s = [CHR 0x22] @ concat (map quote_char s) @ [CHR 0x22]"

section \<open>Packages path and path/filepath (on Unix)\<close>

definition clean_step :: "bool \<Rightarrow> string list \<Rightarrow> string \<Rightarrow> string list" where
  "clean_step rooted acc c =
     (if c = ''..'' then
        (case acc of
           [] \<Rightarrow> if rooted then [] else [''..'']
         | x # xs \<Rightarrow> if x = ''..'' then ''..'' # acc else xs)
      else c # acc)"

definition path_components :: "string \<Rightarrow> string list" where
  "path_components s = filter (\<lambda>c. c \<noteq> [] \<and> c \<noteq> ''.'') (split_on (CHR ''/'') s)"

definition path_clean :: "string \<Rightarrow> string" where
  "path_clean s =
     (if s = [] then ''.''
      else let rooted = (hd s = CHR ''/'');
               out = rev (foldl (clean_step rooted) [] (path_components s))
           in if rooted then CHR ''/'' # join_with ''/'' out
              else if out = [] then ''.'' else join_with ''/'' out)"

definition path_base :: "string \<Rightarrow> string" where
  "path_base s =
     (if s = [] then ''.''
      else let cs = filter (\<lambda>c. c \<noteq> []) (split_on (CHR ''/'') s)
           in if cs = [] then ''/'' else last cs)"

definition dir_part :: "string \<Rightarrow> string" where
  "dir_part s = rev (dropWhile (\<lambda>c. c \<noteq> CHR ''/'') (rev s))"

definition path_dir :: "string \<Rightarrow> string" where
  "path_dir s = path_clean (dir_part s)"

definition path_join :: "string list \<Rightarrow> string" where
  "path_join es = (let e = filter (\<lambda>c. c \<noteq> []) es in
     if e = [] then [] else path_clean (join_with ''/'' e))"

section \<open>Facts on splitting and joining\<close>

lemma split_on_not_Nil [simp]: "split_on c s \<noteq> []"
  by (cases s) (auto split: list.splits)

lemma split_on_no_sep [go_str]: "c \<notin> set s \<Longrightarrow> split_on c s = [s]"
  by (induction s) auto

lemma split_on_append_sep [go_str]:
  "split_on c (a @ c # b) = split_on c a @ split_on c b"
proof (induction a)
  case Nil
  then show ?case by simp
next
  case (Cons x a)
  show ?case
  proof (cases "split_on c a")
    case Nil
    then show ?thesis by simp
  next
    case (Cons y ys)
    with Cons.IH show ?thesis by simp
  qed
qed

lemma split_on_parts_no_sep: "p \<in> set (split_on c s) \<Longrightarrow> c \<notin> set p"
proof (induction s arbitrary: p)
  case Nil
  then show ?case by simp
next
  case (Cons x s)
  then show ?case by (fastforce split: if_splits list.splits)
qed

lemma join_split_on: "join_with [c] (split_on c s) = s"
proof (induction s)
  case Nil
  then show ?case by simp
next
  case (Cons x s)
  obtain y ys where e: "split_on c s = y # ys" by (cases "split_on c s") auto
  show ?case
  proof (cases ys)
    case Nil
    with e Cons.IH show ?thesis by auto
  next
    case (Cons z zs)
    with e Cons.IH show ?thesis by auto
  qed
qed

lemma has_prefix_append [simp]: "has_prefix (p @ s) p"
  by (simp add: has_prefix_def)

lemma has_prefix_iff: "has_prefix s p \<longleftrightarrow> (\<exists>t. s = p @ t)"
  by (metis append_take_drop_id has_prefix_append has_prefix_def)

lemma trim_prefix_append [simp]: "trim_prefix (p @ s) p = s"
  by (simp add: trim_prefix_def)

lemma trim_by_no_lead: "trim_by p s \<noteq> [] \<Longrightarrow> \<not> p (hd (trim_by p s))"
proof -
  assume ne: "trim_by p s \<noteq> []"
  let ?d = "dropWhile p s"
  have dne: "?d \<noteq> []" using ne unfolding trim_by_def by (cases "?d = []") simp_all
  then have h: "\<not> p (hd ?d)" by (rule hd_dropWhile)
  have "dropWhile p (rev ?d) = dropWhile p (rev (tl ?d)) @ [hd ?d]"
    using dne h by (metis dropWhile_append3 list.collapse rev.simps(2))
  then have "hd (trim_by p s) = hd ?d" by (simp add: trim_by_def)
  with h show ?thesis by simp
qed

lemma trim_by_idem: "trim_by p (trim_by p s) = trim_by p s"
proof (cases "trim_by p s = []")
  case True
  then show ?thesis by (simp only:) (simp add: trim_by_def)
next
  case False
  then have "dropWhile p (trim_by p s) = trim_by p s"
    using trim_by_no_lead [OF False] by (metis dropWhile.simps(2) list.collapse)
  moreover have "dropWhile p (rev (trim_by p s)) = rev (trim_by p s)"
    by (simp add: trim_by_def dropWhile_idem)
  ultimately show ?thesis by (simp add: trim_by_def)
qed

section \<open>Decimal round trip\<close>

lemma digit_val_char: "d < 10 \<Longrightarrow> digit_val (digit_char d) = Some d"
  by (simp add: digit_val_def digit_char_def of_char_of)

lemma parse_digits_append:
  "parse_digits acc (a @ b) =
     (case parse_digits acc a of None \<Rightarrow> None | Some n \<Rightarrow> parse_digits n b)"
  by (induction a arbitrary: acc) (auto split: option.splits)

lemma parse_digits_nat_dec: "parse_digits 0 (nat_dec n) = Some n"
proof (induction n rule: nat_dec.induct)
  case (1 n)
  show ?case
  proof (cases "n < 10")
    case True
    then show ?thesis by (simp add: nat_dec.simps [of n] digit_val_char)
  next
    case False
    with "1.IH" have "parse_digits 0 (nat_dec (n div 10)) = Some (n div 10)" by simp
    then show ?thesis using False
      by (simp add: nat_dec.simps [of n] parse_digits_append digit_val_char)
  qed
qed

lemma nat_dec_digits: "c \<in> set (nat_dec n) \<Longrightarrow> digit_val c \<noteq> None"
proof (induction n rule: nat_dec.induct)
  case (1 n)
  show ?case
  proof (cases "n < 10")
    case True
    with "1.prems" show ?thesis by (simp add: nat_dec.simps [of n] digit_val_char)
  next
    case False
    with 1 show ?thesis
      by (auto simp: nat_dec.simps [of n] digit_val_char)
  qed
qed

lemma nat_dec_not_Nil [simp]: "nat_dec n \<noteq> []"
  by (subst nat_dec.simps) simp

lemma ParseInt_FormatInt:
  assumes "MinInt64 \<le> i" and "i \<le> MaxInt64"
  shows "ParseInt (FormatInt i) = Some i"
proof (cases "i < 0")
  case True
  with assms show ?thesis
    by (simp add: ParseInt_def FormatInt_def parse_digits_nat_dec Let_def)
next
  case False
  have hd: "hd (nat_dec (nat i)) \<in> set (nat_dec (nat i))" by simp
  have "digit_val (CHR ''-'') = None" and "digit_val (CHR ''+'') = None"
    by (simp_all add: digit_val_def)
  with nat_dec_digits [OF hd] have "hd (nat_dec (nat i)) \<noteq> CHR ''-''"
    and "hd (nat_dec (nat i)) \<noteq> CHR ''+''" by auto
  with False assms show ?thesis
    by (simp add: ParseInt_def FormatInt_def parse_digits_nat_dec Let_def)
qed

lemma ParseInt_range: "ParseInt s = Some v \<Longrightarrow> MinInt64 \<le> v \<and> v \<le> MaxInt64"
  by (auto simp: ParseInt_def Let_def split: if_splits option.splits)

section \<open>Paths of the shapes the driver builds\<close>

text \<open>A path segment: what may stand between two slashes of a cleaned path.\<close>

definition segment :: "string \<Rightarrow> bool" where
  "segment s \<longleftrightarrow> s \<noteq> [] \<and> CHR ''/'' \<notin> set s \<and> s \<noteq> ''.'' \<and> s \<noteq> ''..''"

lemma segment_simps [simp]:
  "segment s \<Longrightarrow> s \<noteq> []"
  "segment s \<Longrightarrow> CHR ''/'' \<notin> set s"
  "segment s \<Longrightarrow> s \<noteq> ''.''"
  "segment s \<Longrightarrow> s \<noteq> ''..''"
  by (simp_all add: segment_def)

lemma dir_part_slash: "CHR ''/'' \<notin> set b \<Longrightarrow> dir_part (a @ CHR ''/'' # b) = a @ ''/''"
  unfolding dir_part_def
  by (subst rev_append) (auto simp: dropWhile_append3 dropWhile_append2)

lemma path_dir_root: "CHR ''/'' \<notin> set b \<Longrightarrow> path_dir (CHR ''/'' # b) = ''/''"
  using dir_part_slash [of b "[]"]
  by (simp add: path_dir_def path_clean_def path_components_def)

lemma path_dir_nested:
  assumes "segment a" and "CHR ''/'' \<notin> set b"
  shows "path_dir (CHR ''/'' # a @ CHR ''/'' # b) = CHR ''/'' # a"
proof -
  have "dir_part ((CHR ''/'' # a) @ CHR ''/'' # b) = CHR ''/'' # a @ ''/''"
    using dir_part_slash [OF assms(2), of "CHR ''/'' # a"] by simp
  moreover have "split_on (CHR ''/'') (a @ ''/'') = [a, []]"
    using assms(1) split_on_append_sep [of "CHR ''/''" a "[]"] by (simp add: split_on_no_sep)
  ultimately show ?thesis
    using assms(1)
    by (simp add: path_dir_def path_clean_def path_components_def clean_step_def)
qed

lemma path_base_slash:
  assumes "CHR ''/'' \<notin> set b" and "b \<noteq> []"
  shows "path_base (a @ CHR ''/'' # b) = b"
proof -
  have "split_on (CHR ''/'') (a @ CHR ''/'' # b) = split_on (CHR ''/'') a @ [b]"
    using assms(1) by (simp add: split_on_append_sep split_on_no_sep)
  then show ?thesis using assms(2) by (simp add: path_base_def)
qed

lemma path_base_no_slash: "CHR ''/'' \<notin> set b \<Longrightarrow> b \<noteq> [] \<Longrightarrow> path_base b = b"
  by (simp add: path_base_def split_on_no_sep)

section \<open>Numbers in text\<close>

lemma FormatInt_digits: "0 \<le> n \<Longrightarrow> c \<in> set (FormatInt n) \<Longrightarrow> digit_val c \<noteq> None"
  by (simp add: FormatInt_def nat_dec_digits)

lemma FormatInt_not_Nil [simp]: "FormatInt n \<noteq> []"
  by (simp add: FormatInt_def)

lemma split_n_append: "c \<notin> set a \<Longrightarrow> split_n (Suc (Suc n)) c (a @ c # t) = a # split_n (Suc n) c t"
proof -
  assume "c \<notin> set a"
  then have "takeWhile (\<lambda>x. x \<noteq> c) (a @ c # t) = a" "dropWhile (\<lambda>x. x \<noteq> c) (a @ c # t) = c # t"
    by (subst takeWhile_append2 dropWhile_append2, fastforce, simp)+
  then show ?thesis by simp
qed

lemma split_n_last: "c \<notin> set s \<Longrightarrow> split_n (Suc n) c s = [s]"
proof -
  assume "c \<notin> set s"
  then have "dropWhile (\<lambda>x. x \<noteq> c) s = []" by (auto simp: dropWhile_eq_Nil_conv)
  then show ?thesis by (cases n) (simp_all only: split_n.simps Let_def list.case)
qed

end
