(* ===== verification/Go_Time.thy ===== *)
theory Go_Time
  imports Go_Strings
begin

text \<open>
  Durations of Go's package \<open>time\<close>, as far as the driver uses them: \<open>ParseDuration\<close>, which reads the timeouts and
  intervals of the environment, and \<open>Duration.String\<close>, which writes them into messages. A duration is a number of
  nanoseconds that fits 64 bits.

  The library computes the fraction of a number such as \<open>1.5h\<close> in floating point. That product,
  \<open>float64(f) * (float64(unit) / scale)\<close> cut off to an integer, is the parameter \<open>frac f unit scale\<close>; the
  round trip needs of it only that it is exact where all three numbers are integers below \<open>10 ^ 9\<close>.
\<close>

section \<open>Reading\<close>

fun leading_int :: "int \<Rightarrow> string \<Rightarrow> (int \<times> string) option" where
  "leading_int x [] = Some (x, [])"
| "leading_int x (c # s) =
     (case digit_val c of
        None \<Rightarrow> Some (x, c # s)
      | Some d \<Rightarrow>
          if x > 2 ^ 63 div 10 then None
          else if 10 * x + int d > 2 ^ 63 then None
          else leading_int (10 * x + int d) s)"

text \<open>The digits after a point: their value, the power of ten they are to be divided by, and the rest.\<close>

fun leading_fraction :: "int \<Rightarrow> int \<Rightarrow> bool \<Rightarrow> string \<Rightarrow> int \<times> int \<times> string" where
  "leading_fraction x scale overflow [] = (x, scale, [])"
| "leading_fraction x scale overflow (c # s) =
     (case digit_val c of
        None \<Rightarrow> (x, scale, c # s)
      | Some d \<Rightarrow>
          if overflow then leading_fraction x scale True s
          else if x > (2 ^ 63 - 1) div 10 then leading_fraction x scale True s
          else if 10 * x + int d > 2 ^ 63 then leading_fraction x scale True s
          else leading_fraction (10 * x + int d) (10 * scale) False s)"

definition micro :: string where "micro = [CHR 0xC2, CHR 0xB5]"

definition duration_unit :: "string \<Rightarrow> int option" where
  "duration_unit u =
     (if u = ''ns'' then Some 1
      else if u = ''us'' \<or> u = micro @ ''s'' \<or> u = [CHR 0xCE, CHR 0xBC] @ ''s'' then Some 1000
      else if u = ''ms'' then Some 1000000
      else if u = ''s'' then Some 1000000000
      else if u = ''m'' then Some (60 * 1000000000)
      else if u = ''h'' then Some (60 * 60 * 1000000000)
      else None)"

definition in_number :: "char \<Rightarrow> bool" where
  "in_number c \<longleftrightarrow> c = CHR ''.'' \<or> digit_val c \<noteq> None"

text \<open>One number with its unit: its value in nanoseconds and the rest.\<close>

definition duration_term :: "(int \<Rightarrow> int \<Rightarrow> int \<Rightarrow> int) \<Rightarrow> string \<Rightarrow> (int \<times> string) option" where
  "duration_term frac s =
     (if s = [] \<or> \<not> in_number (hd s) then None
      else (case leading_int 0 s of
        None \<Rightarrow> None
      | Some (v, s1) \<Rightarrow>
          let pre = (length s1 \<noteq> length s);
              dot = (s1 \<noteq> [] \<and> hd s1 = CHR ''.'');
              (f, scale, s2) = (if dot then leading_fraction 0 1 False (tl s1) else (0, 1, s1));
              post = (dot \<and> length s2 \<noteq> length (tl s1));
              u = takeWhile (\<lambda>c. \<not> in_number c) s2
          in if \<not> pre \<and> \<not> post then None
             else (case duration_unit u of
               None \<Rightarrow> None
             | Some unit \<Rightarrow>
                 if v > 2 ^ 63 div unit then None
                 else let v2 = v * unit + (if f > 0 then frac f unit scale else 0)
                      in if v2 > 2 ^ 63 then None else Some (v2, drop (length u) s2))))"

lemma leading_int_length: "leading_int x s = Some (v, r) \<Longrightarrow> length r \<le> length s"
  by (induction x s rule: leading_int.induct) (auto split: option.splits if_splits)

lemma leading_fraction_length: "length (snd (snd (leading_fraction x sc ov s))) \<le> length s"
proof (induction s arbitrary: x sc ov)
  case (Cons c s)
  show ?case using Cons.IH by (auto split: option.splits simp: le_SucI)
qed simp

lemma duration_unit_Nil: "duration_unit [] = None"
  by (simp add: duration_unit_def micro_def)

lemma duration_term_shorter:
  assumes "duration_term frac s = Some (v, r)"
  shows "length r < length s"
proof -
  obtain v0 s1 where i: "leading_int 0 s = Some (v0, s1)"
    using assms by (auto simp: duration_term_def split: if_splits option.splits)
  let ?dot = "s1 \<noteq> [] \<and> hd s1 = CHR ''.''"
  obtain f scale s2 where f: "(if ?dot then leading_fraction 0 1 False (tl s1) else (0, 1, s1)) = (f, scale, s2)"
    by (metis prod_cases3)
  let ?u = "takeWhile (\<lambda>c. \<not> in_number c) s2"
  have "length s2 \<le> length s1"
    using f leading_fraction_length [of 0 1 False "tl s1"] by (auto split: if_splits)
  moreover have "?u \<noteq> []" and "r = drop (length ?u) s2"
    using assms i f by (auto simp: duration_term_def Let_def duration_unit_Nil split: if_splits option.splits)
  moreover have "length ?u \<le> length s2" by (rule length_takeWhile_le)
  ultimately show ?thesis using leading_int_length [OF i] by (cases ?u) auto
qed

function duration_terms :: "(int \<Rightarrow> int \<Rightarrow> int \<Rightarrow> int) \<Rightarrow> int \<Rightarrow> string \<Rightarrow> int option" where
  "duration_terms frac d s =
     (if s = [] then Some d
      else (case duration_term frac s of
        None \<Rightarrow> None
      | Some (v, r) \<Rightarrow>
          let d2 = (d + v) mod 2 ^ 64 in if d2 > 2 ^ 63 then None else duration_terms frac d2 r))"
  by pat_completeness auto

termination
  by (relation "measure (\<lambda>(frac, d, s). length s)") (auto dest: duration_term_shorter)

declare duration_terms.simps [simp del]

definition ParseDuration :: "(int \<Rightarrow> int \<Rightarrow> int \<Rightarrow> int) \<Rightarrow> string \<Rightarrow> int option" where
  "ParseDuration frac s0 =
     (let signed = (s0 \<noteq> [] \<and> (hd s0 = CHR ''-'' \<or> hd s0 = CHR ''+''));
          neg = (s0 \<noteq> [] \<and> hd s0 = CHR ''-'');
          s = (if signed then tl s0 else s0)
      in if s = ''0'' then Some 0
         else if s = [] then None
         else (case duration_terms frac 0 s of
           None \<Rightarrow> None
         | Some d \<Rightarrow>
             if neg then Some (- d)
             else if d > 2 ^ 63 - 1 then None else Some d))"

section \<open>Writing\<close>

text \<open>The last \<open>prec\<close> digits of \<open>v\<close> without trailing zeros, with a point before them unless none is left, in front
  of \<open>buf\<close>; and what remains of \<open>v\<close>.\<close>

fun fmt_frac :: "nat \<Rightarrow> int \<Rightarrow> bool \<Rightarrow> string \<Rightarrow> string \<times> int" where
  "fmt_frac 0 v printing buf = (if printing then CHR ''.'' # buf else buf, v)"
| "fmt_frac (Suc prec) v printing buf =
     (let digit = v mod 10; p = (printing \<or> digit \<noteq> 0)
      in fmt_frac prec (v div 10) p (if p then digit_char (nat digit) # buf else buf))"

definition small_duration :: "int \<Rightarrow> string" where
  "small_duration u =
     (if u = 0 then ''0s''
      else let (prec, unit) = (if u < 1000 then (0, ''ns'') else if u < 1000000 then (3, micro @ ''s'') else (6, ''ms''));
               (buf, v) = fmt_frac prec u False unit
           in FormatInt v @ buf)"

definition large_duration :: "int \<Rightarrow> string" where
  "large_duration u =
     (let (buf, secs) = fmt_frac 9 u False ''s'';
          mins = secs div 60; hours = mins div 60
      in (if hours > 0 then FormatInt hours @ ''h'' else []) @
         (if mins > 0 then FormatInt (mins mod 60) @ ''m'' else []) @
         FormatInt (secs mod 60) @ buf)"

definition Duration_String :: "int \<Rightarrow> string" where
  "Duration_String d =
     (let u = \<bar>d\<bar>; s = (if u < 1000000000 then small_duration u else large_duration u)
      in if d < 0 then CHR ''-'' # s else s)"

section \<open>Round trip\<close>

text \<open>What stands after a number: nothing, or a character that is no digit.\<close>

definition ends_number :: "string \<Rightarrow> bool" where
  "ends_number r \<longleftrightarrow> r = [] \<or> digit_val (hd r) = None"

lemma parse_digits_mono: "parse_digits a ds = Some n \<Longrightarrow> a \<le> n"
proof (induction ds arbitrary: a)
  case (Cons c ds)
  then show ?case by (force split: option.splits)
qed simp

lemma leading_int_digits:
  assumes "parse_digits a ds = Some n" and "int n \<le> 2 ^ 63" and "ends_number r"
  shows "leading_int (int a) (ds @ r) = Some (int n, r)"
  using assms
proof (induction ds arbitrary: a)
  case Nil
  then show ?case by (cases r) (auto simp: ends_number_def)
next
  case (Cons c ds)
  then obtain d where d: "digit_val c = Some d" and p: "parse_digits (10 * a + d) ds = Some n"
    by (auto split: option.splits)
  have "10 * int a + int d \<le> 2 ^ 63" using parse_digits_mono [OF p] Cons.prems(2) by linarith
  moreover from this have "\<not> int a > 2 ^ 63 div 10" by simp
  ultimately show ?case using Cons.IH [OF p Cons.prems(2,3)] d by simp
qed

lemma leading_fraction_digits:
  assumes "parse_digits a ds = Some n" and "int n < 10 ^ 18" and "ends_number r"
  shows "leading_fraction (int a) sc False (ds @ r) = (int n, sc * 10 ^ length ds, r)"
  using assms
proof (induction ds arbitrary: a sc)
  case Nil
  then show ?case by (cases r) (auto simp: ends_number_def)
next
  case (Cons c ds)
  then obtain d where d: "digit_val c = Some d" and p: "parse_digits (10 * a + d) ds = Some n"
    by (auto split: option.splits)
  have "10 * int a + int d < 10 ^ 18" using parse_digits_mono [OF p] Cons.prems(2) by linarith
  then have "\<not> int a > (2 ^ 63 - 1) div 10" and "\<not> 10 * int a + int d > 2 ^ 63" by simp_all
  then show ?case using Cons.IH [OF p Cons.prems(2,3), of "10 * sc"] d by simp
qed

lemma digit_val_digit: "0 \<le> v \<Longrightarrow> digit_val (digit_char (nat (v mod 10))) = Some (nat (v mod 10))"
  by (rule digit_val_char) (simp add: nat_less_iff)

lemma fmt_frac_all:
  assumes "0 \<le> v"
  shows "\<exists>es. fmt_frac p v True buf = (CHR ''.'' # es @ buf, v div 10 ^ p) \<and> length es = p \<and>
    (\<forall>a. parse_digits a es = Some (a * 10 ^ p + nat (v mod 10 ^ p)))"
  using assms
proof (induction p arbitrary: v buf)
  case (Suc p)
  let ?d = "nat (v mod 10)"
  have nn: "0 \<le> v div 10" using Suc.prems by (simp add: pos_imp_zdiv_nonneg_iff)
  obtain es where es: "fmt_frac p (v div 10) True (digit_char ?d # buf) = (CHR ''.'' # es @ digit_char ?d # buf, v div 10 div 10 ^ p)"
      "length es = p" "\<And>a. parse_digits a es = Some (a * 10 ^ p + nat (v div 10 mod 10 ^ p))"
    using Suc.IH [OF nn, of "digit_char ?d # buf"] by blast
  have dec: "v mod 10 ^ Suc p = 10 * (v div 10 mod 10 ^ p) + v mod 10"
    using zmod_zmult2_eq [of "10 ^ p" v 10] by simp
  have "nat (v mod 10 ^ Suc p) = 10 * nat (v div 10 mod 10 ^ p) + ?d"
    unfolding dec using Suc.prems by (simp add: nat_add_distrib nat_mult_distrib)
  then have "parse_digits a (es @ [digit_char ?d]) = Some (a * 10 ^ Suc p + nat (v mod 10 ^ Suc p))" for a
    using es(3) [of a] digit_val_digit [OF Suc.prems] by (simp add: parse_digits_append algebra_simps)
  moreover have "v div 10 div 10 ^ p = v div 10 ^ Suc p" using zdiv_zmult2_eq [of "10 ^ p" v 10] by simp
  ultimately show ?case using es(1,2) by (intro exI [of _ "es @ [digit_char ?d]"]) (simp add: Let_def)
qed simp

lemma fmt_frac_digits:
  assumes "0 \<le> v"
  shows "snd (fmt_frac p v False buf) = v div 10 ^ p \<and>
    (if v mod 10 ^ p = 0 then fst (fmt_frac p v False buf) = buf
     else \<exists>ds n. fst (fmt_frac p v False buf) = CHR ''.'' # ds @ buf \<and> parse_digits 0 ds = Some n \<and>
       length ds \<le> p \<and> v mod 10 ^ p = int n * 10 ^ (p - length ds))"
  using assms
proof (induction p arbitrary: v buf)
  case (Suc p)
  have dec: "v mod 10 ^ Suc p = 10 * (v div 10 mod 10 ^ p) + v mod 10"
    using zmod_zmult2_eq [of "10 ^ p" v 10] by simp
  have dd: "v div 10 div 10 ^ p = v div 10 ^ Suc p" using zdiv_zmult2_eq [of "10 ^ p" v 10] by simp
  have nn: "0 \<le> v div 10" using Suc.prems by (simp add: pos_imp_zdiv_nonneg_iff)
  show ?case
  proof (cases "v mod 10 = 0")
    case True
    have "v mod 10 ^ Suc p = 0 \<longleftrightarrow> v div 10 mod 10 ^ p = 0" using dec True by simp
    moreover have "10 * (int n * 10 ^ (p - length ds)) = int n * 10 ^ (Suc p - length ds)" if "length ds \<le> p" for n and ds :: string
      using that by (simp add: Suc_diff_le)
    ultimately show ?thesis using Suc.IH [OF nn, of buf] True dd dec
      by (fastforce simp: Let_def split: if_splits)
  next
    case False
    let ?d = "nat (v mod 10)"
    obtain es where es: "fmt_frac p (v div 10) True (digit_char ?d # buf) = (CHR ''.'' # es @ digit_char ?d # buf, v div 10 div 10 ^ p)"
        "length es = p" "parse_digits 0 es = Some (nat (v div 10 mod 10 ^ p))"
      using fmt_frac_all [OF nn, of p "digit_char ?d # buf"] by force
    define ds where "ds = es @ [digit_char ?d]"
    define n where "n = 10 * nat (v div 10 mod 10 ^ p) + ?d"
    have fr: "fmt_frac (Suc p) v False buf = (CHR ''.'' # ds @ buf, v div 10 ^ Suc p)"
      using es(1) False dd by (simp add: Let_def ds_def)
    have "parse_digits 0 ds = Some n"
      using es(3) digit_val_digit [OF Suc.prems] by (simp add: ds_def n_def parse_digits_append)
    moreover have len: "length ds = Suc p" using es(2) by (simp add: ds_def)
    moreover have n: "v mod 10 ^ Suc p = int n" unfolding n_def using dec by simp
    moreover have "0 < v mod 10" using False by (simp add: order_less_le)
    then have "0 < int n" by (simp add: n_def add_nonneg_pos)
    ultimately show ?thesis unfolding fr fst_conv snd_conv
      by (intro conjI refl) (simp only: n if_not_P, intro exI [of _ ds] exI [of _ n], simp)
  qed
qed simp

text \<open>The floating-point product where it is exact: a proper fraction of a unit of at most a second.\<close>

definition exact_frac :: "(int \<Rightarrow> int \<Rightarrow> int \<Rightarrow> int) \<Rightarrow> bool" where
  "exact_frac frac \<longleftrightarrow> (\<forall>f unit scale. 0 < f \<longrightarrow> f < scale \<longrightarrow> scale dvd unit \<longrightarrow> unit \<le> 10 ^ 9 \<longrightarrow>
     frac f unit scale = f * (unit div scale))"

definition unit_text :: "string \<Rightarrow> bool" where
  "unit_text u \<longleftrightarrow> u \<noteq> [] \<and> (\<forall>c \<in> set u. \<not> in_number c)"

lemma FormatInt_parse: "0 \<le> n \<Longrightarrow> parse_digits 0 (FormatInt n) = Some (nat n)"
  by (simp add: FormatInt_def parse_digits_nat_dec)

lemma leading_int_FormatInt:
  "0 \<le> n \<Longrightarrow> n \<le> 2 ^ 63 \<Longrightarrow> ends_number r \<Longrightarrow> leading_int 0 (FormatInt n @ r) = Some (n, r)"
  using leading_int_digits [OF FormatInt_parse, of n r] by simp

lemma number_first: "0 \<le> n \<Longrightarrow> in_number (hd (FormatInt n @ r))"
proof -
  assume "0 \<le> n"
  moreover have "hd (FormatInt n) \<in> set (FormatInt n)" by simp
  ultimately show ?thesis using FormatInt_digits [of n] by (simp add: in_number_def)
qed

lemma unit_span:
  assumes "unit_text u" and "r = [] \<or> in_number (hd r)"
  shows "takeWhile (\<lambda>c. \<not> in_number c) (u @ r) = u" and "ends_number (u @ r)" and "hd (u @ r) \<noteq> CHR ''.''"
proof -
  show "takeWhile (\<lambda>c. \<not> in_number c) (u @ r) = u"
    using assms by (cases r) (auto simp: unit_text_def takeWhile_append2)
  have "\<not> in_number (hd u)" using assms(1) by (simp add: unit_text_def)
  then show "ends_number (u @ r)" and "hd (u @ r) \<noteq> CHR ''.''"
    using assms(1) by (simp_all add: ends_number_def unit_text_def in_number_def)
qed

lemma whole_fits:
  assumes "0 < unit" and "n * unit \<le> (2 ^ 63 :: int)"
  shows "n \<le> 2 ^ 63 div unit"
  using zdiv_mono1 [OF assms(2,1)] assms(1) by simp

lemma duration_term_whole:
  assumes "0 \<le> n" and "unit_text u" and "r = [] \<or> in_number (hd r)" and "duration_unit u = Some unit" and "0 < unit"
    and "n * unit \<le> 2 ^ 63"
  shows "duration_term frac (FormatInt n @ u @ r) = Some (n * unit, r)"
proof -
  have "n * 1 \<le> n * unit" using assms(1,5) by (intro mult_left_mono) auto
  then have n: "n \<le> 2 ^ 63" using assms(6) by linarith
  have "n \<le> 2 ^ 63 div unit" by (rule whole_fits [OF assms(5,6)])
  then show ?thesis
    using leading_int_FormatInt [OF assms(1) n unit_span(2) [OF assms(2,3)]] unit_span [OF assms(2,3)]
      number_first [OF assms(1), of "u @ r"] assms(2,4,6)
    by (simp add: duration_term_def unit_text_def)
qed

lemma duration_term_point:
  assumes "0 \<le> n" and "unit_text u" and "duration_unit u = Some unit" and "unit = 10 ^ p" and "p \<le> 9"
    and "parse_digits 0 ds = Some m" and "length ds \<le> p" and "f = int m * 10 ^ (p - length ds)" and "0 < f" and "f < unit"
    and "n * unit + f \<le> 2 ^ 63" and "exact_frac frac"
  shows "duration_term frac (FormatInt n @ CHR ''.'' # ds @ u) = Some (n * unit + f, [])"
proof -
  have pu: "0 < unit" using assms(4) by simp
  have "n * 1 \<le> n * unit" using assms(1) pu by (intro mult_left_mono) auto
  then have n: "n \<le> 2 ^ 63" using assms(9,11) by linarith
  have fit: "n \<le> 2 ^ 63 div unit" using assms(9,11) by (intro whole_fits [OF pu]) linarith
  have pw: "10 ^ p = 10 ^ length ds * (10 ^ (p - length ds) :: int)" using assms(7) by (simp flip: power_add)
  have m: "0 < int m" using assms(8,9) by (simp add: zero_less_mult_iff)
  have lt: "int m < 10 ^ length ds" using assms(4,8,10) pw by simp
  have "(10 :: int) ^ length ds \<le> 10 ^ 9" using assms(5,7) by (intro power_increasing) auto
  moreover have "(10 :: int) ^ 9 \<le> 10 ^ 18" by simp
  ultimately have small: "int m < 10 ^ 18" using lt by linarith
  have "(10 :: int) ^ p \<le> 10 ^ 9" using assms(5) by (intro power_increasing) auto
  moreover have "unit div 10 ^ length ds = 10 ^ (p - length ds)" using pw assms(4) by simp
  ultimately have fr: "frac (int m) unit (10 ^ length ds) = f"
    using assms(4,8,12) m lt pw unfolding exact_frac_def by (metis dvd_triv_left)
  have "leading_fraction 0 1 False (ds @ u) = (int m, 10 ^ length ds, u)"
    using leading_fraction_digits [OF assms(6) small, of u 1] unit_span(2) [OF assms(2), of "[]"] by simp
  moreover have "leading_int 0 (FormatInt n @ CHR ''.'' # ds @ u) = Some (n, CHR ''.'' # ds @ u)"
    using leading_int_FormatInt [OF assms(1) n] by (simp add: ends_number_def digit_val_def)
  moreover have "ds \<noteq> []" using assms(6) m by auto
  ultimately show ?thesis
    using number_first [OF assms(1), of "CHR ''.'' # ds @ u"] unit_span(1) [OF assms(2), of "[]"] assms(3,11) fit fr m
    by (simp add: duration_term_def Let_def del: takeWhile_eq_all_conv)
qed

text \<open>A number of units with what \<open>fmt_frac\<close> put after it.\<close>

lemma duration_term_frac:
  assumes "0 \<le> v" and "v \<le> 2 ^ 63" and "unit_text u" and "duration_unit u = Some (10 ^ p)" and "p \<le> 9" and "exact_frac frac"
  shows "duration_term frac (FormatInt (snd (fmt_frac p v False u)) @ fst (fmt_frac p v False u)) = Some (v, [])"
proof -
  note fd = fmt_frac_digits [OF assms(1), of p u]
  have q: "snd (fmt_frac p v False u) = v div 10 ^ p" using fd by simp
  have vd: "v div 10 ^ p * 10 ^ p + v mod 10 ^ p = v" by (rule div_mult_mod_eq)
  have nn: "0 \<le> v div 10 ^ p" using assms(1) by (simp add: pos_imp_zdiv_nonneg_iff)
  show ?thesis
  proof (cases "v mod 10 ^ p = 0")
    case True
    then have "v div 10 ^ p * 10 ^ p = v" and "fst (fmt_frac p v False u) = u" using vd fd by simp_all
    then show ?thesis unfolding q
      using duration_term_whole [OF nn assms(3) disjI1 [OF refl] assms(4), of frac] assms(2) by simp
  next
    case False
    then obtain ds m where ds: "fst (fmt_frac p v False u) = CHR ''.'' # ds @ u" "parse_digits 0 ds = Some m"
        "length ds \<le> p" "v mod 10 ^ p = int m * 10 ^ (p - length ds)"
      using conjunct2 [OF fd] unfolding if_not_P [OF False] by blast
    have "0 < v mod 10 ^ p" using False pos_mod_sign [of "10 ^ p" v] zero_less_power [of "10 :: int" p] by linarith
    moreover have "v mod 10 ^ p < 10 ^ p" by simp
    ultimately have "duration_term frac (FormatInt (v div 10 ^ p) @ CHR ''.'' # ds @ u) = Some (v div 10 ^ p * 10 ^ p + v mod 10 ^ p, [])"
      by (rule duration_term_point [OF nn assms(3,4) refl assms(5) ds(2-4) _ _ _ assms(6)]) (simp only: vd assms(2))
    then show ?thesis by (simp only: q ds(1) vd)
  qed
qed

lemma units:
  "unit_text ''ns'' \<and> duration_unit ''ns'' = Some (10 ^ 0)"
  "unit_text (micro @ ''s'') \<and> duration_unit (micro @ ''s'') = Some (10 ^ 3)"
  "unit_text ''ms'' \<and> duration_unit ''ms'' = Some (10 ^ 6)"
  "unit_text ''s'' \<and> duration_unit ''s'' = Some (10 ^ 9)"
  "unit_text ''m'' \<and> duration_unit ''m'' = Some (60 * 10 ^ 9)"
  "unit_text ''h'' \<and> duration_unit ''h'' = Some (3600 * 10 ^ 9)"
  by (simp_all add: unit_text_def in_number_def digit_val_def micro_def duration_unit_def)

lemma terms_last:
  assumes "duration_term frac s = Some (v, [])" and "0 \<le> d" and "d + v \<le> 2 ^ 63" and "0 \<le> v"
  shows "duration_terms frac d s = Some (d + v)"
proof -
  have "s \<noteq> []" using assms(1) by (auto simp: duration_term_def)
  moreover have "(d + v) mod 2 ^ 64 = d + v" using assms(2-4) by (intro mod_pos_pos_trivial) auto
  ultimately show ?thesis using assms by (simp add: duration_terms.simps [of frac d s] duration_terms.simps [of frac _ "[]"])
qed

lemma terms_whole:
  assumes "0 \<le> n" and "unit_text u" and "in_number (hd r)" and "r \<noteq> []" and "duration_unit u = Some unit" and "0 < unit"
    and "0 \<le> d" and "d + n * unit \<le> 2 ^ 63"
  shows "duration_terms frac d (FormatInt n @ u @ r) = duration_terms frac (d + n * unit) r"
proof -
  have nu: "0 \<le> n * unit" using assms(1,6) by simp
  have "n * unit \<le> 2 ^ 63" using assms(7,8) by linarith
  then have "duration_term frac (FormatInt n @ u @ r) = Some (n * unit, r)"
    using assms by (intro duration_term_whole) auto
  moreover have "(d + n * unit) mod 2 ^ 64 = d + n * unit" using assms(7,8) nu by (intro mod_pos_pos_trivial) auto
  ultimately show ?thesis using assms(8) by (simp add: duration_terms.simps [of frac d])
qed

lemma small_duration_terms:
  assumes "0 \<le> u" and "u < 10 ^ 9" and "exact_frac frac"
  shows "duration_terms frac 0 (small_duration u) = Some u"
proof -
  have u: "0 \<le> u" "u \<le> 2 ^ 63" using assms(1,2) by auto
  have "FormatInt 0 @ ''s'' = ''0s''" by code_simp
  then have "duration_term frac ''0s'' = Some (0, [])"
    using duration_term_whole [OF order_refl conjunct1 [OF units(4)] disjI1 [OF refl] conjunct2 [OF units(4)], of frac] by simp
  then have "duration_term frac (small_duration u) = Some (u, [])"
    using duration_term_frac [OF u conjunct1 [OF units(1)] conjunct2 [OF units(1)] _ assms(3)]
      duration_term_frac [OF u conjunct1 [OF units(2)] conjunct2 [OF units(2)] _ assms(3)]
      duration_term_frac [OF u conjunct1 [OF units(3)] conjunct2 [OF units(3)] _ assms(3)] assms(1)
    by (simp add: small_duration_def case_prod_beta Let_def)
  then show ?thesis using terms_last [of frac _ u 0] u by simp
qed

lemma fmt_frac_mod: "v mod 10 ^ p = w mod 10 ^ p \<Longrightarrow> fst (fmt_frac p v b buf) = fst (fmt_frac p w b buf)"
proof (induction p arbitrary: v w b buf)
  case (Suc p)
  have dec: "x mod 10 ^ Suc p = 10 * (x div 10 mod 10 ^ p) + x mod 10" for x :: int
    using zmod_zmult2_eq [of "10 ^ p" x 10] by simp
  have low: "(10 * y + x mod 10) mod 10 = x mod 10" for x y :: int by simp
  have "v mod 10 = v mod 10 ^ Suc p mod 10" by (simp only: dec low)
  also have "\<dots> = w mod 10" using Suc.prems by (simp only: dec low)
  finally have "v mod 10 = w mod 10" .
  moreover from this have "v div 10 mod 10 ^ p = w div 10 mod 10 ^ p" using Suc.prems dec [of v] dec [of w] by linarith
  ultimately show ?case using Suc.IH [of "v div 10" "w div 10"] by (simp add: Let_def)
qed simp

lemma minute_split: "u mod (60 * 10 ^ 9) = 10 ^ 9 * (u div 10 ^ 9 mod 60) + u mod 10 ^ 9" for u :: int
  using zmod_zmult2_eq [of 60 u "10 ^ 9"] by (simp add: mult.commute)

text \<open>Seconds below a minute with the fraction of \<open>u\<close>.\<close>

lemma seconds_term:
  assumes "0 \<le> u" and "exact_frac frac"
  shows "duration_term frac (FormatInt (u div 10 ^ 9 mod 60) @ fst (fmt_frac 9 u False ''s''))
    = Some (u mod (60 * 10 ^ 9), [])"
proof -
  let ?v = "u mod (60 * 10 ^ 9)"
  have v: "0 \<le> ?v" "?v < 60 * 10 ^ 9" by simp_all
  have split: "?v = 10 ^ 9 * (u div 10 ^ 9 mod 60) + u mod 10 ^ 9" by (rule minute_split)
  have "?v div 10 ^ 9 = u div 10 ^ 9 mod 60" unfolding split by simp
  then have "snd (fmt_frac 9 ?v False ''s'') = u div 10 ^ 9 mod 60" using fmt_frac_digits [OF v(1), of 9 "''s''"] by simp
  moreover have "?v mod 10 ^ 9 = u mod 10 ^ 9" unfolding split by simp
  then have "fst (fmt_frac 9 ?v False ''s'') = fst (fmt_frac 9 u False ''s'')" by (rule fmt_frac_mod)
  moreover have "?v \<le> 2 ^ 63" using v(2) by simp
  ultimately show ?thesis
    using duration_term_frac [OF v(1) _ conjunct1 [OF units(4)] conjunct2 [OF units(4)] _ assms(2)] by simp
qed

lemma large_duration_terms:
  assumes u: "10 ^ 9 \<le> u" "u \<le> 2 ^ 63" and "exact_frac frac"
  shows "duration_terms frac 0 (large_duration u) = Some u"
proof -
  define secs where "secs = u div 10 ^ 9"
  define m where "m = secs div 60"
  define h where "h = m div 60"
  define tail where "tail = FormatInt (secs mod 60) @ fst (fmt_frac 9 u False ''s'')"
  have u0: "0 \<le> u" using u(1) by simp
  have t: "duration_term frac tail = Some (u mod (60 * 10 ^ 9), [])"
    unfolding tail_def secs_def by (rule seconds_term [OF u0 assms(3)])
  have nn: "0 \<le> secs" "0 \<le> m" "0 \<le> h" using u0 by (simp_all add: secs_def m_def h_def pos_imp_zdiv_nonneg_iff)
  have tl: "in_number (hd tail)" "tail \<noteq> []" unfolding tail_def by (rule number_first) simp_all
  have sum: "h * (3600 * 10 ^ 9) + (m mod 60) * (60 * 10 ^ 9) + u mod (60 * 10 ^ 9) = u"
  proof -
    have "u = secs * 10 ^ 9 + u mod 10 ^ 9" "secs = m * 60 + secs mod 60" "m = h * 60 + m mod 60"
      unfolding h_def m_def secs_def by (simp_all only: div_mult_mod_eq)
    then show ?thesis using minute_split [of u] unfolding secs_def [symmetric] by simp
  qed
  have part: "0 \<le> u mod (60 * 10 ^ 9)" "0 \<le> m mod 60" by simp_all
  have fin: "duration_terms frac d tail = Some (d + u mod (60 * 10 ^ 9))" if "0 \<le> d" "d + u mod (60 * 10 ^ 9) \<le> 2 ^ 63" for d
    by (rule terms_last [OF t that part(1)])
  have mins: "duration_terms frac d (FormatInt (m mod 60) @ ''m'' @ tail) = Some (d + (m mod 60) * (60 * 10 ^ 9) + u mod (60 * 10 ^ 9))"
    if d: "0 \<le> d" "d + (m mod 60) * (60 * 10 ^ 9) + u mod (60 * 10 ^ 9) \<le> 2 ^ 63" for d
  proof -
    have le: "d + (m mod 60) * (60 * 10 ^ 9) \<le> 2 ^ 63" using d part by linarith
    show ?thesis
      using terms_whole [OF part(2) conjunct1 [OF units(5)] tl conjunct2 [OF units(5)] _ d(1) le] fin [of "d + (m mod 60) * (60 * 10 ^ 9)"] d part(2)
      by simp
  qed
  have shape: "large_duration u = (if h > 0 then FormatInt h @ ''h'' else []) @ (if m > 0 then FormatInt (m mod 60) @ ''m'' else []) @ tail"
    using fmt_frac_digits [OF u0, of 9 "''s''"] by (simp add: large_duration_def case_prod_beta Let_def tail_def secs_def m_def h_def)
  consider "m = 0" | "0 < m" "h = 0" | "0 < m" "0 < h" using nn by (auto simp: h_def order_less_le)
  then show ?thesis
  proof cases
    case 1
    then show ?thesis using fin [of 0] sum u by (simp add: shape h_def)
  next
    case 2
    then show ?thesis using mins [of 0] sum u by (simp add: shape)
  next
    case 3
    have mi: "in_number (hd (FormatInt (m mod 60) @ ''m'' @ tail))" by (rule number_first [OF part(2)])
    have "0 \<le> m mod 60 * (60 * 10 ^ 9)" by simp
    then have "h * (3600 * 10 ^ 9) \<le> 2 ^ 63" using sum u(2) part(1) by linarith
    then show ?thesis
      using terms_whole [OF nn(3) conjunct1 [OF units(6)] mi _ conjunct2 [OF units(6)], of 0 frac]
        mins [of "h * (3600 * 10 ^ 9)"] sum u nn(3) 3 by (simp add: shape)
  qed
qed

text \<open>A duration is written as a number followed by a unit, so never as the bare zero nor with a sign.\<close>

lemma hd_FormatInt: "0 \<le> n \<Longrightarrow> digit_val (hd (FormatInt n @ r)) \<noteq> None"
  using FormatInt_digits [of n "hd (FormatInt n)"] by simp

lemma fmt_frac_not_Nil: "buf \<noteq> [] \<Longrightarrow> fst (fmt_frac p v b buf) \<noteq> []"
  by (induction p v b buf rule: fmt_frac.induct) (simp_all add: Let_def)

definition number_text :: "string \<Rightarrow> bool" where
  "number_text s \<longleftrightarrow> s \<noteq> [] \<and> digit_val (hd s) \<noteq> None \<and> s \<noteq> ''0''"

lemma number_textI: "0 \<le> n \<Longrightarrow> r \<noteq> [] \<Longrightarrow> number_text (FormatInt n @ r)"
  using hd_FormatInt [of n r] by (cases "FormatInt n") (auto simp: number_text_def)

lemma duration_text:
  assumes "0 \<le> u"
  shows "number_text (small_duration u)" and "number_text (large_duration u)"
proof -
  have snd: "0 \<le> snd (fmt_frac p u False buf)" for p buf
    using fmt_frac_digits [OF assms, of p buf] assms by (simp add: pos_imp_zdiv_nonneg_iff)
  have tail: "number_text (FormatInt n @ fst (fmt_frac p u False (c # buf)))" if "0 \<le> n" for n p c buf
    using fmt_frac_not_Nil [of "c # buf" p u False] that by (intro number_textI) auto
  have "number_text ''0s''" by code_simp
  then show "number_text (small_duration u)"
    using tail [OF snd] number_textI [OF assms, of "''ns''"] by (simp add: small_duration_def case_prod_beta Let_def micro_def)
  have "0 \<le> snd (fmt_frac 9 u False ''s'') div 60" using snd by (simp add: pos_imp_zdiv_nonneg_iff)
  then show "number_text (large_duration u)"
    using number_textI tail by (auto simp: large_duration_def case_prod_beta Let_def)
qed

lemma ParseDuration_text:
  assumes "number_text s" and "duration_terms frac 0 s = Some u"
  shows "u \<le> MaxInt64 \<Longrightarrow> ParseDuration frac s = Some u" and "ParseDuration frac (CHR ''-'' # s) = Some (- u)"
proof -
  have "hd s \<noteq> CHR ''-''" and "hd s \<noteq> CHR ''+''" using assms(1) by (auto simp: number_text_def digit_val_def)
  then show "u \<le> MaxInt64 \<Longrightarrow> ParseDuration frac s = Some u" and "ParseDuration frac (CHR ''-'' # s) = Some (- u)"
    using assms by (simp_all add: ParseDuration_def MaxInt64_def number_text_def)
qed

lemma ParseDuration_String:
  assumes "MinInt64 \<le> d" and "d \<le> MaxInt64" and "exact_frac frac"
  shows "ParseDuration frac (Duration_String d) = Some d"
proof -
  define u where "u = \<bar>d\<bar>"
  define s where "s = (if u < 10 ^ 9 then small_duration u else large_duration u)"
  have u: "0 \<le> u" "u \<le> 2 ^ 63" using assms(1,2) by (auto simp: u_def MinInt64_def MaxInt64_def)
  have "duration_terms frac 0 s = Some u"
    using small_duration_terms [OF u(1) _ assms(3)] large_duration_terms [OF _ u(2) assms(3)] by (simp add: s_def)
  moreover have "number_text s" using duration_text [OF u(1)] by (simp add: s_def)
  ultimately have p: "u \<le> MaxInt64 \<Longrightarrow> ParseDuration frac s = Some u" "ParseDuration frac (CHR ''-'' # s) = Some (- u)"
    using ParseDuration_text by blast+
  have "Duration_String d = (if d < 0 then CHR ''-'' # s else s)" by (simp add: Duration_String_def s_def u_def Let_def)
  then show ?thesis using p assms(2) by (auto simp: u_def)
qed

end
