(* ===== verification/Driver_Types.thy ===== *)
theory Driver_Types
  imports Go_Time
begin

text \<open>
  The data of the program: Go errors and gRPC status codes, the configuration constants and
  error texts of \<open>pkg/common\<close>, the request and response structures of the Hammerspace API
  (\<open>pkg/common/hs_types.go\<close>), and the CSI messages the driver reads and writes, with the
  fields its code uses. Field names carry a prefix, since record fields are global names.
\<close>

section \<open>Errors\<close>

datatype code =
    Unknown | InvalidArgument | DeadlineExceeded | NotFound | AlreadyExists | PermissionDenied
  | FailedPrecondition | Aborted | OutOfRange | Unimplemented | Internal | Unavailable

fun code_name :: "code \<Rightarrow> string" where
  "code_name Unknown = ''Unknown''"
| "code_name InvalidArgument = ''InvalidArgument''"
| "code_name DeadlineExceeded = ''DeadlineExceeded''"
| "code_name NotFound = ''NotFound''"
| "code_name AlreadyExists = ''AlreadyExists''"
| "code_name PermissionDenied = ''PermissionDenied''"
| "code_name FailedPrecondition = ''FailedPrecondition''"
| "code_name Aborted = ''Aborted''"
| "code_name OutOfRange = ''OutOfRange''"
| "code_name Unimplemented = ''Unimplemented''"
| "code_name Internal = ''Internal''"
| "code_name Unavailable = ''Unavailable''"

datatype errno = EIO | ESTALE | ErrNotExist | ErrPermission | ErrDeadlineExceeded

text \<open>
  A Go error value: its text (\<open>err.Error()\<close>), the gRPC status code that \<open>status.FromError\<close>
  finds in it, the system error that \<open>errors.Is\<close> finds in it, and the exit code of a failed
  command.
\<close>

record go_error =
  err_text :: string
  err_code :: "code option"
  err_errno :: "errno option"
  err_exit :: "int option"

definition new_error :: "string \<Rightarrow> go_error" where
  "new_error m = \<lparr>err_text = m, err_code = None, err_errno = None, err_exit = None\<rparr>"

definition status_error :: "code \<Rightarrow> string \<Rightarrow> go_error" where
  "status_error c m =
     \<lparr>err_text = ''rpc error: code = '' @ code_name c @ '' desc = '' @ m,
      err_code = Some c, err_errno = None, err_exit = None\<rparr>"

text \<open>\<open>fmt.Errorf\<close> with \<open>%w\<close>: a new text around an error that stays reachable.\<close>

definition wrap_error :: "string \<Rightarrow> go_error \<Rightarrow> go_error" where
  "wrap_error m e = e\<lparr>err_text := m\<rparr>"

definition IsNotExist :: "go_error \<Rightarrow> bool" where
  "IsNotExist e \<longleftrightarrow> err_errno e = Some ErrNotExist"

definition IsPermission :: "go_error \<Rightarrow> bool" where
  "IsPermission e \<longleftrightarrow> err_errno e = Some ErrPermission"

definition is_io_error :: "go_error \<Rightarrow> bool" where
  "is_io_error e \<longleftrightarrow> err_errno e = Some EIO \<or> err_errno e = Some ESTALE"

lemma status_error_sel [simp]:
  "err_code (status_error c m) = Some c"
  "err_errno (status_error c m) = None"
  by (simp_all add: status_error_def)

lemma new_error_sel [simp]:
  "err_code (new_error m) = None"
  "err_errno (new_error m) = None"
  "err_text (new_error m) = m"
  by (simp_all add: new_error_def)

type_synonym 'a res = "go_error + 'a"

text \<open>The gRPC code of a result: what a caller of an RPC sees.\<close>

definition result_code :: "'a res \<Rightarrow> code option" where
  "result_code r = (case r of Inl e \<Rightarrow> err_code e | Inr _ \<Rightarrow> None)"

section \<open>Configuration (pkg/common/config.go)\<close>

definition CsiPluginName :: string where "CsiPluginName = ''com.hammerspace.csi''"
definition ShareStagingDir :: string where "ShareStagingDir = ''/tmp''"
definition SharePathPrefix :: string where "SharePathPrefix = ''/''"
definition DefaultBackingFileSizeBytes :: int where "DefaultBackingFileSizeBytes = 1073741824"
definition DefaultVolumeNameFormat :: string where "DefaultVolumeNameFormat = ''%s''"
definition MinXfsSizeBytes :: int where "MinXfsSizeBytes = 300 * 1024 * 1024"
definition MinExt4SizeBytes :: int where "MinExt4SizeBytes = 20 * 1024 * 1024"
definition TopologyKeyDataPortal :: string where
  "TopologyKeyDataPortal = ''topology.csi.hammerspace.com/is-data-portal''"
definition DefaultDataPortalMountPrefixes :: "string list" where
  "DefaultDataPortalMountPrefixes = [''/'', ''/mnt/data-portal'', '''']"
definition BaseBackingShareMountPath :: string where
  "BaseBackingShareMountPath = ''/var/lib/hammerspace/rootmount''"
definition BaseVolumeMarkerSourcePath :: string where
  "BaseVolumeMarkerSourcePath = ''/var/lib/hammerspace/volumes''"

text \<open>Time is counted in nanoseconds, as \<open>time.Duration\<close> does.\<close>

definition second :: int where "second = 1000000000"

section \<open>Error texts (pkg/common/error_text.go)\<close>

definition EmptyVolumeId :: string where "EmptyVolumeId = ''volume ID cannot be empty''"
definition VolumeIdTooLong :: "int \<Rightarrow> string" where
  "VolumeIdTooLong n = ''volume ID cannot be longer than '' @ FormatInt n @ '' characters''"
definition SnapshotIdTooLong :: "int \<Rightarrow> string" where
  "SnapshotIdTooLong n = ''shapshot ID cannot be longer than '' @ FormatInt n @ '' characters''"
definition ImproperlyFormattedSnapshotId :: "string \<Rightarrow> string" where
  "ImproperlyFormattedSnapshotId s =
     ''shapshot ID should be of the format <datetime>|<share export path>, received '' @ s"
definition EmptyTargetPath :: string where "EmptyTargetPath = ''target path cannot be empty''"
definition EmptyVolumePath :: string where "EmptyVolumePath = ''volume Path cannot be empty''"
definition NoCapabilitiesSupplied :: "string \<Rightarrow> string" where
  "NoCapabilitiesSupplied v = ''no capabilities supplied for volume '' @ v"
definition ConflictingCapabilities :: string where
  "ConflictingCapabilities = ''cannot request a volume to be both raw and a filesystem''"
definition InvalidDeleteDelay :: "string \<Rightarrow> string" where
  "InvalidDeleteDelay v =
     ''deleteDelay parameter must be an Integer. Value received '' @ [CHR 0x27] @ v @ [CHR 0x27]"
definition InvalidShareNameSize :: string where
  "InvalidShareNameSize = ''share name cannot be longer than 80 characters''"
definition InvalidCommentSize :: string where
  "InvalidCommentSize = ''share comment cannot be longer than 255 characters''"
definition EmptySnapshotId :: string where "EmptySnapshotId = ''snapshot ID cannot be empty''"
definition MissingSnapshotSourceVolumeId :: string where
  "MissingSnapshotSourceVolumeId = ''snapshot SourceVolumeId cannot be empty''"
definition BlockVolumeSizeNotSpecified :: string where
  "BlockVolumeSizeNotSpecified = ''capacity must be specified for block volumes''"
definition ShareNotMounted :: string where "ShareNotMounted = ''share is not in mounted state.''"
definition Ext3NotSupported :: string where
  "Ext3NotSupported = ''fsType=ext3 is not supported; use ext4 or xfs.''"
definition XfsSizeBelowMinimum :: "int \<Rightarrow> int \<Rightarrow> int \<Rightarrow> int \<Rightarrow> string" where
  "XfsSizeBelowMinimum a b c d =
     ''fsType=xfs volumes must be at least '' @ FormatInt a @ '' bytes ('' @ FormatInt b @
     '' MiB); requested '' @ FormatInt c @ '' bytes ('' @ FormatInt d @
     '' MiB). mkfs.xfs 6.4+ marks smaller filesystems as deprecated.''"
definition Ext4SizeBelowMinimum :: "int \<Rightarrow> int \<Rightarrow> int \<Rightarrow> int \<Rightarrow> string" where
  "Ext4SizeBelowMinimum a b c d =
     ''fsType=ext4 volumes must be at least '' @ FormatInt a @ '' bytes ('' @ FormatInt b @
     '' MiB); requested '' @ FormatInt c @ '' bytes ('' @ FormatInt d @
     '' MiB). Smaller ext4 filesystems have almost no usable space.''"
definition InvalidExportOptions :: "string \<Rightarrow> string" where
  "InvalidExportOptions v =
     ''export options must consist of 3 values: subnet,access,rootSquash, received ''
     @ [CHR 0x27] @ v @ [CHR 0x27]"
definition InvalidRootSquash :: "string \<Rightarrow> string" where
  "InvalidRootSquash v = ''rootSquash must be a bool. Value received '' @ [CHR 0x27] @ v @ [CHR 0x27]"
definition InvalidAdditionalMetadataTags :: "string \<Rightarrow> string" where
  "InvalidAdditionalMetadataTags v =
     ''extended Info must be of format key=value, received '' @ [CHR 0x27] @ v @ [CHR 0x27]"
definition InvalidObjectiveNameDoesNotExist :: "string \<Rightarrow> string" where
  "InvalidObjectiveNameDoesNotExist v = ''cannot find objective with the name '' @ v"
definition VolumeExistsSizeMismatch :: "int \<Rightarrow> int \<Rightarrow> string" where
  "VolumeExistsSizeMismatch a b =
     ''requested volume exists, but has a different size. Existing: '' @ FormatInt a @
     '', Requested: '' @ FormatInt b"
definition VolumeDeleteHasSnapshots :: string where
  "VolumeDeleteHasSnapshots =
     ''volumes with snapshots cannot be deleted, delete snapshots first''"
definition VolumeBeingDeleted :: string where
  "VolumeBeingDeleted = ''the specified volume is currently being deleted''"
definition VolumeNotFound :: string where "VolumeNotFound = ''volume does not exist''"
definition FileNotFound :: string where "FileNotFound = ''file does not exist''"
definition ShareNotFound :: string where "ShareNotFound = ''share does not exist''"
definition SourceSnapshotNotFound :: string where
  "SourceSnapshotNotFound = ''could not find source snapshots''"
definition SourceSnapshotShareNotFound :: string where
  "SourceSnapshotShareNotFound = ''could not find the share for the source snapshot''"
definition UnexpectedHSStatusCode :: "int \<Rightarrow> int \<Rightarrow> string" where
  "UnexpectedHSStatusCode a b =
     ''unexpected HTTP response from Hammerspace API: recieved status code '' @ FormatInt a @
     '', expected '' @ FormatInt b"
definition OutOfCapacity :: "int \<Rightarrow> int \<Rightarrow> string" where
  "OutOfCapacity a b =
     ''requested capacity '' @ FormatInt a @ '' exceeds available '' @ FormatInt b"
definition OutOfCapacity_format :: string where
  "OutOfCapacity_format = ''requested capacity %d exceeds available %d''"
definition LoopDeviceAttachFailed :: "string \<Rightarrow> string \<Rightarrow> string" where
  "LoopDeviceAttachFailed d f = ''failed setting up loop device: device='' @ d @ '', filePath='' @ f"
definition UnknownError :: string where "UnknownError = ''unknown internal error''"
definition BlockVolumesUnsupported :: string where
  "BlockVolumesUnsupported = ''block volumes are unsupported in CSI v0.3''"

section \<open>Hammerspace API structures (pkg/common/hs_types.go)\<close>

type_synonym smap = "string \<rightharpoonup> string"

text \<open>Indexing a Go map of strings: an absent key reads as the empty string.\<close>

definition mget :: "smap \<Rightarrow> string \<Rightarrow> string" where
  "mget m k = (case m k of None \<Rightarrow> [] | Some v \<Rightarrow> v)"

record ShareExportOptions =
  eo_Subnet :: string
  eo_AccessPermissions :: string
  eo_RootSquash :: bool

record HSVolumeParameters =
  vp_DeleteDelay :: int
  vp_ExportOptions :: "ShareExportOptions list"
  vp_Objectives :: "string list"
  vp_BlockBackingShareName :: string
  vp_MountBackingShareName :: string
  vp_VolumeNameFormat :: string
  vp_FSType :: string
  vp_Comment :: string
  vp_AdditionalMetadataTags :: smap
  vp_CacheEnabled :: bool
  vp_FQDN :: string
  vp_ObjectiveTarget :: string

record HSVolume =
  hv_DeleteDelay :: int
  hv_ExportOptions :: "ShareExportOptions list"
  hv_Objectives :: "string list"
  hv_BlockBackingShareName :: string
  hv_MountBackingShareName :: string
  hv_Size :: int
  hv_Name :: string
  hv_Path :: string
  hv_VolumeMode :: string
  hv_SourceSnapPath :: string
  hv_FSType :: string
  hv_Comment :: string
  hv_SourceSnapShareName :: string
  hv_AdditionalMetadataTags :: smap
  hv_FQDN :: string
  hv_MountFlags :: "string list"
  hv_ObjectiveTarget :: string

definition zero_HSVolume :: HSVolume where
  "zero_HSVolume =
     \<lparr>hv_DeleteDelay = 0, hv_ExportOptions = [], hv_Objectives = [],
      hv_BlockBackingShareName = [], hv_MountBackingShareName = [], hv_Size = 0, hv_Name = [],
      hv_Path = [], hv_VolumeMode = [], hv_SourceSnapPath = [], hv_FSType = [], hv_Comment = [],
      hv_SourceSnapShareName = [], hv_AdditionalMetadataTags = Map.empty, hv_FQDN = [],
      hv_MountFlags = [], hv_ObjectiveTarget = []\<rparr>"

record ClusterObjectiveResponse =
  ob_Name :: string
  ob_Fields :: "string option"

record ShareRequest =
  sr_Name :: string
  sr_ExportPath :: string
  sr_Comment :: string
  sr_ExtendedInfo :: smap
  sr_Size :: int
  sr_ExportOptions :: "ShareExportOptions list"
  sr_ShareObjectives :: "ClusterObjectiveResponse list"

record ShareResponse =
  sh_Name :: string
  sh_ExportPath :: string
  sh_ExtendedInfo :: smap
  sh_ShareState :: string
  sh_Size :: int
  sh_SpaceAvailable :: int

record Task =
  tk_Uuid :: string
  tk_Action :: string
  tk_Status :: string
  tk_StatusMessage :: string
  tk_ParamsName :: string

definition zero_Task :: Task where
  "zero_Task = \<lparr>tk_Uuid = [], tk_Action = [], tk_Status = [], tk_StatusMessage = [],
     tk_ParamsName = []\<rparr>"

record FileChildren =
  fc_Name :: string
  fc_Size :: int
  fc_CreateTime :: int

record HSFile =
  fl_Name :: string
  fl_Path :: string
  fl_Size :: int
  fl_Children :: "FileChildren list"

record FileSnapshot =
  fs_SourceFilename :: string
  fs_Time :: string

record Cluster =
  cl_Name :: string
  cl_PortalFloatingIps :: "string list"
  cl_MgmtIps :: "string list"

record DataPortal =
  dp_OperState :: string
  dp_AdminState :: string
  dp_DataPortalType :: string
  dp_NodeName :: string
  dp_MgmtAddress :: string
  dp_Uuid :: string

record VolumeResponse =
  vr_Name :: string
  vr_Capacity :: int

record SnapshotResponse =
  sn_Id :: string
  sn_Size :: int
  sn_Created :: int
  sn_ReadyToUse :: bool
  sn_SourceVolumeId :: string

datatype jval = JText string | JInt int

section \<open>CSI messages\<close>

datatype access_mode =
    MODE_UNKNOWN | SINGLE_NODE_WRITER | SINGLE_NODE_READER_ONLY | MULTI_NODE_READER_ONLY
  | MULTI_NODE_SINGLE_WRITER | MULTI_NODE_MULTI_WRITER | SINGLE_NODE_SINGLE_WRITER
  | SINGLE_NODE_MULTI_WRITER

text \<open>The access type of a volume capability: a raw block device, or a mounted filesystem
  with its file system type and mount flags.\<close>

datatype access_type = Access_Block | Access_Mount string "string list"

record VolumeCapability =
  cap_AccessType :: "access_type option"
  cap_AccessMode :: access_mode

definition GetMount :: "VolumeCapability \<Rightarrow> (string \<times> string list) option" where
  "GetMount c = (case cap_AccessType c of Some (Access_Mount f fl) \<Rightarrow> Some (f, fl) | _ \<Rightarrow> None)"

definition GetBlock :: "VolumeCapability \<Rightarrow> bool" where
  "GetBlock c = (cap_AccessType c = Some Access_Block)"

record CapacityRange =
  cr_RequiredBytes :: int
  cr_LimitBytes :: int

record CreateVolumeRequest =
  cv_Name :: string
  cv_CapacityRange :: "CapacityRange option"
  cv_VolumeCapabilities :: "VolumeCapability list option"
  cv_Parameters :: smap
  cv_SourceSnapshot :: "string option"

record Volume =
  vol_CapacityBytes :: int
  vol_VolumeId :: string
  vol_VolumeContext :: smap
  vol_SourceSnapshot :: "string option"

record Timestamp =
  ts_Seconds :: int
  ts_Nanos :: int

text \<open>A time in nanoseconds since the epoch, as a timestamp.\<close>

definition unix_timestamp :: "int \<Rightarrow> Timestamp" where
  "unix_timestamp t = \<lparr>ts_Seconds = t div second, ts_Nanos = t mod second\<rparr>"

definition seconds_timestamp :: "int \<Rightarrow> Timestamp" where
  "seconds_timestamp t = \<lparr>ts_Seconds = t, ts_Nanos = 0\<rparr>"

record Snapshot =
  snap_SizeBytes :: int
  snap_SnapshotId :: string
  snap_SourceVolumeId :: string
  snap_CreationTime :: Timestamp
  snap_ReadyToUse :: bool

end
