(* ===== verification/Driver_State.thy ===== *)
theory Driver_State
  imports Driver_Types
begin

text \<open>
  The state of one driver process and its environment.

  Everything outside the repository is a field of the record \<open>env\<close>, over an arbitrary type of
  worlds \<open>'w\<close>: the Anvil REST service behind \<open>net/http\<close>, the JSON codec on each response type,
  the commands run by \<open>os/exec\<close>, the mount library, the file system calls of \<open>os\<close>, name
  resolution, the Kubernetes API used by the freezer, and the clock. Each call takes the world
  and gives an answer and the next world, so an environment may answer the same question
  differently at different times.

  The record \<open>drv\<close> is the driver's own state: the process-wide cache, the round-robin indices,
  the volume, snapshot and mount locks the running call holds, the backing-mount references, the mount slots in use, the
  snapshots created recently, the mounts and path probes still in flight, whether the process
  has panicked, the world, and the history of outside calls (newest first), which the code does
  not have and which only the statements read.
\<close>

section \<open>The environment\<close>

record http_request =
  rq_Method :: string
  rq_Url :: string
  rq_Body :: string

record http_response =
  rs_Status :: int
  rs_Body :: string
  rs_Location :: "string list option"
  rs_ReadErr :: "go_error option"

record file_info =
  fi_Size :: int
  fi_IsDir :: bool
  fi_Symlink :: bool
  fi_Device :: bool
  fi_CharDevice :: bool

record mount_entry =
  me_Device :: string
  me_Path :: string
  me_Type :: string

record statfs_info =
  st_Bsize :: int
  st_Blocks :: int
  st_Bfree :: int
  st_Bavail :: int
  st_Files :: int
  st_Ffree :: int

record kube_pv =
  pv_Name :: string
  pv_VolumeHandle :: "string option"
  pv_ClaimRef :: "(string \<times> string) option"

record kube_pod =
  pod_Namespace :: string
  pod_Name :: string
  pod_UID :: string
  pod_Running :: bool
  pod_NodeName :: string
  pod_ClaimNames :: "string list"

text \<open>
  What a command run ends in: it could not start, it was still running when the timeout killed
  it, it exited with an error, or it printed its output and exited cleanly.
\<close>

datatype exec_outcome =
    Exec_StartError go_error | Exec_Timeout | Exec_ExitError go_error | Exec_Output string

text \<open>\<open>json.Unmarshal\<close> fills the value as far as it gets and also reports an error.\<close>

type_synonym 'a decoded = "'a \<times> go_error option"

record 'w env =
  env_Endpoint :: string
  env_Credentials :: "string \<times> string"
  env_NodeID :: string
  env_Version :: string
  env_Githash :: string
  env_CsiVersion :: string
  env_DataPortalMountPrefix :: string
  env_MountCheckTimeout :: int
  env_MaxRetries :: nat
  env_RetryInterval :: int
  env_MountSlots :: "nat option"
  env_Getenv :: "string \<Rightarrow> string"
  env_NewRequestErr :: "string \<Rightarrow> go_error option"
  env_Http :: "http_request \<Rightarrow> 'w \<Rightarrow> http_response res \<times> 'w"
  env_TaskPath :: "string \<Rightarrow> string option"
  env_DecShares :: "string \<Rightarrow> ShareResponse list decoded"
  env_DecShare :: "string \<Rightarrow> ShareResponse decoded"
  env_DecRaw :: "string \<Rightarrow> (string \<rightharpoonup> jval) option decoded"
  env_DecFile :: "string \<Rightarrow> HSFile decoded"
  env_DecTask :: "string \<Rightarrow> Task \<Rightarrow> Task decoded"
  env_DecTasks :: "string \<Rightarrow> Task list decoded"
  env_DecObjectives :: "string \<Rightarrow> ClusterObjectiveResponse list decoded"
  env_DecVolumes :: "string \<Rightarrow> VolumeResponse list decoded"
  env_DecStrings :: "string \<Rightarrow> string list decoded"
  env_DecFileSnapshots :: "string \<Rightarrow> FileSnapshot list decoded"
  env_DecPortals :: "string \<Rightarrow> DataPortal list decoded"
  env_DecCluster :: "string \<Rightarrow> Cluster decoded"
  env_DecCapacity :: "string \<Rightarrow> (string \<rightharpoonup> int) decoded"
  env_EncShare :: "ShareRequest \<Rightarrow> string"
  env_EncRaw :: "(string \<rightharpoonup> jval) \<Rightarrow> string"
  env_Exec :: "string \<Rightarrow> string list \<Rightarrow> 'w \<Rightarrow> exec_outcome \<times> 'w"
  env_CtxFirst :: "'w \<Rightarrow> bool"
  env_MapOrder :: "smap \<Rightarrow> 'w \<Rightarrow> (string \<times> string) list"
  env_Now :: "'w \<Rightarrow> int"
  env_Sleep :: "int \<Rightarrow> 'w \<Rightarrow> 'w"
  env_Backoff :: "nat \<Rightarrow> 'w \<Rightarrow> int"
  env_IsMountPoint :: "string \<Rightarrow> 'w \<Rightarrow> bool res option \<times> 'w"
  env_Mount :: "string \<Rightarrow> string \<Rightarrow> string \<Rightarrow> string list \<Rightarrow> 'w \<Rightarrow> unit res \<times> 'w"
  env_MountNFS :: "string \<Rightarrow> string \<Rightarrow> string list \<Rightarrow> 'w \<Rightarrow> unit res option \<times> 'w"
  env_MountRunning :: "string \<Rightarrow> 'w \<Rightarrow> bool"
  env_MountWait :: "string \<Rightarrow> 'w \<Rightarrow> unit res option \<times> 'w"
  env_Unmount :: "string \<Rightarrow> 'w \<Rightarrow> unit res \<times> 'w"
  env_MountList :: "'w \<Rightarrow> mount_entry list res \<times> 'w"
  env_Stat :: "string \<Rightarrow> 'w \<Rightarrow> file_info res \<times> 'w"
  env_StatTimed :: "string \<Rightarrow> 'w \<Rightarrow> file_info res option \<times> 'w"
  env_Lstat :: "string \<Rightarrow> 'w \<Rightarrow> file_info res \<times> 'w"
  env_StatfsTimed :: "string \<Rightarrow> 'w \<Rightarrow> statfs_info res option \<times> 'w"
  env_ProbeRunning :: "string \<Rightarrow> 'w \<Rightarrow> bool"
  env_ProbeWait :: "string \<Rightarrow> 'w \<Rightarrow> (file_info res \<times> statfs_info res option) option \<times> 'w"
  env_BlockSize :: "string \<Rightarrow> 'w \<Rightarrow> (go_error + int res) \<times> 'w"
  env_Rdev :: "string \<Rightarrow> 'w \<Rightarrow> int res \<times> 'w"
  env_Minor :: "int \<Rightarrow> int"
  env_OpenFile :: "string \<Rightarrow> 'w \<Rightarrow> unit res \<times> 'w"
  env_IoctlGetInt :: "string \<Rightarrow> int \<Rightarrow> 'w \<Rightarrow> int res \<times> 'w"
  env_MkdirAll :: "string \<Rightarrow> 'w \<Rightarrow> unit res \<times> 'w"
  env_MkdirTemp :: "string \<Rightarrow> string \<Rightarrow> 'w \<Rightarrow> string res \<times> 'w"
  env_CreateExcl :: "string \<Rightarrow> 'w \<Rightarrow> unit res \<times> 'w"
  env_CloseFile :: "string \<Rightarrow> 'w \<Rightarrow> unit res \<times> 'w"
  env_Chmod :: "string \<Rightarrow> 'w \<Rightarrow> unit res \<times> 'w"
  env_Remove :: "string \<Rightarrow> 'w \<Rightarrow> unit res \<times> 'w"
  env_RemoveAll :: "string \<Rightarrow> 'w \<Rightarrow> unit res \<times> 'w"
  env_EvalSymlinks :: "string \<Rightarrow> 'w \<Rightarrow> string res \<times> 'w"
  env_ReadDir :: "string \<Rightarrow> 'w \<Rightarrow> string list res \<times> 'w"
  env_LookupIP :: "string \<Rightarrow> 'w \<Rightarrow> string list res \<times> 'w"
  env_ParseIP :: "string \<Rightarrow> nat list option"
  env_IsIPv4 :: "nat list \<Rightarrow> bool"
  env_ContainsString :: "string list \<Rightarrow> string \<Rightarrow> bool"
  env_Sha256Hex :: "string \<Rightarrow> string"
  env_NewUUID :: "'w \<Rightarrow> string \<times> 'w"
  env_LockWait :: "string \<Rightarrow> 'w \<Rightarrow> bool \<times> 'w"
  env_SlotWait :: "'w \<Rightarrow> bool \<times> 'w"
  env_CtxErr :: "'w \<Rightarrow> bool"
  env_Freezer :: bool
  env_FreezerNamespace :: string
  env_KubePVs :: "'w \<Rightarrow> kube_pv list res \<times> 'w"
  env_KubePods :: "string \<Rightarrow> 'w \<Rightarrow> kube_pod list res \<times> 'w"
  env_KubeCsiNodePods :: "string \<Rightarrow> 'w \<Rightarrow> kube_pod list res \<times> 'w"
  env_KubeExec :: "string \<Rightarrow> string \<Rightarrow> string \<Rightarrow> string list \<Rightarrow> 'w \<Rightarrow> unit res \<times> 'w"

section \<open>The driver's state\<close>

datatype cache_data =
    CInt int | CStrings "string list" | CObjectives "ClusterObjectiveResponse list"
  | CPortals "DataPortal list" | CCluster Cluster

record cacheValue =
  cv_value :: cache_data
  cv_expiration :: int

text \<open>One outside call, as the history records it. An \<open>Ev_Query\<close> changes nothing outside.\<close>

datatype event =
    Ev_Http string string
  | Ev_Exec string "string list"
  | Ev_Mount string string string "string list"
  | Ev_Unmount string
  | Ev_Mkdir string
  | Ev_Chmod string
  | Ev_Create string
  | Ev_Remove string
  | Ev_RemoveAll string
  | Ev_Sleep int
  | Ev_Freeze string string
  | Ev_Query string string

fun is_freeze :: "event \<Rightarrow> bool" where
  "is_freeze (Ev_Freeze op p) = True"
| "is_freeze _ = False"

record 'w drv =
  d_cache :: "string \<rightharpoonup> cacheValue"
  d_fipIndices :: "string \<rightharpoonup> 32 word"
  d_volumeLocks :: "string set"
  d_snapshotLocks :: "string set"
  d_mountRefs :: "string \<rightharpoonup> int"
  d_mountLocks :: "string set"
  d_mountSlots :: nat
  d_snapshots :: "string \<rightharpoonup> Snapshot"
  d_inFlight :: "string set"
  d_probes :: "string set"
  d_panic :: "string option"
  d_trace :: "event list"
  d_world :: 'w

type_synonym ('w, 'a) go = "('w drv, 'a) state"

definition init_drv :: "'w \<Rightarrow> 'w drv" where
  "init_drv w =
     \<lparr>d_cache = Map.empty, d_fipIndices = Map.empty, d_volumeLocks = {}, d_snapshotLocks = {},
      d_mountRefs = Map.empty, d_mountLocks = {}, d_mountSlots = 0, d_snapshots = Map.empty, d_inFlight = {},
      d_probes = {}, d_panic = None, d_trace = [], d_world = w\<rparr>"

section \<open>Outside calls\<close>

definition call :: "event \<Rightarrow> ('w \<Rightarrow> 'a \<times> 'w) \<Rightarrow> ('w, 'a) go" where
  "call ev f = State (\<lambda>s. case f (d_world s) of
     (r, w) \<Rightarrow> (r, s\<lparr>d_world := w, d_trace := ev # d_trace s\<rparr>))"

lemma run_call: "run_state (call ev f) s =
    (fst (f (d_world s)),
     s\<lparr>d_world := snd (f (d_world s)), d_trace := ev # d_trace s\<rparr>)"
  by (simp add: call_def split: prod.splits)

lemma wp_call [wp_rules]: "wp (call ev f) Q s =
    Q (fst (f (d_world s))) (s\<lparr>d_world := snd (f (d_world s)), d_trace := ev # d_trace s\<rparr>)"
  by (simp add: wp_iff run_call)

definition now :: "'w env \<Rightarrow> ('w, int) go" where
  "now E = gets (\<lambda>s. env_Now E (d_world s))"

definition ctx_err :: "'w env \<Rightarrow> ('w, bool) go" where
  "ctx_err E = gets (\<lambda>s. env_CtxErr E (d_world s))"

definition Sleep :: "'w env \<Rightarrow> int \<Rightarrow> ('w, unit) go" where
  "Sleep E d = call (Ev_Sleep d) (\<lambda>w. ((), env_Sleep E d w))"

text \<open>
  A run-time panic (an index out of range, a nil dereference) ends the process: the first one
  is recorded, and whatever the model computes after it is not meaningful.
\<close>

definition go_panic :: "string \<Rightarrow> ('w, 'a res) go" where
  "go_panic m = State (\<lambda>s. (Inl (new_error m),
     s\<lparr>d_panic := (case d_panic s of None \<Rightarrow> Some m | Some p \<Rightarrow> Some p)\<rparr>))"

lemma wp_now [wp_rules]: "wp (now E) Q s = Q (env_Now E (d_world s)) s"
  by (simp add: now_def wp_rules)

lemma wp_ctx_err [wp_rules]: "wp (ctx_err E) Q s = Q (env_CtxErr E (d_world s)) s"
  by (simp add: ctx_err_def wp_rules)

section \<open>What an outside call leaves alone\<close>

text \<open>
  Relations between the state before and after an operation: the locks are the same, the mount
  references are the same, and so on. An operation is \<open>quiet\<close> when it touches none of the
  driver's coordination state and only extends the history; all operations on the host and on
  the Hammerspace service are quiet.
\<close>

definition same_locks :: "'w drv \<Rightarrow> 'w drv \<Rightarrow> bool" where
  "same_locks s s' \<longleftrightarrow> d_volumeLocks s' = d_volumeLocks s \<and> d_snapshotLocks s' = d_snapshotLocks s \<and>
     d_mountLocks s' = d_mountLocks s"

text \<open>The reference counts are positive: a count that drops to zero leaves the map.\<close>

definition refs_ok :: "'w drv \<Rightarrow> bool" where
  "refs_ok s \<longleftrightarrow> (\<forall>k n. d_mountRefs s k = Some n \<longrightarrow> n > 0)"

definition same_refs :: "'w drv \<Rightarrow> 'w drv \<Rightarrow> bool" where
  "same_refs s s' \<longleftrightarrow> (refs_ok s \<longrightarrow> d_mountRefs s' = d_mountRefs s)"

definition same_slots :: "'w drv \<Rightarrow> 'w drv \<Rightarrow> bool" where
  "same_slots s s' \<longleftrightarrow> d_mountSlots s' = d_mountSlots s"

definition same_snapshots :: "'w drv \<Rightarrow> 'w drv \<Rightarrow> bool" where
  "same_snapshots s s' \<longleftrightarrow> d_snapshots s' = d_snapshots s"

text \<open>The history grew, by no freezing or unfreezing of a file system.\<close>

definition extends_trace :: "'w drv \<Rightarrow> 'w drv \<Rightarrow> bool" where
  "extends_trace s s' \<longleftrightarrow> (\<exists>evs. d_trace s' = evs @ d_trace s \<and> (\<forall>ev \<in> set evs. \<not> is_freeze ev))"

lemma extends_trace_refl [simp]: "d_trace s' = d_trace s \<Longrightarrow> extends_trace s s'"
  unfolding extends_trace_def by (rule exI [of _ "[]"]) simp

lemma extends_trace_one [simp]: "d_trace s' = ev # d_trace s \<Longrightarrow> \<not> is_freeze ev \<Longrightarrow> extends_trace s s'"
  unfolding extends_trace_def by (rule exI [of _ "[ev]"]) simp

lemma extends_trace_trans: "extends_trace s t \<Longrightarrow> extends_trace t u \<Longrightarrow> extends_trace s u"
  unfolding extends_trace_def by (metis UnE append.assoc set_append)

definition quiet :: "'w drv \<Rightarrow> 'w drv \<Rightarrow> bool" where
  "quiet s s' \<longleftrightarrow> same_locks s s' \<and> same_refs s s' \<and> same_slots s s' \<and> same_snapshots s s' \<and>
     extends_trace s s'"

lemmas frame_defs = same_locks_def same_refs_def same_slots_def same_snapshots_def quiet_def

interpretation locks: state_frame same_locks
  by unfold_locales (auto simp: same_locks_def)

interpretation refs: state_frame same_refs
  by unfold_locales (auto simp: same_refs_def refs_ok_def)

interpretation slots: state_frame same_slots
  by unfold_locales (auto simp: same_slots_def)

interpretation snaps: state_frame same_snapshots
  by unfold_locales (auto simp: same_snapshots_def)

interpretation tr: state_frame extends_trace
  by unfold_locales (auto intro: extends_trace_trans)

interpretation q: state_frame quiet
  by unfold_locales (auto simp: frame_defs refs_ok_def intro: extends_trace_trans)

lemma quiet_keeps:
  "state_io_rel quiet m \<Longrightarrow> state_io_rel same_locks m"
  "state_io_rel quiet m \<Longrightarrow> state_io_rel same_refs m"
  "state_io_rel quiet m \<Longrightarrow> state_io_rel same_slots m"
  "state_io_rel quiet m \<Longrightarrow> state_io_rel same_snapshots m"
  "state_io_rel quiet m \<Longrightarrow> state_io_rel extends_trace m"
  by (auto simp: state_io_rel_def quiet_def)

text \<open>A state update that leaves the coordination state and the history alone.\<close>

lemma quiet_State:
  assumes "\<And>s. quiet s (snd (f s))"
  shows "state_io_rel quiet (State f)"
proof
  fix a s s'
  assume "run_state (State f) s = (a, s')"
  then show "quiet s s'" using assms [of s] by simp
qed

lemma call_quiet_event: "\<not> is_freeze ev \<Longrightarrow> state_io_rel quiet (call ev f)"
  unfolding call_def by (rule quiet_State) (auto simp: frame_defs split: prod.splits)

lemma call_quiet:
  "state_io_rel quiet (call (Ev_Http a b) f)"
  "state_io_rel quiet (call (Ev_Exec a l) f)"
  "state_io_rel quiet (call (Ev_Mount a b c l) f)"
  "state_io_rel quiet (call (Ev_Unmount a) f)"
  "state_io_rel quiet (call (Ev_Mkdir a) f)"
  "state_io_rel quiet (call (Ev_Chmod a) f)"
  "state_io_rel quiet (call (Ev_Create a) f)"
  "state_io_rel quiet (call (Ev_Remove a) f)"
  "state_io_rel quiet (call (Ev_RemoveAll a) f)"
  "state_io_rel quiet (call (Ev_Sleep d) f)"
  "state_io_rel quiet (call (Ev_Query a b) f)"
  by (rule call_quiet_event, simp)+

lemma panic_quiet: "state_io_rel quiet (go_panic m)"
  unfolding go_panic_def by (rule quiet_State) (auto simp: frame_defs)

lemma now_quiet: "state_io_rel quiet (now E)"
  unfolding now_def by (rule q.keep_gets)

lemma ctx_err_quiet: "state_io_rel quiet (ctx_err E)"
  unfolding ctx_err_def by (rule q.keep_gets)

lemma Sleep_quiet: "state_io_rel quiet (Sleep E d)"
  unfolding Sleep_def by (rule call_quiet)

lemmas outside_quiet [frame_intros] = call_quiet panic_quiet now_quiet ctx_err_quiet Sleep_quiet

lemmas outside_keeps [frame_intros] =
  outside_quiet [THEN quiet_keeps(1)] outside_quiet [THEN quiet_keeps(2)]
  outside_quiet [THEN quiet_keeps(3)] outside_quiet [THEN quiet_keeps(4)]
  outside_quiet [THEN quiet_keeps(5)]

section \<open>What an operation adds to the history\<close>

text \<open>The history grew, by events that all satisfy \<open>P\<close>.\<close>

definition adds :: "(event \<Rightarrow> bool) \<Rightarrow> 'w drv \<Rightarrow> 'w drv \<Rightarrow> bool" where
  "adds P s s' \<longleftrightarrow> (\<exists>evs. d_trace s' = evs @ d_trace s \<and> list_all P evs)"

lemma adds_refl [simp]: "d_trace s' = d_trace s \<Longrightarrow> adds P s s'"
  unfolding adds_def by (rule exI [of _ "[]"]) simp

lemma adds_one [simp]: "d_trace s' = ev # d_trace s \<Longrightarrow> P ev \<Longrightarrow> adds P s s'"
  unfolding adds_def by (rule exI [of _ "[ev]"]) simp

lemma adds_trans: "adds P s t \<Longrightarrow> adds P t u \<Longrightarrow> adds P s u"
  unfolding adds_def by (metis append.assoc list_all_append)

interpretation ad: state_frame "adds P" for P
  by unfold_locales (auto intro: adds_trans)

lemma adds_State:
  assumes "\<And>s. d_trace (snd (f s)) = d_trace s"
  shows "state_io_rel (adds P) (State f)"
proof
  fix a s s'
  assume "run_state (State f) s = (a, s')"
  then show "adds P s s'" using assms [of s] by simp
qed

lemma adds_call: "P ev \<Longrightarrow> state_io_rel (adds P) (call ev f)"
proof
  fix a s s'
  assume "P ev" and "run_state (call ev f) s = (a, s')"
  then show "adds P s s'" by (auto simp: run_call)
qed

lemma adds_weaken: "state_io_rel (adds P) m \<Longrightarrow> (\<And>ev. P ev \<Longrightarrow> Q ev) \<Longrightarrow> state_io_rel (adds Q) m"
  unfolding state_io_rel_def adds_def list_all_iff by blast

lemma adds_outside [frame_intros]:
  "state_io_rel (adds P) (go_panic m)"
  "state_io_rel (adds P) (now E)"
  "state_io_rel (adds P) (ctx_err E)"
  unfolding go_panic_def now_def ctx_err_def by (rule adds_State, simp)+

end
