(* ===== verification/Cache.thy ===== *)
theory Cache
  imports Driver_State
begin

text \<open>
  The process-wide expiring cache (\<open>pkg/common/hs_cache.go\<close>, \<open>pkg/common/utils.go\<close>) and the
  round-robin order of portal addresses.

  The interface \<open>ttl_cache\<close> states what the clients of a cache rely on; the lemma proved in it
  is the refinement: after any history of timed operations a read returns exactly what the
  history's last write to that key says, if that write has not expired.
\<close>

section \<open>The cache\<close>

type_synonym cache = "string \<rightharpoonup> cacheValue"

definition Cache_Set :: "int \<Rightarrow> string \<Rightarrow> cache_data \<Rightarrow> int \<Rightarrow> cache \<Rightarrow> cache" where
  "Cache_Set t k v ttl c = c(k \<mapsto> \<lparr>cv_value = v, cv_expiration = t + ttl\<rparr>)"

definition Cache_Get :: "int \<Rightarrow> string \<Rightarrow> cache \<Rightarrow> cache_data option \<times> cache" where
  "Cache_Get t k c =
     (case c k of
        None \<Rightarrow> (None, c(k := None))
      | Some e \<Rightarrow> if t > cv_expiration e then (None, c(k := None)) else (Some (cv_value e), c))"

definition GetCacheData :: "'w env \<Rightarrow> string \<Rightarrow> ('w, cache_data option) go" where
  "GetCacheData E k = State (\<lambda>s.
     case Cache_Get (env_Now E (d_world s)) k (d_cache s) of
       (r, c) \<Rightarrow> (r, s\<lparr>d_cache := c\<rparr>))"

definition cache_ttl :: "int \<Rightarrow> int" where
  "cache_ttl cacheExpireTime =
     int64 ((if cacheExpireTime = 0 then 60 else cacheExpireTime) * second)"

definition SetCacheData :: "'w env \<Rightarrow> string \<Rightarrow> cache_data \<Rightarrow> int \<Rightarrow> ('w, unit) go" where
  "SetCacheData E k v cacheExpireTime = modify (\<lambda>s.
     s\<lparr>d_cache := Cache_Set (env_Now E (d_world s)) k v (cache_ttl cacheExpireTime) (d_cache s)\<rparr>)"

section \<open>The interface of an expiring cache\<close>

datatype 'v cache_op = Op_Set int string 'v int | Op_Get int string

fun op_time :: "'v cache_op \<Rightarrow> int" where
  "op_time (Op_Set t k v ttl) = t"
| "op_time (Op_Get t k) = t"

text \<open>The abstract cache: the last write to a key, and when it stops being valid.\<close>

fun last_write :: "string \<Rightarrow> 'v cache_op list \<Rightarrow> ('v \<times> int) option" where
  "last_write k [] = None"
| "last_write k (Op_Set t k' v ttl # ops) =
     (case last_write k ops of
        Some w \<Rightarrow> Some w
      | None \<Rightarrow> if k' = k then Some (v, t + ttl) else None)"
| "last_write k (Op_Get t k' # ops) = last_write k ops"

definition valid_at :: "int \<Rightarrow> ('v \<times> int) option \<Rightarrow> 'v option" where
  "valid_at t w = (case w of Some (v, e) \<Rightarrow> if t \<le> e then Some v else None | None \<Rightarrow> None)"

locale ttl_cache =
  fixes empty :: 'c
    and get :: "int \<Rightarrow> string \<Rightarrow> 'c \<Rightarrow> 'v option \<times> 'c"
    and set_at :: "int \<Rightarrow> string \<Rightarrow> 'v \<Rightarrow> int \<Rightarrow> 'c \<Rightarrow> 'c"
  assumes get_empty: "fst (get t k empty) = None"
    and get_set: "fst (get t k (set_at t0 k' v ttl c)) =
      (if k = k' then (if t \<le> t0 + ttl then Some v else None) else fst (get t k c))"
    and get_get: "t0 \<le> t \<Longrightarrow> fst (get t k (snd (get t0 k' c))) = fst (get t k c)"
begin

fun run_op :: "'v cache_op \<Rightarrow> 'c \<Rightarrow> 'c" where
  "run_op (Op_Set t k v ttl) c = set_at t k v ttl c"
| "run_op (Op_Get t k) c = snd (get t k c)"

lemma get_after_history:
  assumes "\<forall>p \<in> set ops. op_time p \<le> t"
  shows "fst (get t k (fold run_op ops c)) =
    (case last_write k ops of Some w \<Rightarrow> valid_at t (Some w) | None \<Rightarrow> fst (get t k c))"
  using assms
proof (induction ops arbitrary: c)
  case Nil
  then show ?case by simp
next
  case (Cons p ops)
  then show ?case
    by (cases p) (auto simp: get_set get_get valid_at_def split: option.splits)
qed

lemma get_refines:
  assumes "\<forall>p \<in> set ops. op_time p \<le> t"
  shows "fst (get t k (fold run_op ops empty)) = valid_at t (last_write k ops)"
  using get_after_history [OF assms, of k empty]
  by (simp add: get_empty valid_at_def split: option.splits)

end

fun run_cache_op :: "cache_data cache_op \<Rightarrow> cache \<Rightarrow> cache" where
  "run_cache_op (Op_Set t k v ttl) c = Cache_Set t k v ttl c"
| "run_cache_op (Op_Get t k) c = snd (Cache_Get t k c)"

interpretation hs_cache: ttl_cache Map.empty Cache_Get Cache_Set
  by unfold_locales
    (auto simp: Cache_Get_def Cache_Set_def split: option.splits)

lemma run_cache_op_eq: "run_cache_op = hs_cache.run_op"
proof (rule ext, rule ext)
  fix p :: "cache_data cache_op" and c :: cache
  show "run_cache_op p c = hs_cache.run_op p c" by (cases p) simp_all
qed

lemma cache_ttl_default [simp]: "cache_ttl 0 = 60 * second"
  by (simp add: cache_ttl_def second_def int64_in_range MinInt64_def MaxInt64_def)

lemma cache_ttl_exact:
  assumes "n \<noteq> 0" and "- 9223372036 \<le> n" and "n \<le> 9223372036"
  shows "cache_ttl n = n * second"
  using assms by (simp add: cache_ttl_def second_def int64_in_range MinInt64_def MaxInt64_def)

section \<open>Cached reads\<close>

text \<open>
  The read-through idiom of the driver: answer from the cache when the entry decodes, otherwise
  fetch. The decoder is the Go type assertion on the cached value.
\<close>

definition cached_or :: "'w env \<Rightarrow> string \<Rightarrow> (cache_data \<Rightarrow> 'a option) \<Rightarrow> ('w, 'a res) go
    \<Rightarrow> ('w, 'a res) go" where
  "cached_or E k dec fetch = do {
     c \<leftarrow> GetCacheData E k;
     (case c of
        None \<Rightarrow> fetch
      | Some v \<Rightarrow> (case dec v of Some a \<Rightarrow> ok a | None \<Rightarrow> fetch))
   }"

lemma wp_GetCacheData [wp_rules]: "wp (GetCacheData E k) Q s =
    Q (fst (Cache_Get (env_Now E (d_world s)) k (d_cache s)))
      (s\<lparr>d_cache := snd (Cache_Get (env_Now E (d_world s)) k (d_cache s))\<rparr>)"
  by (simp add: GetCacheData_def wp_rules split: prod.splits)

lemma wp_SetCacheData [wp_rules]: "wp (SetCacheData E k v n) Q s =
    Q () (s\<lparr>d_cache := Cache_Set (env_Now E (d_world s)) k v (cache_ttl n) (d_cache s)\<rparr>)"
  by (simp add: SetCacheData_def wp_rules)

section \<open>Round-robin order\<close>

text \<open>
  \<open>atomic.AddUint32\<close> wraps at the 32-bit width; the list starts at the new value modulo the
  length. An empty list leaves the index alone.
\<close>

definition GetRoundRobinOrderedList :: "32 word \<Rightarrow> string list \<Rightarrow> 32 word \<times> string list" where
  "GetRoundRobinOrderedList index list =
     (let count = length list
      in if count = 0 then (index, [])
         else let index' = index + 1; start = unat index' mod count
              in (index', map (\<lambda>i. list ! ((start + i) mod count)) [0..<count]))"

lemma round_robin_rotate:
  "xs \<noteq> [] \<Longrightarrow> GetRoundRobinOrderedList i xs = (i + 1, rotate (unat (i + 1) mod length xs) xs)"
  unfolding GetRoundRobinOrderedList_def Let_def by (simp add: map_nth_mod_rotate)

lemma round_robin_set: "set (snd (GetRoundRobinOrderedList i xs)) = set xs"
proof (cases "xs = []")
  case True
  then show ?thesis by (simp add: GetRoundRobinOrderedList_def)
next
  case False
  then show ?thesis by (simp add: round_robin_rotate)
qed

text \<open>The driver keeps one index per key (\<open>fipIndices\<close> under its mutex).\<close>

definition round_robin :: "string \<Rightarrow> string list \<Rightarrow> ('w, string list) go" where
  "round_robin key list = State (\<lambda>s.
     let i = (case d_fipIndices s key of None \<Rightarrow> 0 | Some i \<Rightarrow> i)
     in case GetRoundRobinOrderedList i list of
          (i', l) \<Rightarrow> (l, s\<lparr>d_fipIndices := (d_fipIndices s)(key \<mapsto> i')\<rparr>))"

section \<open>Frames\<close>

lemma Cache_data_quiet:
  "state_io_rel quiet (GetCacheData E k)"
  "state_io_rel quiet (SetCacheData E k v n)"
  "state_io_rel quiet (round_robin k l)"
  unfolding GetCacheData_def SetCacheData_def round_robin_def
  by (rule quiet_State, auto simp: frame_defs Let_def split: prod.splits)+

lemma cached_or_quiet: "state_io_rel quiet fetch \<Longrightarrow> state_io_rel quiet (cached_or E k dec fetch)"
  unfolding cached_or_def by (intro frame_intros Cache_data_quiet)

lemmas cache_quiet [frame_intros] = Cache_data_quiet cached_or_quiet

lemmas cache_keeps [frame_intros] =
  Cache_data_quiet [THEN quiet_keeps(1)] Cache_data_quiet [THEN quiet_keeps(2)]
  Cache_data_quiet [THEN quiet_keeps(3)] Cache_data_quiet [THEN quiet_keeps(4)]
  Cache_data_quiet [THEN quiet_keeps(5)]

section \<open>Properties\<close>

text \<open>C16. The cache refines its history: after any sequence of timed writes and reads, none
  later than \<open>t\<close>, a read of \<open>k\<close> at time \<open>t\<close> returns the value of the last write to \<open>k\<close> when that
  write has not expired by \<open>t\<close>, and nothing otherwise. Evicting an expired entry on a read is
  never visible.\<close>

theorem cache_refines_history:
  assumes "\<forall>p \<in> set ops. op_time p \<le> t"
  shows "fst (Cache_Get t k (fold run_cache_op ops Map.empty)) = valid_at t (last_write k ops)"
  unfolding run_cache_op_eq using assms by (rule hs_cache.get_refines)

theorem cache_refines_history_witness:
  "fst (Cache_Get 5 ''a'' (fold run_cache_op
     [Op_Set 0 ''a'' (CInt 1) 3, Op_Get 1 ''a'', Op_Set 2 ''a'' (CInt 2) 4] Map.empty))
   = Some (CInt 2)"
proof -
  let ?ops = "[Op_Set 0 ''a'' (CInt 1) 3, Op_Get 1 ''a'', Op_Set 2 ''a'' (CInt 2) 4]"
  have "\<forall>p \<in> set ?ops. op_time p \<le> 5" by simp
  from cache_refines_history [OF this, of "''a''"] show ?thesis
    by (simp add: valid_at_def)
qed

text \<open>The address tried first, over successive calls with the same key.\<close>

fun rr_heads :: "nat \<Rightarrow> 32 word \<Rightarrow> string list \<Rightarrow> string list" where
  "rr_heads 0 i xs = []"
| "rr_heads (Suc n) i xs =
     (case GetRoundRobinOrderedList i xs of (i', l) \<Rightarrow> hd l # rr_heads n i' xs)"

lemma rr_heads_nth:
  assumes "xs \<noteq> []" and "unat i + n < 2 ^ 32"
  shows "rr_heads n i xs = map (\<lambda>j. xs ! ((unat i + 1 + j) mod length xs)) [0..<n]"
  using assms(2)
proof (induction n arbitrary: i)
  case 0
  then show ?case by simp
next
  case (Suc n)
  have u: "unat (i + 1) = unat i + 1"
    using Suc.prems by (simp add: unat_word_ariths)
  have IH: "rr_heads n (i + 1) xs = map (\<lambda>j. xs ! ((unat (i + 1) + 1 + j) mod length xs)) [0..<n]"
    using Suc.prems u by (intro Suc.IH) simp
  show ?case using assms(1) IH u
    by (simp add: round_robin_rotate hd_rotate_conv_nth map_upt_Suc del: upt_Suc)
qed

text \<open>The round robin is fair: as many successive calls as there are addresses put each address
  first exactly once, as long as the 32-bit counter does not wrap in between.\<close>

theorem round_robin_fair:
  assumes "xs \<noteq> []" and "unat i + length xs < 2 ^ 32"
  shows "mset (rr_heads (length xs) i xs) = mset xs"
proof -
  let ?n = "length xs" and ?k = "(unat i + 1) mod length xs"
  have "rr_heads ?n i xs = map (\<lambda>j. xs ! ((?k + j) mod ?n)) [0..<?n]"
    using assms by (simp add: rr_heads_nth mod_add_left_eq)
  also have "\<dots> = rotate ?k xs" using assms by (intro map_nth_mod_rotate) simp
  finally have "mset (rr_heads ?n i xs) = mset (rotate ?k xs)" by simp
  then show ?thesis by (simp add: mset_rotate)
qed

theorem round_robin_fair_witness:
  "mset (rr_heads 3 7 [''10.0.0.1'', ''10.0.0.2'', ''10.0.0.3'']) =
     {#''10.0.0.1'', ''10.0.0.2'', ''10.0.0.3''#}"
  using round_robin_fair [of "[''10.0.0.1'', ''10.0.0.2'', ''10.0.0.3'']" 7]
  by (simp add: numeral_3_eq_3)

end
