(* ===== verification/Sample_Env.thy ===== *)
theory Sample_Env
  imports Driver_State
begin

text \<open>
  A concrete environment, on which statements with hypotheses about the outside world are
  instantiated. Its world is the clock; the service knows no share and no file, commands succeed
  with empty output, nothing is mounted, and every lock is free.
\<close>

definition sample_env :: "int env" where
  "sample_env =
     \<lparr>env_Endpoint = ''https://anvil'', env_Credentials = (''admin'', ''secret''), env_NodeID = ''node-1'',
      env_Version = ''v1'', env_Githash = ''abc'', env_CsiVersion = ''1'',
      env_DataPortalMountPrefix = [], env_MountCheckTimeout = 30 * second, env_MaxRetries = 5,
      env_RetryInterval = second, env_MountSlots = Some 10, env_Getenv = (\<lambda>_. []),
      env_NewRequestErr = (\<lambda>_. None),
      env_Http = (\<lambda>rq w. (Inr \<lparr>rs_Status = 404, rs_Body = [], rs_Location = None, rs_ReadErr = None\<rparr>, w)),
      env_TaskPath = (\<lambda>p. Some p),
      env_DecShares = (\<lambda>_. ([], None)),
      env_DecShare = (\<lambda>_. (\<lparr>sh_Name = [], sh_ExportPath = [], sh_ExtendedInfo = Map.empty,
         sh_ShareState = [], sh_Size = 0, sh_SpaceAvailable = 0\<rparr>, None)),
      env_DecRaw = (\<lambda>_. (Some Map.empty, None)),
      env_DecFile = (\<lambda>_. (\<lparr>fl_Name = [], fl_Path = [], fl_Size = 0, fl_Children = []\<rparr>, None)),
      env_DecTask = (\<lambda>_ t. (t\<lparr>tk_Status := ''COMPLETED''\<rparr>, None)),
      env_DecTasks = (\<lambda>_. ([], None)),
      env_DecObjectives = (\<lambda>_. ([], None)), env_DecVolumes = (\<lambda>_. ([], None)),
      env_DecStrings = (\<lambda>_. ([], None)), env_DecFileSnapshots = (\<lambda>_. ([], None)),
      env_DecPortals = (\<lambda>_. ([], None)), 
      env_DecCluster = (\<lambda>_. (\<lparr>cl_Name = ''c'', cl_PortalFloatingIps = [], cl_MgmtIps = []\<rparr>, None)),
      env_DecCapacity = (\<lambda>_. ([''free'' \<mapsto> 1000], None)),
      env_EncShare = (\<lambda>_. []), env_EncRaw = (\<lambda>_. []),
      env_Exec = (\<lambda>c a w. (Exec_Output [], w)), env_CtxFirst = (\<lambda>_. False),
      env_MapOrder = (\<lambda>_ _. []), env_Now = (\<lambda>w. w), env_Sleep = (\<lambda>d w. w + max 0 d),
      env_Backoff = (\<lambda>_ _. second), env_IsMountPoint = (\<lambda>p w. (Some (Inr False), w)),
      env_Mount = (\<lambda>a b c d w. (Inr (), w)), env_MountNFS = (\<lambda>a b c w. (Some (Inr ()), w)),
      env_MountRunning = (\<lambda>_ _. False), env_MountWait = (\<lambda>_ w. (None, w)),
      env_Unmount = (\<lambda>_ w. (Inr (), w)), env_MountList = (\<lambda>w. (Inr [], w)),
      env_Stat = (\<lambda>_ w. (Inl (new_error []), w)), env_StatTimed = (\<lambda>_ w. (None, w)),
      env_Lstat = (\<lambda>_ w. (Inl (new_error []), w)), env_StatfsTimed = (\<lambda>_ w. (None, w)),
      env_ProbeRunning = (\<lambda>_ _. False), env_ProbeWait = (\<lambda>_ w. (None, w)),
      env_BlockSize = (\<lambda>_ w. (Inr (Inr 0), w)), env_Rdev = (\<lambda>_ w. (Inr 0, w)),
      env_Minor = (\<lambda>dev. dev mod 256), env_OpenFile = (\<lambda>_ w. (Inr (), w)), env_IoctlGetInt = (\<lambda>_ _ w. (Inr 0, w)),
      env_MkdirAll = (\<lambda>_ w. (Inr (), w)), env_MkdirTemp = (\<lambda>d p w. (Inr (d @ ''/'' @ p), w)),
      env_CreateExcl = (\<lambda>_ w. (Inr (), w)), env_CloseFile = (\<lambda>_ w. (Inr (), w)), env_Chmod = (\<lambda>_ w. (Inr (), w)),
      env_Remove = (\<lambda>_ w. (Inr (), w)), env_RemoveAll = (\<lambda>_ w. (Inr (), w)),
      env_EvalSymlinks = (\<lambda>p w. (Inr p, w)), env_ReadDir = (\<lambda>_ w. (Inr [], w)),
      env_LookupIP = (\<lambda>_ w. (Inr [], w)), env_ParseIP = (\<lambda>_. None), env_IsIPv4 = (\<lambda>_. True),
      env_ContainsString = (\<lambda>l x. x \<in> set l), env_Sha256Hex = (\<lambda>x. x),
      env_NewUUID = (\<lambda>w. (''uuid'', w)), env_LockWait = (\<lambda>_ w. (True, w)),
      env_SlotWait = (\<lambda>w. (True, w)), env_CtxErr = (\<lambda>_. False), env_Freezer = True,
      env_FreezerNamespace = ''kube-system'', env_KubePVs = (\<lambda>w. (Inr [], w)),
      env_KubePods = (\<lambda>_ w. (Inr [], w)), env_KubeCsiNodePods = (\<lambda>_ w. (Inr [], w)),
      env_KubeExec = (\<lambda>a b c d w. (Inr (), w))\<rparr>"

end
