(* ===== verification/Host.thy ===== *)
theory Host
  imports Cache Sample_Env
begin

text \<open>
  The host operations of \<open>pkg/common/host_utils.go\<close>: running commands, mounting and unmounting,
  the raw backing files, loop devices, the file systems inside them, and NFS exports. Commands,
  the mount library and file system calls are the environment's; what the driver does with their
  answers, in which order and with which error codes, is modelled here.

  A command or stat that hangs is an answer of the environment where the code bounds the wait
  with a timeout. The two 300 second timers around \<open>showmount\<close> and \<open>rpcinfo\<close> (the command's own
  and the caller's context) race; the environment says which fires first.
\<close>

section \<open>Commands\<close>

definition execCommandHelper :: "'w env \<Rightarrow> string \<Rightarrow> string list \<Rightarrow> ('w, string res) go" where
  "execCommandHelper E cmd args = do {
     r \<leftarrow> call (Ev_Exec cmd args) (env_Exec E cmd args);
     (case r of
        Exec_StartError e \<Rightarrow> fail e
      | Exec_Timeout \<Rightarrow> fail (new_error ''process killed as timeout reached'')
      | Exec_ExitError e \<Rightarrow> fail e
      | Exec_Output out \<Rightarrow> ok out)
   }"

abbreviation ExecCommand :: "'w env \<Rightarrow> string \<Rightarrow> string list \<Rightarrow> ('w, string res) go" where
  "ExecCommand \<equiv> execCommandHelper"

text \<open>A command whose output only goes to the log.\<close>

definition exec_unit :: "'w env \<Rightarrow> string \<Rightarrow> string list \<Rightarrow> ('w, unit res) go" where
  "exec_unit E cmd args = tryE (ExecCommand E cmd args) id (\<lambda>_. ok ())"

section \<open>Calls of the os and mount packages\<close>

definition os_Stat :: "'w env \<Rightarrow> string \<Rightarrow> ('w, file_info res) go" where
  "os_Stat E p = call (Ev_Query ''stat'' p) (env_Stat E p)"

definition os_MkdirAll :: "'w env \<Rightarrow> string \<Rightarrow> ('w, unit res) go" where
  "os_MkdirAll E p = call (Ev_Mkdir p) (env_MkdirAll E p)"

definition os_CreateExcl :: "'w env \<Rightarrow> string \<Rightarrow> ('w, unit res) go" where
  "os_CreateExcl E p = call (Ev_Create p) (env_CreateExcl E p)"

definition os_Remove :: "'w env \<Rightarrow> string \<Rightarrow> ('w, unit res) go" where
  "os_Remove E p = call (Ev_Remove p) (env_Remove E p)"

definition os_RemoveAll :: "'w env \<Rightarrow> string \<Rightarrow> ('w, unit res) go" where
  "os_RemoveAll E p = call (Ev_RemoveAll p) (env_RemoveAll E p)"

definition os_Chmod :: "'w env \<Rightarrow> string \<Rightarrow> ('w, unit res) go" where
  "os_Chmod E p = call (Ev_Chmod p) (env_Chmod E p)"

definition mounter_Mount :: "'w env \<Rightarrow> string \<Rightarrow> string \<Rightarrow> string \<Rightarrow> string list \<Rightarrow> ('w, unit res) go" where
  "mounter_Mount E src tgt fs flags = call (Ev_Mount src tgt fs flags) (env_Mount E src tgt fs flags)"

definition mounter_Unmount :: "'w env \<Rightarrow> string \<Rightarrow> ('w, unit res) go" where
  "mounter_Unmount E p = call (Ev_Unmount p) (env_Unmount E p)"

definition internal :: "go_error \<Rightarrow> go_error" where
  "internal e = status_error Internal (err_text e)"

section \<open>Mounts\<close>

text \<open>The status of a failed mount: permission, a bad argument, or anything else.\<close>

definition mount_status :: "string \<Rightarrow> go_error \<Rightarrow> go_error" where
  "mount_status bad e =
     (if IsPermission e then status_error PermissionDenied (err_text e)
      else if contains (err_text e) bad then status_error InvalidArgument (err_text e)
      else status_error Internal (err_text e))"

text \<open>Both mount functions create an absent destination file, and its directory, first.\<close>

definition ensure_dest_file :: "'w env \<Rightarrow> string \<Rightarrow> ('w, unit res) go" where
  "ensure_dest_file E destfile = do {
     st \<leftarrow> os_Stat E destfile;
     (case st of
        Inr _ \<Rightarrow> ok ()
      | Inl e \<Rightarrow>
          if IsNotExist e then
            tryE (os_MkdirAll E (path_dir destfile)) internal (\<lambda>_.
            tryE (os_CreateExcl E destfile) internal (\<lambda>_. ok ()))
          else ok ())
   }"

definition MountFilesystem ::
  "'w env \<Rightarrow> string \<Rightarrow> string \<Rightarrow> string \<Rightarrow> string list \<Rightarrow> ('w, unit res) go" where
  "MountFilesystem E sourcefile destfile fsType mountFlags =
     tryE (ensure_dest_file E destfile) id (\<lambda>_.
     tryE (mounter_Mount E sourcefile destfile fsType mountFlags)
       (mount_status ''Invalid argument'') (\<lambda>_. ok ()))"

definition BindMountDevice :: "'w env \<Rightarrow> string \<Rightarrow> string \<Rightarrow> ('w, unit res) go" where
  "BindMountDevice E sourcefile destfile =
     tryE (ensure_dest_file E destfile) id (\<lambda>_.
     tryE (mounter_Mount E sourcefile destfile [] [''bind''])
       (mount_status ''invalid argument'') (\<lambda>_. ok ()))"

definition RemountBindReadOnly :: "'w env \<Rightarrow> string \<Rightarrow> ('w, unit res) go" where
  "RemountBindReadOnly E target = exec_unit E ''mount'' [''-o'', ''remount,bind,ro'', target]"

definition deadline_exceeded :: go_error where
  "deadline_exceeded = (new_error ''context deadline exceeded'')\<lparr>err_errno := Some ErrDeadlineExceeded\<rparr>"

definition SafeIsMountPoint :: "'w env \<Rightarrow> string \<Rightarrow> ('w, bool res) go" where
  "SafeIsMountPoint E p = do {
     r \<leftarrow> call (Ev_Query ''mountpoint'' p) (env_IsMountPoint E p);
     (case r of None \<Rightarrow> fail deadline_exceeded | Some x \<Rightarrow> ret x)
   }"

definition IsShareMounted :: "'w env \<Rightarrow> string \<Rightarrow> ('w, bool) go" where
  "IsShareMounted E targetPath = do {
     r \<leftarrow> SafeIsMountPoint E targetPath;
     ret (case r of Inl _ \<Rightarrow> False | Inr m \<Rightarrow> m)
   }"

text \<open>
  \<open>beginMount\<close> and the wait on the attempt it returns. The mount call runs in its own
  goroutine; \<open>None\<close> is the caller giving up after the mount timeout, with the attempt still in
  flight. A target whose attempt is still running gets no second mount call: the caller waits
  for the first one. An attempt that ended meanwhile has left the registry.
\<close>

definition mount_done :: "string \<Rightarrow> unit res option \<Rightarrow> ('w, unit res option) go" where
  "mount_done target r = State (\<lambda>s. (r,
     if r = None then s else s\<lparr>d_inFlight := d_inFlight s - {target}\<rparr>))"

definition beginMount :: "'w env \<Rightarrow> string \<Rightarrow> string \<Rightarrow> string list \<Rightarrow> ('w, unit res option) go" where
  "beginMount E source target flags = do {
     running \<leftarrow> gets (\<lambda>s. target \<in> d_inFlight s \<and> env_MountRunning E target (d_world s));
     if running then do {
       r \<leftarrow> call (Ev_Query ''mountwait'' target) (env_MountWait E target);
       mount_done target r
     } else do {
       modify (\<lambda>s. s\<lparr>d_inFlight := insert target (d_inFlight s)\<rparr>);
       r \<leftarrow> call (Ev_Mount source target ''nfs'' flags) (env_MountNFS E source target flags);
       mount_done target r
     }
   }"

definition MountShare :: "'w env \<Rightarrow> string \<Rightarrow> string \<Rightarrow> string list \<Rightarrow> ('w, unit res) go" where
  "MountShare E sourcePath targetPath mountFlags = do {
     m \<leftarrow> SafeIsMountPoint E targetPath;
     tryE (case m of
             Inr b \<Rightarrow> ok b
           | Inl e \<Rightarrow>
               if IsNotExist e then tryE (os_MkdirAll E targetPath) internal (\<lambda>_. ok False)
               else fail (internal e))
       id (\<lambda>mounted.
     if mounted then ok ()
     else do {
       att \<leftarrow> beginMount E sourcePath targetPath mountFlags;
       (case att of
          None \<Rightarrow> fail (status_error DeadlineExceeded
            (''mount '' @ sourcePath @ '' -> '' @ targetPath @ '' timed out after '' @
             Duration_String (env_MountCheckTimeout E) @ '' (data portal unreachable?)''))
        | Some (Inl e) \<Rightarrow> fail (mount_status ''invalid argument'' e)
        | Some (Inr _) \<Rightarrow> ok ())
     })
   }"

definition ForceUnmountStale :: "'w env \<Rightarrow> string \<Rightarrow> ('w, unit) go" where
  "ForceUnmountStale E targetPath = do {
     _ \<leftarrow> ExecCommand E ''umount'' [''-f'', ''-l'', targetPath];
     ret ()
   }"

definition ForceUnmountFilesystem :: "'w env \<Rightarrow> string \<Rightarrow> ('w, unit res) go" where
  "ForceUnmountFilesystem E targetPath = do {
     u \<leftarrow> ExecCommand E ''umount'' [''-f'', ''-l'', targetPath];
     r \<leftarrow> os_Remove E targetPath;
     (case r of
        Inr _ \<Rightarrow> ok ()
      | Inl re \<Rightarrow>
          if IsNotExist re then ok ()
          else (case u of
             Inl ue \<Rightarrow> fail (wrap_error (''umount -f -l '' @ targetPath @ '' failed: '' @ err_text ue @
               '' (output: ); removing mount point failed: '' @ err_text re) re)
           | Inr _ \<Rightarrow> fail (wrap_error (''removing force-unmounted path '' @ targetPath @
               '' failed: '' @ err_text re) re)))
   }"

definition UnmountFilesystem :: "'w env \<Rightarrow> string \<Rightarrow> ('w, unit res) go" where
  "UnmountFilesystem E targetPath = do {
     isMounted \<leftarrow> IsShareMounted E targetPath;
     if \<not> isMounted then ok ()
     else tryE (mounter_Unmount E targetPath) internal (\<lambda>_.
          tryE (os_Remove E targetPath) internal (\<lambda>_. ok ()))
   }"

section \<open>Loop devices and backing files\<close>

text \<open>
  The lines of \<open>losetup -a\<close>. The scan indexes the third word of every non-empty line it reaches;
  a shorter line is a run-time panic.
\<close>

datatype scan = Scan_Found string | Scan_None | Scan_Panic

fun scan_losetup :: "string \<Rightarrow> string list \<Rightarrow> scan" where
  "scan_losetup backingfile [] = Scan_None"
| "scan_losetup backingfile (d # ds) =
     (if d = [] then scan_losetup backingfile ds
      else let device = split_on (CHR '' '') d
           in if length device \<le> 2 then Scan_Panic
              else if backingfile = trim_cutset (device ! 2) '':()''
                   then Scan_Found (trim_cutset (device ! 0) '':()'')
                   else scan_losetup backingfile ds)"

definition determineLoopDeviceFromBackingFile :: "'w env \<Rightarrow> string \<Rightarrow> ('w, string res) go" where
  "determineLoopDeviceFromBackingFile E backingfile =
     tryE (ExecCommand E ''losetup'' [''-a''])
       (\<lambda>e. status_error Internal
          (''could not determine loop device for backing file, '' @ err_text e)) (\<lambda>output.
     case scan_losetup backingfile (lines output) of
       Scan_Found d \<Rightarrow> ok d
     | Scan_None \<Rightarrow> fail (status_error Internal ''could not determine loop device for backing file'')
     | Scan_Panic \<Rightarrow> go_panic ''index out of range'')"

fun scan_backing :: "string \<Rightarrow> string list \<Rightarrow> string option" where
  "scan_backing lodevice [] = None"
| "scan_backing lodevice (d # ds) =
     (let device = split_on (CHR '' '') d
      in if d \<noteq> [] \<and> lodevice = trim_cutset (device ! 0) '':()''
         then Some (trim_cutset (last device) '':()'')
         else scan_backing lodevice ds)"

definition determineBackingFileFromLoopDevice :: "'w env \<Rightarrow> string \<Rightarrow> ('w, string res) go" where
  "determineBackingFileFromLoopDevice E lodevice =
     tryE (ExecCommand E ''losetup'' [''-a''])
       (\<lambda>e. status_error Internal
          (''could not determine backing file for loop device, '' @ err_text e)) (\<lambda>output.
     case scan_backing lodevice (lines output) of
       Some f \<Rightarrow> ok f
     | None \<Rightarrow> fail (status_error Internal ''could not determine backing file for loop device''))"

text \<open>The two questions about loop devices. The device number of a file, the decoding of its minor number and the request
  to the loop driver are the kernel's.\<close>

definition GetDeviceMinorNumber :: "'w env \<Rightarrow> string \<Rightarrow> ('w, int res) go" where
  "GetDeviceMinorNumber E device =
     tryE (call (Ev_Query ''rdev'' device) (env_Rdev E device)) id (\<lambda>rdev. ok (env_Minor E (rdev mod 2 ^ 64)))"

definition LOOP_CTL_GET_FREE :: int where "LOOP_CTL_GET_FREE = 0x4C82"

definition EnsureFreeLoopbackDeviceFile :: "'w env \<Rightarrow> ('w, int res) go" where
  "EnsureFreeLoopbackDeviceFile E =
     (let loopControlPath = ''/dev/loop-control'' in
      tryE (call (Ev_Query ''open'' loopControlPath) (env_OpenFile E loopControlPath))
        (\<lambda>e. wrap_error (''could not open '' @ loopControlPath @ '': '' @ err_text e) e) (\<lambda>_.
      tryE (call (Ev_Query ''ioctl'' loopControlPath) (env_IoctlGetInt E loopControlPath LOOP_CTL_GET_FREE))
        (\<lambda>e. wrap_error (''could not get free loop device: '' @ err_text e) e) (\<lambda>dev. ok (dev mod 2 ^ 64))))"

definition MakeEmptyRawFile :: "'w env \<Rightarrow> string \<Rightarrow> int \<Rightarrow> ('w, unit res) go" where
  "MakeEmptyRawFile E pathname sz =
     exec_unit E ''qemu-img'' [''create'', ''-fraw'', pathname, FormatInt sz]"

definition ExpandRawFileSize :: "'w env \<Rightarrow> string \<Rightarrow> int \<Rightarrow> ('w, unit res) go" where
  "ExpandRawFileSize E pathname sz =
     exec_unit E ''qemu-img'' [''resize'', ''-fraw'', pathname, FormatInt sz]"

definition refreshLoopDeviceSize :: "'w env \<Rightarrow> string \<Rightarrow> ('w, unit res) go" where
  "refreshLoopDeviceSize E loopdev = exec_unit E ''losetup'' [''-c'', loopdev]"

definition ExpandDeviceFileSize :: "'w env \<Rightarrow> string \<Rightarrow> int \<Rightarrow> ('w, unit res) go" where
  "ExpandDeviceFileSize E pathname sz =
     tryE (determineLoopDeviceFromBackingFile E pathname) id (\<lambda>loopdev.
     tryE (ExpandRawFileSize E pathname sz) id (\<lambda>_.
     refreshLoopDeviceSize E loopdev))"

section \<open>File systems\<close>

definition ExpandFilesystem :: "'w env \<Rightarrow> string \<Rightarrow> string \<Rightarrow> ('w, unit res) go" where
  "ExpandFilesystem E device fsType =
     exec_unit E (if fsType = ''xfs'' then ''xfs_growfs'' else ''resize2fs'') [device]"

definition ExpandMountedFilesystem :: "'w env \<Rightarrow> string \<Rightarrow> string \<Rightarrow> string \<Rightarrow> ('w, unit res) go" where
  "ExpandMountedFilesystem E targetPath backingFile fsType =
     (if fsType = ''xfs'' then ExpandFilesystem E targetPath fsType
      else tryE (determineLoopDeviceFromBackingFile E backingFile) id (\<lambda>loopdev.
           ExpandFilesystem E loopdev fsType))"

definition ReconcileFilesystemToBackingFile ::
  "'w env \<Rightarrow> string \<Rightarrow> string \<Rightarrow> string \<Rightarrow> ('w, unit res) go" where
  "ReconcileFilesystemToBackingFile E targetPath backingFile fsType =
     tryE (determineLoopDeviceFromBackingFile E backingFile) id (\<lambda>loopdev.
     tryE (refreshLoopDeviceSize E loopdev) id (\<lambda>_.
     if fsType = ''xfs'' then ExpandFilesystem E targetPath fsType
     else ExpandFilesystem E loopdev fsType))"

definition GetFilesystemType :: "'w env \<Rightarrow> string \<Rightarrow> ('w, string res) go" where
  "GetFilesystemType E backingFile =
     tryE (determineLoopDeviceFromBackingFile E backingFile) id (\<lambda>loopDevice. do {
       r \<leftarrow> ExecCommand E ''blkid'' [''-p'', ''-s'', ''TYPE'', ''-o'', ''value'', loopDevice];
       (case r of
          Inl e \<Rightarrow>
            if err_exit e = Some 2 then ok []
            else fail (wrap_error (''could not determine filesystem type on '' @
              go_quote loopDevice @ '': '' @ err_text e) e)
        | Inr out \<Rightarrow> ok (trim_space out))
     })"

definition filesystemGrowthSlack :: int where
  "filesystemGrowthSlack = 16 * 2 ^ 20"

definition ParseInt_error :: "string \<Rightarrow> string" where
  "ParseInt_error s = ''strconv.ParseInt: parsing '' @ go_quote s @ '': invalid syntax''"

fun geometry_values :: "string \<Rightarrow> string \<Rightarrow> char \<Rightarrow> string list \<Rightarrow> (string \<rightharpoonup> int)
    \<Rightarrow> (string \<rightharpoonup> int) res" where
  "geometry_values countKey sizeKey sep [] values = Inr values"
| "geometry_values countKey sizeKey sep (l # ls) values =
     (case cut l sep of
        None \<Rightarrow> geometry_values countKey sizeKey sep ls values
      | Some (k, v) \<Rightarrow>
          let key = trim_space k in
          if key \<noteq> countKey \<and> key \<noteq> sizeKey then geometry_values countKey sizeKey sep ls values
          else (case ParseInt (trim_space v) of
             None \<Rightarrow> Inl (new_error (''parse '' @ key @ '': '' @ ParseInt_error (trim_space v)))
           | Some n \<Rightarrow> geometry_values countKey sizeKey sep ls (values(key \<mapsto> n))))"

definition parseFilesystemGeometry :: "string \<Rightarrow> string \<Rightarrow> (int \<times> int) res" where
  "parseFilesystemGeometry output fsType =
     (let countKey = (if fsType = ''xfs'' then ''dblocks'' else ''Block count'');
          sizeKey = (if fsType = ''xfs'' then ''blocksize'' else ''Block size'');
          sep = (if fsType = ''xfs'' then CHR ''='' else CHR '':'')
      in case geometry_values countKey sizeKey sep (lines output) Map.empty of
           Inl e \<Rightarrow> Inl e
         | Inr values \<Rightarrow>
             (case (values countKey, values sizeKey) of
                (Some n, Some sz) \<Rightarrow>
                  if n \<le> 0 \<or> sz \<le> 0 then
                    Inl (new_error (''invalid filesystem geometry: '' @ countKey @ ''='' @
                      FormatInt n @ '' '' @ sizeKey @ ''='' @ FormatInt sz))
                  else Inr (n, sz)
              | _ \<Rightarrow> Inl (new_error (''superblock output has no '' @ go_quote countKey @ '' and '' @
                  go_quote sizeKey))))"

definition parseFilesystemSize :: "string \<Rightarrow> string \<Rightarrow> int res" where
  "parseFilesystemSize output fsType =
     (case parseFilesystemGeometry output fsType of
        Inl e \<Rightarrow> Inl e
      | Inr (n, sz) \<Rightarrow>
          if n > MaxInt64 div sz then Inl (new_error ''filesystem size overflows int64'')
          else Inr (int64 (n * sz)))"

definition FilesystemNeedsGrowth :: "'w env \<Rightarrow> string \<Rightarrow> string \<Rightarrow> ('w, bool res) go" where
  "FilesystemNeedsGrowth E backingFile fsType =
     tryE (os_Stat E backingFile) id (\<lambda>info.
     tryE (if fsType = ''xfs''
           then ExecCommand E ''xfs_db''
             [''-r'', ''-c'', ''sb 0'', ''-c'', ''print dblocks blocksize'', backingFile]
           else ExecCommand E ''dumpe2fs'' [''-h'', backingFile])
       (\<lambda>e. wrap_error (''read '' @ fsType @ '' superblock of '' @ backingFile @ '': '' @
          err_text e @ '': '') e) (\<lambda>output.
     case parseFilesystemGeometry output fsType of
       Inl e \<Rightarrow> fail (wrap_error (''read '' @ fsType @ '' superblock of '' @ backingFile @ '': '' @
         err_text e) e)
     | Inr (blockCount, blockSize) \<Rightarrow>
         ok (int64 (fi_Size info - int64 (blockCount * blockSize)) > filesystemGrowthSlack)))"

definition format_args :: "string \<Rightarrow> string \<Rightarrow> string list" where
  "format_args device fsType =
     (if fsType = ''xfs'' then [''-m'', ''reflink=0'', ''-K'', device]
      else if fsType = ''ext4'' then [''-E'', ''lazy_itable_init=1,lazy_journal_init=1'', device]
      else [device])"

definition FormatDevice :: "'w env \<Rightarrow> string \<Rightarrow> string \<Rightarrow> ('w, unit res) go" where
  "FormatDevice E device fsType =
     exec_unit E (''mkfs.'' @ fsType) (format_args device fsType)"

section \<open>Files and folders\<close>

definition statWithTimeout :: "'w env \<Rightarrow> string \<Rightarrow> ('w, file_info res) go" where
  "statWithTimeout E path = do {
     r \<leftarrow> call (Ev_Query ''stat'' path) (env_StatTimed E path);
     (case r of None \<Rightarrow> fail (new_error ''os.Stat timed out'') | Some x \<Rightarrow> ret x)
   }"

definition is_export :: "string \<Rightarrow> cache_data option \<Rightarrow> bool" where
  "is_export p c = (case c of Some (CStrings l) \<Rightarrow> p \<in> set l | _ \<Rightarrow> False)"

definition DeleteFile :: "'w env \<Rightarrow> string \<Rightarrow> ('w, unit res) go" where
  "DeleteFile E pathname =
     (if pathname = ''/'' then fail (status_error Internal
        (''Cannot remove path name '' @ [CHR 0x27, CHR ''/'', CHR 0x27, CHR '' '', CHR 0xE2, CHR 0x80, CHR 0x94] @
         '' recheck or try manually.''))
      else do {
        exports \<leftarrow> GetCacheData E ''NFS_EXPORTS'';
        if is_export pathname exports then fail (status_error Internal
          (''Cannot remove export path '' @ [CHR 0xE2, CHR 0x80, CHR 0x94] @ '' recheck or try manually.''))
        else do {
          st \<leftarrow> statWithTimeout E pathname;
          (case st of
             Inl e \<Rightarrow> if IsNotExist e then ok () else fail e
           | Inr _ \<Rightarrow> os_RemoveAll E pathname)
        }
      })"

definition MakeEmptyRawFolder :: "'w env \<Rightarrow> string \<Rightarrow> ('w, unit res) go" where
  "MakeEmptyRawFolder E pathname = do {
     st \<leftarrow> os_Stat E pathname;
     (case st of
        Inr info \<Rightarrow>
          if \<not> fi_IsDir info then fail (status_error Internal ''path exists but is not a directory'')
          else tryE (os_Chmod E pathname) internal (\<lambda>_. ok ())
      | Inl e \<Rightarrow>
          if IsNotExist e then tryE (os_MkdirAll E pathname) internal (\<lambda>_. ok ())
          else fail (internal e))
   }"

text \<open>
  The tags are set in the map's iteration order, which Go leaves open, up to the first failure.
  The result is the error of the first command only.
\<close>

fun set_tags :: "'w env \<Rightarrow> string \<Rightarrow> (string \<times> string) list \<Rightarrow> ('w, unit) go" where
  "set_tags E localPath [] = ret ()"
| "set_tags E localPath ((k, v) # ts) = do {
     r \<leftarrow> ExecCommand E ''hs'' [''-v'', ''tag'', ''set'', ''-e'', v, k, localPath];
     (case r of Inl _ \<Rightarrow> ret () | Inr _ \<Rightarrow> set_tags E localPath ts)
   }"

definition csi_details :: "'w env \<Rightarrow> string" where
  "csi_details E =
     (let sep = [CHR 0x27, CHR '','', CHR 0x27] in
      ''-e '' @ [CHR 0x22] @ ''CSI_DETAILS_TABLE{'' @ [CHR 0x27] @ env_CsiVersion E @ sep @
      CsiPluginName @ sep @ env_Version E @ sep @ env_Githash E @ [CHR 0x27] @ ''}'' @
      [CHR 0x22] @ '' '')"

definition SetMetadataTags :: "'w env \<Rightarrow> string \<Rightarrow> smap \<Rightarrow> ('w, unit res) go" where
  "SetMetadataTags E localPath tags = do {
     r \<leftarrow> exec_unit E ''hs'' [''attribute'', ''set'', ''CSI_DETAILS'', csi_details E, localPath];
     order \<leftarrow> gets (\<lambda>s. env_MapOrder E tags (d_world s));
     set_tags E localPath order;
     ret r
   }"

section \<open>NFS exports and names\<close>

definition export_names :: "string \<Rightarrow> string list" where
  "export_names output =
     concat (map (\<lambda>l. case str_fields l of [] \<Rightarrow> [] | t # _ \<Rightarrow> [t]) (lines output))"

definition timed_command :: "'w env \<Rightarrow> string \<Rightarrow> string list \<Rightarrow> string \<Rightarrow> ('w, string res) go" where
  "timed_command E cmd args late = do {
     first \<leftarrow> gets (\<lambda>s. env_CtxFirst E (d_world s));
     r \<leftarrow> call (Ev_Exec cmd args) (env_Exec E cmd args);
     (case r of
        Exec_Output out \<Rightarrow> ok out
      | Exec_StartError e \<Rightarrow> fail (status_error Internal (''could not determine nfs exports: '' @ err_text e))
      | Exec_ExitError e \<Rightarrow> fail (status_error Internal (''could not determine nfs exports: '' @ err_text e))
      | Exec_Timeout \<Rightarrow>
          if first then fail (status_error DeadlineExceeded late)
          else fail (status_error Internal
            ''could not determine nfs exports: process killed as timeout reached''))
   }"

definition GetNFSExports :: "'w env \<Rightarrow> string \<Rightarrow> ('w, string list res) go" where
  "GetNFSExports E address =
     tryE (timed_command E ''showmount'' [''--no-headers'', ''-e'', address]
       ''command execution timed out'') id (\<lambda>output.
     let toReturn = export_names output
     in if toReturn = [] then fail (status_error Internal ''could not determine nfs exports'')
        else ok toReturn)"

definition computeIPv4Uaddr :: "string \<Rightarrow> nat \<Rightarrow> string" where
  "computeIPv4Uaddr ip port =
     (if length (split_on (CHR ''.'') ip) \<noteq> 4 then []
      else ip @ ''.'' @ nat_dec (port div 256) @ ''.'' @ nat_dec (port mod 256))"

definition hex4 :: "nat \<Rightarrow> string" where
  "hex4 n = map (\<lambda>d. if d < 10 then char_of (48 + d) else char_of (87 + d))
     [n div 4096 mod 16, n div 256 mod 16, n div 16 mod 16, n mod 16]"

definition computeUaddr :: "'w env \<Rightarrow> string \<Rightarrow> nat \<Rightarrow> (string \<times> string) res" where
  "computeUaddr E ipAddress port =
     (case env_ParseIP E ipAddress of
        None \<Rightarrow> Inl (new_error ''invalid IP address'')
      | Some ip \<Rightarrow>
          if env_IsIPv4 E ip then Inr (computeIPv4Uaddr ipAddress port, ''tcp'')
          else Inr (''['' @ ipAddress @ '']:'' @ hex4 port, ''tcp''))"

text \<open>An address that does not parse still runs \<open>rpcinfo\<close>, with empty arguments.\<close>

definition CheckNFSExports :: "'w env \<Rightarrow> string \<Rightarrow> ('w, bool res) go" where
  "CheckNFSExports E address =
     (let (uaddr, protocol) = (case computeUaddr E address 2049 of Inl _ \<Rightarrow> ([], []) | Inr p \<Rightarrow> p)
      in tryE (timed_command E ''rpcinfo'' [''-a'', uaddr, ''-T'', protocol, ''100003'', ''3'']
           ''command execution timed out while checking nfs exports with rpcinfo'') id
           (\<lambda>_. ok True))"

definition ResolveFQDN :: "'w env \<Rightarrow> string \<Rightarrow> ('w, string res) go" where
  "ResolveFQDN E fqdn =
     (if fqdn = [] then fail (new_error ''FQDN is empty'')
      else tryE (call (Ev_Query ''lookup'' fqdn) (env_LookupIP E fqdn))
        (\<lambda>e. new_error (''failed to resolve FQDN '' @ fqdn @ '': '' @ err_text e)) (\<lambda>ips.
        case ips of
          [] \<Rightarrow> fail (new_error (''no IP addresses found for FQDN '' @ fqdn))
        | ip # _ \<Rightarrow> ok ip))"

section \<open>Frames\<close>

lemma execCommandHelper_quiet [frame_intros]: "state_io_rel quiet (execCommandHelper E c a)"
  unfolding execCommandHelper_def
  by (intro frame_intros) (simp split: exec_outcome.splits, intro conjI allI impI frame_intros)

lemma exec_unit_quiet [frame_intros]: "state_io_rel quiet (exec_unit E c a)"
  unfolding exec_unit_def by (intro frame_intros)

lemma os_quiet [frame_intros]:
  "state_io_rel quiet (os_Stat E p)"
  "state_io_rel quiet (os_MkdirAll E p)"
  "state_io_rel quiet (os_CreateExcl E p)"
  "state_io_rel quiet (os_Remove E p)"
  "state_io_rel quiet (os_RemoveAll E p)"
  "state_io_rel quiet (os_Chmod E p)"
  "state_io_rel quiet (mounter_Mount E src p fs fl)"
  "state_io_rel quiet (mounter_Unmount E p)"
  unfolding os_Stat_def os_MkdirAll_def os_CreateExcl_def os_Remove_def os_RemoveAll_def
    os_Chmod_def mounter_Mount_def mounter_Unmount_def
  by (rule call_quiet)+

lemma inFlight_quiet:
  "state_io_rel quiet (mount_done t r)"
  "state_io_rel quiet (modify (\<lambda>s. s\<lparr>d_inFlight := f (d_inFlight s)\<rparr>))"
  unfolding mount_done_def by (rule quiet_State, simp add: frame_defs)+

lemma mounts_quiet [frame_intros]:
  "state_io_rel quiet (ensure_dest_file E p)"
  "state_io_rel quiet (SafeIsMountPoint E p)"
  "state_io_rel quiet (IsShareMounted E p)"
  "state_io_rel quiet (beginMount E src p fl)"
  "state_io_rel quiet (ForceUnmountStale E p)"
  "state_io_rel quiet (ForceUnmountFilesystem E p)"
  "state_io_rel quiet (RemountBindReadOnly E p)"
  unfolding ensure_dest_file_def SafeIsMountPoint_def IsShareMounted_def beginMount_def
    ForceUnmountStale_def ForceUnmountFilesystem_def RemountBindReadOnly_def
  by (intro frame_intros inFlight_quiet)+

lemma mount_ops_quiet [frame_intros]:
  "state_io_rel quiet (MountFilesystem E src p fs fl)"
  "state_io_rel quiet (BindMountDevice E src p)"
  "state_io_rel quiet (MountShare E src p fl)"
  "state_io_rel quiet (UnmountFilesystem E p)"
  unfolding MountFilesystem_def BindMountDevice_def MountShare_def UnmountFilesystem_def
  by (intro frame_intros)+

lemma losetup_quiet [frame_intros]:
  "state_io_rel quiet (determineLoopDeviceFromBackingFile E p)"
  "state_io_rel quiet (determineBackingFileFromLoopDevice E p)"
  unfolding determineLoopDeviceFromBackingFile_def determineBackingFileFromLoopDevice_def
  by (intro frame_intros, simp split: scan.splits, intro conjI allI impI frame_intros)
    (intro frame_intros)

lemma device_quiet [frame_intros]:
  "state_io_rel quiet (GetDeviceMinorNumber E d)"
  "state_io_rel quiet (EnsureFreeLoopbackDeviceFile E)"
  unfolding GetDeviceMinorNumber_def EnsureFreeLoopbackDeviceFile_def Let_def by (intro frame_intros)+

lemma files_quiet [frame_intros]:
  "state_io_rel quiet (MakeEmptyRawFile E p n)"
  "state_io_rel quiet (ExpandRawFileSize E p n)"
  "state_io_rel quiet (refreshLoopDeviceSize E p)"
  "state_io_rel quiet (ExpandFilesystem E p fs)"
  "state_io_rel quiet (FormatDevice E p fs)"
  "state_io_rel quiet (statWithTimeout E p)"
  "state_io_rel quiet (MakeEmptyRawFolder E p)"
  "state_io_rel quiet (GetFilesystemType E p)"
  "state_io_rel quiet (FilesystemNeedsGrowth E p fs)"
  "state_io_rel quiet (ResolveFQDN E fqdn)"
  unfolding MakeEmptyRawFile_def ExpandRawFileSize_def refreshLoopDeviceSize_def
    ExpandFilesystem_def FormatDevice_def statWithTimeout_def MakeEmptyRawFolder_def
    GetFilesystemType_def FilesystemNeedsGrowth_def ResolveFQDN_def
  by (intro frame_intros)+

lemma file_ops_quiet [frame_intros]:
  "state_io_rel quiet (ExpandDeviceFileSize E p n)"
  "state_io_rel quiet (ExpandMountedFilesystem E t p fs)"
  "state_io_rel quiet (ReconcileFilesystemToBackingFile E t p fs)"
  "state_io_rel quiet (DeleteFile E p)"
  unfolding ExpandDeviceFileSize_def ExpandMountedFilesystem_def
    ReconcileFilesystemToBackingFile_def DeleteFile_def
  by (intro frame_intros)+

lemma set_tags_quiet [frame_intros]: "state_io_rel quiet (set_tags E p ts)"
  by (induction E p ts rule: set_tags.induct) (auto intro!: frame_intros)

lemma timed_command_quiet [frame_intros]: "state_io_rel quiet (timed_command E c a l)"
  unfolding timed_command_def
  by (intro frame_intros) (simp split: exec_outcome.splits, intro conjI allI impI frame_intros)

lemma names_quiet [frame_intros]:
  "state_io_rel quiet (SetMetadataTags E p tags)"
  "state_io_rel quiet (GetNFSExports E a)"
  "state_io_rel quiet (CheckNFSExports E a)"
  unfolding SetMetadataTags_def GetNFSExports_def CheckNFSExports_def Let_def
  by (intro frame_intros)+

lemmas host_quiet = execCommandHelper_quiet exec_unit_quiet os_quiet mounts_quiet
  mount_ops_quiet losetup_quiet files_quiet file_ops_quiet set_tags_quiet timed_command_quiet
  names_quiet

lemmas host_keeps [frame_intros] =
  host_quiet [THEN quiet_keeps(1)] host_quiet [THEN quiet_keeps(2)]
  host_quiet [THEN quiet_keeps(3)] host_quiet [THEN quiet_keeps(4)]
  host_quiet [THEN quiet_keeps(5)]

section \<open>Properties\<close>

text \<open>A line of the output as key and value, and an output in which every line for a key shows one number, and one does.\<close>

definition superblock_entry :: "char \<Rightarrow> string \<Rightarrow> (string \<times> string) option" where
  "superblock_entry sep l = map_option (\<lambda>(k, v). (trim_space k, trim_space v)) (cut l sep)"

definition shows_number :: "char \<Rightarrow> string \<Rightarrow> int \<Rightarrow> string list \<Rightarrow> bool" where
  "shows_number sep key n ls \<longleftrightarrow> (\<exists>l \<in> set ls. superblock_entry sep l = Some (key, FormatInt n)) \<and>
     (\<forall>l \<in> set ls. case superblock_entry sep l of Some (k, v) \<Rightarrow> k = key \<longrightarrow> v = FormatInt n | None \<Rightarrow> True)"

definition shows_geometry :: "string \<Rightarrow> int \<Rightarrow> int \<Rightarrow> string \<Rightarrow> bool" where
  "shows_geometry fs n sz output \<longleftrightarrow>
     (if fs = ''xfs'' then shows_number (CHR ''='') ''dblocks'' n (lines output) \<and> shows_number (CHR ''='') ''blocksize'' sz (lines output)
      else shows_number (CHR '':'') ''Block count'' n (lines output) \<and> shows_number (CHR '':'') ''Block size'' sz (lines output))"

lemma geometry_values_shown:
  assumes "ck \<noteq> sk" and "MinInt64 \<le> n" "n \<le> MaxInt64" "MinInt64 \<le> sz" "sz \<le> MaxInt64"
    and "\<And>l v. l \<in> set ls \<Longrightarrow> superblock_entry sep l = Some (ck, v) \<Longrightarrow> v = FormatInt n"
    and "\<And>l v. l \<in> set ls \<Longrightarrow> superblock_entry sep l = Some (sk, v) \<Longrightarrow> v = FormatInt sz"
  shows "\<exists>values. geometry_values ck sk sep ls m = Inr values \<and>
    values ck = (if \<exists>l \<in> set ls. superblock_entry sep l = Some (ck, FormatInt n) then Some n else m ck) \<and>
    values sk = (if \<exists>l \<in> set ls. superblock_entry sep l = Some (sk, FormatInt sz) then Some sz else m sk)"
  using assms(6,7)
proof (induction ls arbitrary: m)
  case (Cons l ls)
  note read = ParseInt_FormatInt [of n] ParseInt_FormatInt [of sz]
  have entry: "superblock_entry sep l = Some (ck, v) \<Longrightarrow> v = FormatInt n" "superblock_entry sep l = Some (sk, v) \<Longrightarrow> v = FormatInt sz" for v
    using Cons.prems by auto
  have IH: "\<exists>values. geometry_values ck sk sep ls m' = Inr values \<and>
    values ck = (if \<exists>l \<in> set ls. superblock_entry sep l = Some (ck, FormatInt n) then Some n else m' ck) \<and>
    values sk = (if \<exists>l \<in> set ls. superblock_entry sep l = Some (sk, FormatInt sz) then Some sz else m' sk)" for m'
    by (rule Cons.IH) (use Cons.prems in auto)
  show ?case
  proof (cases "cut l sep")
    case None
    then show ?thesis using IH [of m] by (auto simp: superblock_entry_def)
  next
    case (Some kv)
    obtain k v where kv: "kv = (k, v)" by (cases kv)
    with Some entry have c: "trim_space k = ck \<Longrightarrow> trim_space v = FormatInt n" "trim_space k = sk \<Longrightarrow> trim_space v = FormatInt sz"
      by (auto simp: superblock_entry_def)
    consider "trim_space k = ck" | "trim_space k = sk" | "trim_space k \<noteq> ck" "trim_space k \<noteq> sk" by blast
    then show ?thesis
    proof cases
      case 1
      then show ?thesis using IH [of "m(ck \<mapsto> n)"] Some kv c assms(1-5) read by (auto simp: superblock_entry_def)
    next
      case 2
      then show ?thesis using IH [of "m(sk \<mapsto> sz)"] Some kv c assms(1-5) read by (auto simp: superblock_entry_def)
    next
      case 3
      then show ?thesis using IH [of m] Some kv by (auto simp: superblock_entry_def)
    qed
  qed
qed simp

lemma shows_numberD:
  assumes "shows_number sep key n ls"
  shows "\<exists>l \<in> set ls. superblock_entry sep l = Some (key, FormatInt n)"
    and "l \<in> set ls \<Longrightarrow> superblock_entry sep l = Some (key, v) \<Longrightarrow> v = FormatInt n"
  using assms by (auto simp: shows_number_def)

lemma parse_shown_geometry:
  assumes "0 < n" "n \<le> MaxInt64" "0 < sz" "sz \<le> MaxInt64" and "shows_geometry fs n sz output"
  shows "parseFilesystemGeometry output fs = Inr (n, sz)"
proof -
  let ?ck = "if fs = ''xfs'' then ''dblocks'' else ''Block count''"
  let ?sk = "if fs = ''xfs'' then ''blocksize'' else ''Block size''"
  let ?sep = "if fs = ''xfs'' then CHR ''='' else CHR '':''"
  have "MinInt64 \<le> n" "MinInt64 \<le> sz" using assms by (simp_all add: MinInt64_def)
  moreover have "shows_number ?sep ?ck n (lines output)" "shows_number ?sep ?sk sz (lines output)"
    using assms(5) by (auto simp: shows_geometry_def)
  ultimately show ?thesis
    using geometry_values_shown [of ?ck ?sk n sz "lines output" ?sep Map.empty] shows_numberD [of ?sep] assms(1-4)
    by (auto simp: parseFilesystemGeometry_def Let_def)
qed

text \<open>The superblock command of the file succeeds, and its output shows this geometry, at any time.\<close>

definition prints_superblock :: "'w env \<Rightarrow> string \<Rightarrow> string \<Rightarrow> int \<Rightarrow> int \<Rightarrow> bool" where
  "prints_superblock E f fs n sz \<longleftrightarrow> (\<forall>w. \<exists>output.
     fst (if fs = ''xfs''
          then env_Exec E ''xfs_db'' [''-r'', ''-c'', ''sb 0'', ''-c'', ''print dblocks blocksize'', f] w
          else env_Exec E ''dumpe2fs'' [''-h'', f] w) = Exec_Output output \<and> shows_geometry fs n sz output)"

text \<open>C32. The decision to grow a file system is exact. Take a backing file of a size that fits 64 bits, and a superblock
  command that succeeds with an output in which, among any other lines, the block count \<open>n\<close> and the block size \<open>sz\<close> are
  shown, each on one or more lines for its key and always with the same number, whose product fits 64 bits. Then the file
  system needs growth just when the file is more than 16 MiB larger.\<close>

theorem growth_decision:
  assumes "fst (env_Stat E f (d_world s)) = Inr info" and "0 \<le> fi_Size info" and "fi_Size info \<le> MaxInt64"
    and "0 < n" and "0 < sz" and "n * sz \<le> MaxInt64" and "prints_superblock E f fs n sz"
  shows "wp (FilesystemNeedsGrowth E f fs) (\<lambda>r _. r = Inr (n * sz + 16 * 1024 * 1024 < fi_Size info)) s"
proof -
  have pos: "0 < n * sz" using assms(4,5) by simp
  have "n * 1 \<le> n * sz" "1 * sz \<le> n * sz"
    using assms(4,5) by (auto intro: mult_left_mono mult_right_mono)
  then have le: "n \<le> MaxInt64" "sz \<le> MaxInt64" using assms(6) by linarith+
  have "int64 (n * sz) = n * sz" "int64 (fi_Size info - n * sz) = fi_Size info - n * sz"
    using assms(2,3,6) pos by (auto intro!: int64_in_range simp: MinInt64_def MaxInt64_def)
  moreover obtain out where "fst (if fs = ''xfs''
      then env_Exec E ''xfs_db'' [''-r'', ''-c'', ''sb 0'', ''-c'', ''print dblocks blocksize'', f] (snd (env_Stat E f (d_world s)))
      else env_Exec E ''dumpe2fs'' [''-h'', f] (snd (env_Stat E f (d_world s)))) = Exec_Output out"
    and "parseFilesystemGeometry out fs = Inr (n, sz)"
    using assms(7) parse_shown_geometry [OF assms(4) le(1) assms(5) le(2), of fs] unfolding prints_superblock_def by blast
  ultimately show ?thesis using assms(1)
    by (auto simp: FilesystemNeedsGrowth_def os_Stat_def execCommandHelper_def filesystemGrowthSlack_def wp_rules
      split: if_splits)
qed

text \<open>What \<open>dumpe2fs -h\<close> prints, shortened to a few lines.\<close>

definition dumpe2fs_output :: string where
  "dumpe2fs_output = ''dumpe2fs 1.46.5 (30-Dec-2021)'' @ [CHR 0x0A] @ ''Filesystem volume name:   <none>'' @ [CHR 0x0A] @
     ''Block count:              262144'' @ [CHR 0x0A] @ ''Reserved block count:     13107'' @ [CHR 0x0A] @
     ''Block size:               4096'' @ [CHR 0x0A]"

lemma dumpe2fs_shows: "shows_geometry ''ext4'' 262144 4096 dumpe2fs_output"
proof -
  have "lines dumpe2fs_output = [''dumpe2fs 1.46.5 (30-Dec-2021)'', ''Filesystem volume name:   <none>'',
    ''Block count:              262144'', ''Reserved block count:     13107'', ''Block size:               4096'', []]"
    by (simp add: dumpe2fs_output_def lines_def)
  moreover have "FormatInt 262144 = ''262144''" "FormatInt 4096 = ''4096''"
    by (simp_all add: FormatInt_def nat_dec.simps digit_char_def char_of_def bit_0)
  ultimately show ?thesis
    by (simp add: shows_geometry_def shows_number_def superblock_entry_def cut_def trim_space_def trim_by_def is_space_def)
qed

theorem growth_decision_witness:
  "wp (FilesystemNeedsGrowth (sample_env\<lparr>
       env_Stat := (\<lambda>_ w. (Inr \<lparr>fi_Size = 2147483648, fi_IsDir = False, fi_Symlink = False,
         fi_Device = False, fi_CharDevice = False\<rparr>, w)),
       env_Exec := (\<lambda>_ _ w. (Exec_Output dumpe2fs_output, w))\<rparr>) ''/f'' ''ext4'')
     (\<lambda>r _. r = Inr True) (init_drv 0)"
proof -
  let ?i = "\<lparr>fi_Size = 2147483648, fi_IsDir = False, fi_Symlink = False, fi_Device = False,
    fi_CharDevice = False\<rparr>"
  let ?E = "sample_env\<lparr>env_Stat := (\<lambda>_ w. (Inr ?i, w)),
    env_Exec := (\<lambda>_ _ w. (Exec_Output dumpe2fs_output, w))\<rparr>"
  have "prints_superblock ?E ''/f'' ''ext4'' 262144 4096" using dumpe2fs_shows by (simp add: prints_superblock_def)
  with growth_decision [of ?E "''/f''" "init_drv 0" ?i 262144 4096 "''ext4''"] show ?thesis
    by (simp add: MaxInt64_def)
qed

definition removes_only :: "(string \<Rightarrow> bool) \<Rightarrow> event \<Rightarrow> bool" where
  "removes_only Q ev = (case ev of Ev_RemoveAll p \<Rightarrow> Q p | Ev_Query k p \<Rightarrow> True | _ \<Rightarrow> False)"

definition exported :: "'w env \<Rightarrow> 'w drv \<Rightarrow> string \<Rightarrow> bool" where
  "exported E s p = is_export p (fst (Cache_Get (env_Now E (d_world s)) ''NFS_EXPORTS'' (d_cache s)))"

text \<open>C31. \<open>DeleteFile\<close> removes nothing but the path it was given, never the root directory and never a
  path that is a known NFS export; those two are refused with an error.\<close>

theorem DeleteFile_safe:
  "wp (DeleteFile E p) (\<lambda>r s'. adds (removes_only (\<lambda>q. q = p \<and> p \<noteq> ''/'' \<and> \<not> exported E s p)) s s' \<and>
     (if p = ''/'' \<or> exported E s p then \<exists>e. r = Inl e else True)) s"
  by (auto simp: DeleteFile_def statWithTimeout_def os_RemoveAll_def wp_rules exported_def
      removes_only_def adds_def split: option.splits sum.splits)

text \<open>A target gets no second mount call while one is in flight: \<open>beginMount\<close> then waits for the
  first attempt, and only otherwise mounts; afterwards the target is in flight just when the caller
  gave up waiting.\<close>

theorem mount_not_repeated:
  "wp (beginMount E source target flags) (\<lambda>r s'.
     d_trace s' = (if target \<in> d_inFlight s \<and> env_MountRunning E target (d_world s)
       then Ev_Query ''mountwait'' target else Ev_Mount source target ''nfs'' flags) # d_trace s \<and>
     (target \<in> d_inFlight s' \<longleftrightarrow> r = None)) s"
  by (auto simp: beginMount_def mount_done_def wp_rules)

text \<open>Expanding a device file keeps the order the loop driver needs: when it succeeds, the raw file was
  resized after the loop device was found and before the device's size was read again, and nothing
  else was done; when it fails, only loop device and image commands were run.\<close>

theorem expand_grows_before_refresh:
  "wp (ExpandDeviceFileSize E f n) (\<lambda>r s'.
     case r of
       Inr _ \<Rightarrow> (\<exists>dev. d_trace s' = [Ev_Exec ''losetup'' [''-c'', dev],
         Ev_Exec ''qemu-img'' [''resize'', ''-fraw'', f, FormatInt n], Ev_Exec ''losetup'' [''-a'']] @ d_trace s)
     | Inl _ \<Rightarrow> adds (\<lambda>ev. \<exists>as. ev = Ev_Exec ''losetup'' as \<or> ev = Ev_Exec ''qemu-img'' as) s s') s"
  by (auto simp: ExpandDeviceFileSize_def determineLoopDeviceFromBackingFile_def ExpandRawFileSize_def
     refreshLoopDeviceSize_def exec_unit_def execCommandHelper_def go_panic_def wp_rules adds_def
     split: exec_outcome.splits sum.splits scan.splits option.splits)

end
