(* ===== verification/Client.thy ===== *)
theory Client
  imports Host
begin

text \<open>
  The client of the Hammerspace Anvil REST service (\<open>pkg/client/hsclient.go\<close>). The transport
  (\<open>net/http\<close>) and the JSON codec are the environment's; the requests sent, the status codes
  accepted, the polling of tasks and the interpretation of answers are modelled here.

  A request that cannot be built is a nil dereference in the functions that do not check for
  it, recorded as a panic. The polling loop of a task is bounded by \<open>poll_fuel\<close> rounds: every
  round sleeps at least two seconds and the loop gives up after an hour, so a clock that does
  not run backwards never reaches the bound; the lemma \<open>task_poll_returns\<close> shows it.
\<close>

section \<open>Requests\<close>

definition BasePath :: string where "BasePath = ''/mgmt/v1.2/rest''"

type_synonym answer = "int \<times> string \<times> string list option"

definition http_Do :: "'w env \<Rightarrow> http_request \<Rightarrow> ('w, http_response res) go" where
  "http_Do E rq = call (Ev_Http (rq_Method rq) (rq_Url rq)) (env_Http E rq)"

definition EnsureLogin :: "'w env \<Rightarrow> ('w, unit res) go" where
  "EnsureLogin E =
     (let rq = \<lparr>rq_Method = ''POST'', rq_Url = env_Endpoint E @ BasePath @ ''/login'',
        rq_Body = ''password='' @ QueryEscape (snd (env_Credentials E)) @
          ''&username='' @ QueryEscape (fst (env_Credentials E))\<rparr>
      in tryE (http_Do E rq) id (\<lambda>resp.
         if rs_Status resp \<noteq> 200 then fail (new_error ''failed to login to Hammerspace Anvil'')
         else (case rs_ReadErr resp of Some e \<Rightarrow> fail e | None \<Rightarrow> ok ())))"

definition read_response :: "http_response \<Rightarrow> answer res" where
  "read_response resp = (case rs_ReadErr resp of
     Some e \<Rightarrow> Inl e
   | None \<Rightarrow> Inr (rs_Status resp, rs_Body resp, rs_Location resp))"

text \<open>An answer of 401 or 403 logs in again and repeats the request once.\<close>

definition doRequest :: "'w env \<Rightarrow> http_request \<Rightarrow> ('w, answer res) go" where
  "doRequest E rq =
     tryE (http_Do E rq) id (\<lambda>resp.
     if rs_Status resp = 401 \<or> rs_Status resp = 403 then do {
       _ \<leftarrow> EnsureLogin E;
       tryE (http_Do E rq) id (\<lambda>resp2. ret (read_response resp2))
     } else ret (read_response resp))"

definition generateRequest :: "'w env \<Rightarrow> string \<Rightarrow> string \<Rightarrow> string \<Rightarrow> http_request res" where
  "generateRequest E verb urlPath body =
     (let fullURL = env_Endpoint E @ BasePath @ urlPath
      in case env_NewRequestErr E fullURL of
           Some e \<Rightarrow> Inl e
         | None \<Rightarrow> Inr \<lparr>rq_Method = verb, rq_Url = fullURL, rq_Body = body\<rparr>)"

text \<open>The two ways the client sends a request: returning the error of building it, or using the
  missing request.\<close>

definition request :: "'w env \<Rightarrow> string \<Rightarrow> string \<Rightarrow> string \<Rightarrow> ('w, answer res) go" where
  "request E verb urlPath body =
     (case generateRequest E verb urlPath body of Inl e \<Rightarrow> fail e | Inr rq \<Rightarrow> doRequest E rq)"

definition request_or_panic :: "'w env \<Rightarrow> string \<Rightarrow> string \<Rightarrow> string \<Rightarrow> ('w, answer res) go" where
  "request_or_panic E verb urlPath body =
     (case generateRequest E verb urlPath body of
        Inl e \<Rightarrow> go_panic ''nil pointer dereference''
      | Inr rq \<Rightarrow> doRequest E rq)"

definition unexpected_status :: "int \<Rightarrow> int \<Rightarrow> go_error" where
  "unexpected_status got want = new_error (UnexpectedHSStatusCode got want)"

text \<open>A GET that must answer 200, and its body.\<close>

definition get_body :: "'w env \<Rightarrow> string \<Rightarrow> ('w, string res) go" where
  "get_body E urlPath =
     tryE (request E ''GET'' urlPath []) id (\<lambda>(statusCode, respBody, _).
     if statusCode \<noteq> 200 then fail (unexpected_status statusCode 200) else ok respBody)"

definition decode_strict :: "'a decoded \<Rightarrow> 'a res" where
  "decode_strict d = (case d of (v, None) \<Rightarrow> Inr v | (v, Some e) \<Rightarrow> Inl e)"

section \<open>Cluster state and data portals\<close>

definition portalCacheSeconds :: int where "portalCacheSeconds = 30"
definition clusterStateCacheSeconds :: int where "clusterStateCacheSeconds = 30"

definition clusterState :: "'w env \<Rightarrow> ('w, Cluster res) go" where
  "clusterState E =
     cached_or E ''CLUSTER_STATE'' (\<lambda>v. case v of CCluster c \<Rightarrow> Some c | _ \<Rightarrow> None)
       (tryE (get_body E ''/cntl/state'') id (\<lambda>body.
        tryE (ret (decode_strict (env_DecCluster E body))) id (\<lambda>clusters. do {
          SetCacheData E ''CLUSTER_STATE'' (CCluster clusters) clusterStateCacheSeconds;
          ok clusters
        })))"

definition dataPortals :: "'w env \<Rightarrow> ('w, DataPortal list res) go" where
  "dataPortals E =
     cached_or E ''DATA_PORTALS'' (\<lambda>v. case v of CPortals p \<Rightarrow> Some p | _ \<Rightarrow> None)
       (tryE (get_body E ''/data-portals/'') id (\<lambda>body.
        tryE (ret (decode_strict (env_DecPortals E body))) id (\<lambda>portals. do {
          SetCacheData E ''DATA_PORTALS'' (CPortals portals) portalCacheSeconds;
          ok portals
        })))"

definition portal_up :: "DataPortal \<Rightarrow> bool" where
  "portal_up p \<longleftrightarrow> dp_OperState p = ''UP'' \<and> dp_AdminState p = ''UP'' \<and> dp_DataPortalType p = ''NFS_V3''"

definition upDataPortals :: "'w env \<Rightarrow> ('w, DataPortal list res) go" where
  "upDataPortals E = tryE (dataPortals E) id (\<lambda>portals. ok (filter portal_up portals))"

definition sort_portals :: "string \<Rightarrow> DataPortal list \<Rightarrow> DataPortal list" where
  "sort_portals nodeID ps =
     filter (\<lambda>p. dp_NodeName p = nodeID) ps @ filter (\<lambda>p. dp_NodeName p \<noteq> nodeID) ps"

definition GetDataPortals :: "'w env \<Rightarrow> string \<Rightarrow> ('w, DataPortal list res) go" where
  "GetDataPortals E nodeID = tryE (upDataPortals E) id (\<lambda>ps. ok (sort_portals nodeID ps))"

definition NFSServerAddresses :: "'w env \<Rightarrow> ('w, string list res) go" where
  "NFSServerAddresses E =
     tryE (dataPortals E) id (\<lambda>portals.
     tryE (clusterState E) id (\<lambda>clusters.
     ok (map dp_MgmtAddress portals @ cl_PortalFloatingIps clusters @ cl_MgmtIps clusters)))"

fun first_healthy :: "'w env \<Rightarrow> string list \<Rightarrow> ('w, string res) go" where
  "first_healthy E [] = fail (new_error ''no valid floating IPs found'')"
| "first_healthy E (fip # rest) = do {
     r \<leftarrow> CheckNFSExports E fip;
     (case r of
        Inl _ \<Rightarrow> first_healthy E rest
      | Inr healthy \<Rightarrow> if healthy then ok fip else first_healthy E rest)
   }"

definition GetPortalFloatingIp :: "'w env \<Rightarrow> ('w, string res) go" where
  "GetPortalFloatingIp E =
     tryE (clusterState E) id (\<lambda>clusters.
     let addresses = cl_PortalFloatingIps clusters in
     if addresses = [] then fail (new_error ''no floating IPs found'')
     else do {
       clusterKey \<leftarrow> (if cl_Name clusters = [] then call (Ev_Query ''uuid'' []) (env_NewUUID E)
                     else ret (cl_Name clusters));
       ordered \<leftarrow> round_robin clusterKey addresses;
       first_healthy E ordered
     })"

section \<open>Tasks\<close>

definition taskPollTimeout :: int where "taskPollTimeout = 3600 * second"
definition taskPollFastInterval :: int where "taskPollFastInterval = 2 * second"
definition taskPollFastWindow :: int where "taskPollFastWindow = 30 * second"
definition taskPollSlowInterval :: int where "taskPollSlowInterval = 4 * second"
definition taskStatusCompleted :: string where "taskStatusCompleted = ''COMPLETED''"
definition terminalTaskStatuses :: "string list" where
  "terminalTaskStatuses = [''VALIDATION_FAILED'', ''RESUMED'', ''FAILED'', ''HALTED'', ''CANCELLED'',
     ''COMPLETED'']"

text \<open>The result of waiting: the task as last seen, whether it completed, and the error.\<close>

type_synonym task_result = "Task \<times> bool \<times> go_error option"

definition poll_interval :: "int \<Rightarrow> int" where
  "poll_interval elapsed =
     (if elapsed \<ge> taskPollFastWindow then taskPollSlowInterval else taskPollFastInterval)"

text \<open>What one answer of the service decides: the wait is over with a result, or goes on.\<close>

definition poll_answer :: "'w env \<Rightarrow> Task \<Rightarrow> answer res \<Rightarrow> task_result + Task" where
  "poll_answer E task r =
     (case r of
        Inl e \<Rightarrow> Inl (task, False, Some e)
      | Inr (statusCode, respBody, _) \<Rightarrow>
          if statusCode \<noteq> 200 then Inl (task, False, Some (unexpected_status statusCode 200))
          else (case env_DecTask E respBody task of
             (task', Some e) \<Rightarrow> Inl (task', False, None)
           | (task', None) \<Rightarrow>
               if tk_Status task' \<in> set terminalTaskStatuses
               then Inl (task', tk_Status task' = taskStatusCompleted, None)
               else Inr task'))"

definition poll_late :: "Task \<Rightarrow> go_error" where
  "poll_late task = new_error (''task '' @ tk_Uuid task @ '', of type '' @ tk_Action task @
     '', failed to complete within time limit. Current status is '' @ tk_Status task)"

fun task_poll :: "nat \<Rightarrow> 'w env \<Rightarrow> int \<Rightarrow> string \<Rightarrow> Task \<Rightarrow> ('w, task_result option) go" where
  "task_poll 0 E startTime taskId task = ret None"
| "task_poll (Suc n) E startTime taskId task = do {
     t \<leftarrow> now E;
     if t - startTime < taskPollTimeout then do {
       t2 \<leftarrow> now E;
       Sleep E (poll_interval (t2 - startTime));
       (case generateRequest E ''GET'' (''/tasks/'' @ taskId) [] of
          Inl e \<Rightarrow> do {
            r \<leftarrow> (go_panic ''exit'' :: ('w, unit res) go);
            ret (Some (task, False, Some e))
          }
        | Inr rq \<Rightarrow> do {
            r \<leftarrow> doRequest E rq;
            (case poll_answer E task r of
               Inl res \<Rightarrow> ret (Some res)
             | Inr task' \<Rightarrow> task_poll n E startTime taskId task')
          })
     } else ret (Some (task, False, Some (poll_late task)))
   }"

definition poll_fuel :: nat where "poll_fuel = 1801"

definition WaitForTaskCompletionResult :: "'w env \<Rightarrow> string \<Rightarrow> ('w, task_result) go" where
  "WaitForTaskCompletionResult E taskLocation =
     (case env_TaskPath E taskLocation of
        None \<Rightarrow> do {
          r \<leftarrow> (go_panic ''nil pointer dereference'' :: ('w, unit res) go);
          ret (zero_Task, False, None)
        }
      | Some p \<Rightarrow> do {
          startTime \<leftarrow> now E;
          r \<leftarrow> task_poll poll_fuel E startTime (path_base p) zero_Task;
          (case r of
             Some res \<Rightarrow> ret res
           | None \<Rightarrow> do {
               q \<leftarrow> (go_panic ''no return'' :: ('w, unit res) go);
               ret (zero_Task, False, None)
             })
        })"

definition WaitForTaskCompletion :: "'w env \<Rightarrow> string \<Rightarrow> ('w, bool \<times> go_error option) go" where
  "WaitForTaskCompletion E taskLocation = do {
     (task, success, err) \<leftarrow> WaitForTaskCompletionResult E taskLocation;
     ret (success, err)
   }"

section \<open>Lists of objects\<close>

text \<open>A list that does not decode is returned as far as it was read.\<close>

definition ListShares :: "'w env \<Rightarrow> ('w, ShareResponse list res) go" where
  "ListShares E = tryE (get_body E ''/shares'') id (\<lambda>body. ok (fst (env_DecShares E body)))"

definition ListVolumes :: "'w env \<Rightarrow> ('w, VolumeResponse list res) go" where
  "ListVolumes E =
     tryE (get_body E ''/base-storage-volumes'') id (\<lambda>body. ok (fst (env_DecVolumes E body)))"

definition ListObjectives :: "'w env \<Rightarrow> ('w, ClusterObjectiveResponse list res) go" where
  "ListObjectives E =
     cached_or E ''OBJECTIVE_LIST''
       (\<lambda>v. case v of CObjectives l \<Rightarrow> if l \<noteq> [] then Some l else None | _ \<Rightarrow> None)
       (tryE (get_body E ''/objectives'') id (\<lambda>body. do {
          let objs = fst (env_DecObjectives E body);
          SetCacheData E ''OBJECTIVE_LIST'' (CObjectives objs) (60 * 5);
          ok objs
        }))"

definition ListObjectiveNames :: "'w env \<Rightarrow> ('w, string list res) go" where
  "ListObjectiveNames E =
     cached_or E ''OBJECTIVE_LIST_NAMES''
       (\<lambda>v. case v of CStrings l \<Rightarrow> if l \<noteq> [] then Some l else None | _ \<Rightarrow> None)
       (tryE (ListObjectives E) id (\<lambda>objectives. do {
          let objectiveNames = map ob_Name objectives;
          SetCacheData E ''OBJECTIVE_LIST_NAMES'' (CStrings objectiveNames) (60 * 5);
          ok objectiveNames
        }))"

fun pick_objectives :: "(string \<rightharpoonup> ClusterObjectiveResponse) \<Rightarrow> string list
    \<Rightarrow> ClusterObjectiveResponse list res" where
  "pick_objectives m [] = Inr []"
| "pick_objectives m (n # ns) =
     (case m n of
        None \<Rightarrow> Inl (status_error InvalidArgument (InvalidObjectiveNameDoesNotExist n))
      | Some ob \<Rightarrow> (case pick_objectives m ns of Inl e \<Rightarrow> Inl e | Inr obs \<Rightarrow> Inr (ob # obs)))"

text \<open>The map by name keeps the last objective of each name.\<close>

definition objective_by_name :: "ClusterObjectiveResponse list \<Rightarrow> (string \<rightharpoonup> ClusterObjectiveResponse)" where
  "objective_by_name obs = map_of (rev (map (\<lambda>ob. (ob_Name ob, ob)) obs))"

definition getShareObjectives :: "'w env \<Rightarrow> string list
    \<Rightarrow> ('w, ClusterObjectiveResponse list res) go" where
  "getShareObjectives E objectiveNames =
     (if objectiveNames = [] then ok []
      else tryE (ListObjectives E) id (\<lambda>objectives.
        ret (pick_objectives (objective_by_name objectives) objectiveNames)))"

section \<open>Shares and files\<close>

definition share_url :: "string \<Rightarrow> string" where
  "share_url name = ''/shares/'' @ PathEscape name"

text \<open>
  \<open>GetShare\<close> returns the share, nothing for a 404, or an error. A share that does not decode comes
  back as far as it was read, together with the error: \<open>GetShare_pair\<close> is the pair of Go results, and
  \<open>GetShare\<close> the view of the callers that look at the error first.
\<close>

definition GetShare_pair :: "'w env \<Rightarrow> string \<Rightarrow> ('w, ShareResponse option \<times> go_error option) go" where
  "GetShare_pair E name = do {
     r \<leftarrow> request_or_panic E ''GET'' (share_url name) [];
     ret (case r of
       Inl e \<Rightarrow> (None, Some e)
     | Inr (statusCode, respBody, _) \<Rightarrow>
         if statusCode = 404 then (None, None)
         else if statusCode \<noteq> 200 then (None, Some (unexpected_status statusCode 200))
         else (case env_DecShare E respBody of (share, err) \<Rightarrow> (Some share, err)))
   }"

definition GetShare :: "'w env \<Rightarrow> string \<Rightarrow> ('w, ShareResponse option res) go" where
  "GetShare E name = do {
     (share, err) \<leftarrow> GetShare_pair E name;
     (case err of Some e \<Rightarrow> fail e | None \<Rightarrow> ok share)
   }"

text \<open>The map is nil, \<open>None\<close>, for a share that is missing and for the body \<open>null\<close>.\<close>

definition GetShareRawFields :: "'w env \<Rightarrow> string \<Rightarrow> ('w, (string \<rightharpoonup> jval) option res) go" where
  "GetShareRawFields E name =
     tryE (request_or_panic E ''GET'' (share_url name) []) id (\<lambda>(statusCode, respBody, _).
     if statusCode = 404 then ok None
     else if statusCode \<noteq> 200 then fail (unexpected_status statusCode 200)
     else (case env_DecRaw E respBody of (share, Some e) \<Rightarrow> fail e | (share, None) \<Rightarrow> ok share))"

text \<open>A file that does not decode is returned as far as it was read.\<close>

definition GetFile :: "'w env \<Rightarrow> string \<Rightarrow> ('w, HSFile option res) go" where
  "GetFile E path =
     tryE (request_or_panic E ''GET'' (''/files?path='' @ PathEscape path) []) id
       (\<lambda>(statusCode, respBody, _).
     if statusCode = 500 then ok None
     else if statusCode = 404 then ok None
     else if statusCode \<noteq> 200 then fail (unexpected_status statusCode 200)
     else ok (Some (fst (env_DecFile E respBody))))"

definition DoesFileExist :: "'w env \<Rightarrow> string \<Rightarrow> ('w, bool res) go" where
  "DoesFileExist E path = tryE (GetFile E path) id (\<lambda>file. ok (file \<noteq> None))"

fun children_snapshots :: "string \<Rightarrow> string \<Rightarrow> FileChildren list
    \<Rightarrow> SnapshotResponse list + SnapshotResponse list" where
  "children_snapshots snapshot_id exportPath [] = Inr []"
| "children_snapshots snapshot_id exportPath (c # cs) =
     (if fc_Name c = ''current'' then children_snapshots snapshot_id exportPath cs
      else let snapshot = \<lparr>sn_Id = fc_Name c, sn_Size = fc_Size c, sn_Created = fc_CreateTime c,
                 sn_ReadyToUse = True, sn_SourceVolumeId = exportPath\<rparr>
           in if snapshot_id \<noteq> [] then
                (if sn_Id snapshot = snapshot_id then Inl [snapshot]
                 else children_snapshots snapshot_id exportPath cs)
              else (case children_snapshots snapshot_id exportPath cs of
                Inl r \<Rightarrow> Inl r
              | Inr r \<Rightarrow> Inr (snapshot # r)))"

fun snapshots_of_shares :: "'w env \<Rightarrow> string \<Rightarrow> string \<Rightarrow> ShareResponse list
    \<Rightarrow> SnapshotResponse list \<Rightarrow> ('w, SnapshotResponse list res) go" where
  "snapshots_of_shares E snapshot_id volume_id [] acc = ok acc"
| "snapshots_of_shares E snapshot_id volume_id (share # shares) acc =
     (if volume_id \<noteq> [] \<and> path_clean (sh_ExportPath share) \<noteq> path_clean volume_id
      then snapshots_of_shares E snapshot_id volume_id shares acc
      else tryE (GetFile E (sh_ExportPath share @ ''/.snapshot/'')) id (\<lambda>shareFile.
        case shareFile of
          None \<Rightarrow> snapshots_of_shares E snapshot_id volume_id shares acc
        | Some f \<Rightarrow>
            (case children_snapshots snapshot_id (sh_ExportPath share) (fl_Children f) of
               Inl found \<Rightarrow> ok found
             | Inr listed \<Rightarrow> snapshots_of_shares E snapshot_id volume_id shares (acc @ listed))))"

definition ListSnapshots :: "'w env \<Rightarrow> string \<Rightarrow> string \<Rightarrow> ('w, SnapshotResponse list res) go" where
  "ListSnapshots E snapshot_id volume_id =
     tryE (ListShares E) id (\<lambda>shares. snapshots_of_shares E snapshot_id volume_id shares [])"

section \<open>Tasks that are already running\<close>

definition is_action_char :: "char \<Rightarrow> bool" where
  "is_action_char c = (let n = of_char c :: nat in (97 \<le> n \<and> n \<le> 122) \<or> n = 45)"

definition is_id_char :: "char \<Rightarrow> bool" where
  "is_id_char c = (let n = of_char c :: nat in
     (48 \<le> n \<and> n \<le> 57) \<or> (65 \<le> n \<and> n \<le> 70) \<or> (97 \<le> n \<and> n \<le> 102) \<or> n = 45)"

definition task_lead :: string where "task_lead = ''Task '' @ [CHR 0x27]"
definition task_mid :: string where
  "task_mid = [CHR 0x27] @ '' is already running with ID '' @ [CHR 0x27]"

text \<open>A match of \<open>runningTaskRe\<close> at the start of the text: the action, the ID and the rest.\<close>

definition match_running :: "string \<Rightarrow> (string \<times> string \<times> string) option" where
  "match_running s =
     (if \<not> has_prefix s task_lead then None
      else let s1 = drop (length task_lead) s;
               action = takeWhile is_action_char s1; s2 = dropWhile is_action_char s1
           in if action = [] \<or> \<not> has_prefix s2 task_mid then None
              else let s3 = drop (length task_mid) s2;
                       i = takeWhile is_id_char s3; s4 = dropWhile is_id_char s3
                   in if i = [] \<or> \<not> has_prefix s4 [CHR 0x27] then None
                      else Some (action, i, tl s4))"

lemma match_running_shorter:
  assumes "match_running s = Some (a, i, r)"
  shows "length r < length s"
proof -
  let ?s1 = "drop (length task_lead) s" and ?s2 = "dropWhile is_action_char (drop (length task_lead) s)"
  have "s \<noteq> []" using assms by (auto simp: match_running_def has_prefix_def task_lead_def split: if_splits)
  moreover have "r = tl (dropWhile is_id_char (drop (length task_mid) ?s2))"
    using assms by (auto simp: match_running_def Let_def split: if_splits)
  then have "length r \<le> length (dropWhile is_id_char (drop (length task_mid) ?s2))" by simp
  moreover have "length (dropWhile is_id_char (drop (length task_mid) ?s2)) \<le> length ?s2 - length task_mid"
    using length_dropWhile_le [of is_id_char "drop (length task_mid) ?s2"] by simp
  moreover have "length ?s2 \<le> length s - length task_lead"
    using length_dropWhile_le [of is_action_char ?s1] by simp
  moreover have "0 < length task_lead" by (simp add: task_lead_def)
  moreover have "0 < length s" using \<open>s \<noteq> []\<close> by simp
  ultimately show ?thesis by linarith
qed

function find_running :: "string \<Rightarrow> (string \<times> string) list" where
  "find_running s =
     (case match_running s of
        Some (action, i, rest) \<Rightarrow> (action, i) # find_running rest
      | None \<Rightarrow> (case s of [] \<Rightarrow> [] | c # cs \<Rightarrow> find_running cs))"
  by pat_completeness auto
termination
  by (relation "measure length") (auto dest: match_running_shorter)

declare find_running.simps [simp del]

definition runningTaskID :: "string \<Rightarrow> string \<Rightarrow> string" where
  "runningTaskID body action =
     (case filter (\<lambda>m. fst m = action) (find_running body) of [] \<Rightarrow> [] | m # _ \<Rightarrow> snd m)"

definition CheckIfShareCreateTaskIsRunning :: "'w env \<Rightarrow> string \<Rightarrow> ('w, bool res) go" where
  "CheckIfShareCreateTaskIsRunning E shareName =
     tryE (get_body E ''/tasks'') id (\<lambda>body.
     case env_DecTasks E body of
       (tasks, Some e) \<Rightarrow> ok False
     | (tasks, None) \<Rightarrow>
         ok (\<exists>task \<in> set tasks. tk_Status task = ''EXECUTING'' \<and> tk_ParamsName task = shareName))"

section \<open>Creating, resizing and deleting shares\<close>

definition waitForShareDelete :: "'w env \<Rightarrow> string \<Rightarrow> ('w, unit res) go" where
  "waitForShareDelete E taskLocation = do {
     (success, err) \<leftarrow> WaitForTaskCompletion E taskLocation;
     if success then ok ()
     else (case err of
       Some e \<Rightarrow> fail (status_error Aborted (''share-delete task '' @ path_base taskLocation @
         '' has not finished: '' @ err_text e))
     | None \<Rightarrow> fail (new_error ''share-delete task failed''))
   }"

definition delete_query :: "int \<Rightarrow> string" where
  "delete_query deleteDelay =
     ''?delete-path=true'' @
     (if deleteDelay \<ge> 0 then ''&delete-delay='' @ FormatInt deleteDelay else [])"

definition DeleteShare :: "'w env \<Rightarrow> string \<Rightarrow> int \<Rightarrow> ('w, unit res) go" where
  "DeleteShare E name deleteDelay =
     tryE (request E ''DELETE'' (share_url name @ delete_query deleteDelay) []) id
       (\<lambda>(statusCode, body, locs).
     if statusCode = 400 \<and> contains body ''Cannot remove a share with state REMOVED.'' then ok ()
     else if statusCode = 400 \<and> runningTaskID body ''share-delete'' \<noteq> [] then
       waitForShareDelete E (''/tasks/'' @ runningTaskID body ''share-delete'')
     else if statusCode = 400 \<and> contains body ''BUSY'' then
       fail (status_error Unavailable (''share '' @ name @ '' is busy with another task: '' @ body))
     else if statusCode = 404 \<or> statusCode = 200 then ok ()
     else if statusCode \<noteq> 202 then fail (unexpected_status statusCode 202)
     else (case locs of Some (l # _) \<Rightarrow> waitForShareDelete E l | _ \<Rightarrow> ok ()))"

definition GetCommonExtendedInfo :: "'w env \<Rightarrow> smap" where
  "GetCommonExtendedInfo E =
     [''csi_created_by_plugin_name'' \<mapsto> CsiPluginName,
      ''csi_created_by_plugin_version'' \<mapsto> env_Version E,
      ''csi_created_by_plugin_git_hash'' \<mapsto> env_Githash E,
      ''csi_created_by_csi_version'' \<mapsto> env_CsiVersion E]"

definition share_extended_info :: "'w env \<Rightarrow> int \<Rightarrow> smap" where
  "share_extended_info E deleteDelay =
     (if deleteDelay \<ge> 0
      then (GetCommonExtendedInfo E)(''csi_delete_delay'' \<mapsto> FormatInt deleteDelay)
      else GetCommonExtendedInfo E)"

text \<open>A 400 to a share creation: wait for the task already queued, or report what is running.\<close>

definition share_create_400 :: "'w env \<Rightarrow> string \<Rightarrow> string \<Rightarrow> ('w, unit res) go" where
  "share_create_400 E name respBody =
     (let i = runningTaskID respBody ''share-create'' in
      if i \<noteq> [] then do {
        (success, err) \<leftarrow> WaitForTaskCompletion E (''/tasks/'' @ i);
        (case err of
           Some e \<Rightarrow> fail (status_error Aborted (''share-create task '' @ i @ '' for '' @ name @
             '' has not finished: '' @ err_text e))
         | None \<Rightarrow> if success then ok () else fail (new_error ''share failed to create''))
      } else
        tryE (CheckIfShareCreateTaskIsRunning E name) id (\<lambda>running.
        if running then fail (new_error (''share create task is already running for '' @ name @
          ''; retry snapshot clone after it completes''))
        else fail (new_error (''share create failed with status code 400: '' @ respBody))))"

definition CreateShare :: "'w env \<Rightarrow> string \<Rightarrow> string \<Rightarrow> int \<Rightarrow> string list
    \<Rightarrow> ShareExportOptions list \<Rightarrow> int \<Rightarrow> string \<Rightarrow> ('w, unit res) go" where
  "CreateShare E name exportPath sz objectives exportOptions deleteDelay comment =
     (if length name > 80 then fail (status_error InvalidArgument InvalidShareNameSize)
      else tryE (getShareObjectives E objectives) id (\<lambda>shareObjectives.
        let share = \<lparr>sr_Name = name, sr_ExportPath = exportPath, sr_Comment = comment,
              sr_ExtendedInfo = share_extended_info E deleteDelay,
              sr_Size = (if sz > 0 then sz else 0), sr_ExportOptions = exportOptions,
              sr_ShareObjectives = shareObjectives\<rparr>
        in tryE (request E ''POST'' ''/shares'' (env_EncShare E share)) id
             (\<lambda>(statusCode, respBody, locs).
           if statusCode = 400 then share_create_400 E name respBody
           else if statusCode \<noteq> 202 then fail (unexpected_status statusCode 202)
           else (case locs of
             Some (l # _) \<Rightarrow> do {
               (success, err) \<leftarrow> WaitForTaskCompletion E l;
               (case err of
                  Some e \<Rightarrow> fail e
                | None \<Rightarrow>
                    if success then ok ()
                    else deferring (DeleteShare E name 0) (fail (new_error ''share failed to create'')))
             }
           | Some [] \<Rightarrow> go_panic ''index out of range''
           | None \<Rightarrow> deferring (DeleteShare E name 0)
               (fail (new_error ''no share create task returned to monitor''))))))"

definition UpdateShareSize :: "'w env \<Rightarrow> string \<Rightarrow> int \<Rightarrow> ('w, unit res) go" where
  "UpdateShareSize E name sz =
     tryE (GetShareRawFields E name) (\<lambda>_. new_error ShareNotFound) (\<lambda>share.
     case share of
       None \<Rightarrow> fail (new_error ShareNotFound)
     | Some sf \<Rightarrow>
         tryE (request E ''PUT'' (''/shares/'' @ name)
                 (env_EncRaw E (sf(''shareSizeLimit'' \<mapsto> JInt sz)))) id
           (\<lambda>(statusCode, _, locs).
         if statusCode \<noteq> 202 then fail (unexpected_status statusCode 202)
         else (case locs of
           Some (l # _) \<Rightarrow> do {
             (success, err) \<leftarrow> WaitForTaskCompletion E l;
             (case err of
                Some e \<Rightarrow> fail e
              | None \<Rightarrow> if success then ok () else fail (new_error ''Share failed to update''))
           }
         | Some [] \<Rightarrow> go_panic ''index out of range''
         | None \<Rightarrow> ok ())))"

definition CloneShareSnapshot :: "'w env \<Rightarrow> string \<Rightarrow> string \<Rightarrow> string \<Rightarrow> bool \<Rightarrow> ('w, unit res) go" where
  "CloneShareSnapshot E sourceShareName snapshotName destinationPath overwriteDestination =
     tryE (request E ''POST''
       (''/share-snapshots/clone-create/'' @ PathEscape sourceShareName @ ''?destination-path='' @
        QueryEscape destinationPath @ ''&overwrite-destination='' @ FormatBool overwriteDestination @
        ''&snapshot-name='' @ QueryEscape snapshotName) []) id
       (\<lambda>(statusCode, _, locs).
     if statusCode \<noteq> 202 then fail (unexpected_status statusCode 202)
     else (case locs of
       Some (l # _) \<Rightarrow> do {
         (task, success, err) \<leftarrow> WaitForTaskCompletionResult E l;
         (case err of
            Some e \<Rightarrow> fail e
          | None \<Rightarrow> if success then ok () else fail (new_error ''failed to clone share snapshot''))
       }
     | _ \<Rightarrow> fail (new_error ''no share snapshot clone task returned to monitor'')))"

definition CreateShareFromSnapshot :: "'w env \<Rightarrow> string \<Rightarrow> string \<Rightarrow> string \<Rightarrow> string \<Rightarrow> string
    \<Rightarrow> ('w, string res) go" where
  "CreateShareFromSnapshot E name exportPath sourceShareName sourceSharePath snapshotPath =
     (let snapshotName = path_base snapshotPath in
      if length name > 80 then fail (status_error InvalidArgument InvalidShareNameSize)
      else if snapshotName = ''.'' \<or> snapshotName = ''/'' \<or> snapshotName = [] then
        fail (new_error (''invalid source snapshot path '' @ go_quote snapshotPath))
      else if sourceShareName = [] then
        fail (new_error (''source share name cannot be empty when cloning snapshot '' @ snapshotName))
      else if sourceSharePath = [] then
        fail (new_error (''source share path cannot be empty when cloning snapshot '' @ snapshotName))
      else
        let cloneDestinationPath = path_clean (CHR ''/'' # trim_prefix exportPath ''/'');
            restoredSharePath = path_join
              [path_clean (CHR ''/'' # trim_prefix sourceSharePath ''/''),
               trim_prefix cloneDestinationPath ''/'']
        in tryE (CloneShareSnapshot E sourceShareName snapshotName cloneDestinationPath True) id
             (\<lambda>_. ok restoredSharePath))"

fun SetObjectives :: "'w env \<Rightarrow> string \<Rightarrow> string \<Rightarrow> string list \<Rightarrow> ('w, unit res) go" where
  "SetObjectives E shareName path [] = ok ()"
| "SetObjectives E shareName path (objectiveName # rest) =
     tryE (request E ''POST''
       (share_url shareName @ ''/objective-set?objective-identifier='' @
        QueryEscape objectiveName @ ''&path='' @ QueryEscape path) []) id
       (\<lambda>(statusCode, respBody, _).
     if statusCode \<noteq> 200 then fail (new_error (''failed to set objective: status code '' @
       FormatInt statusCode @ '': '' @ respBody))
     else SetObjectives E shareName path rest)"

section \<open>Snapshots\<close>

definition SnapshotShare :: "'w env \<Rightarrow> string \<Rightarrow> ('w, string res) go" where
  "SnapshotShare E shareName =
     tryE (request_or_panic E ''POST'' (''/share-snapshots/snapshot-create/'' @ PathEscape shareName) [])
       id (\<lambda>(statusCode, respBody, _).
     if statusCode \<noteq> 200 then fail (unexpected_status statusCode 200)
     else ok (trim_cutset (trim_space respBody) [CHR 0x22]))"

definition GetShareSnapshots :: "'w env \<Rightarrow> string \<Rightarrow> ('w, string list res) go" where
  "GetShareSnapshots E shareName =
     tryE (request_or_panic E ''GET'' (''/share-snapshots/snapshot-list/'' @ PathEscape shareName) [])
       id (\<lambda>(statusCode, respBody, _).
     if statusCode \<noteq> 200 then fail (unexpected_status statusCode 200)
     else (case env_DecStrings E respBody of
       (names, Some e) \<Rightarrow> fail e
     | (names, None) \<Rightarrow> ok (remove1 ''current'' names)))"

definition DeleteShareSnapshot :: "'w env \<Rightarrow> string \<Rightarrow> string \<Rightarrow> ('w, unit res) go" where
  "DeleteShareSnapshot E shareName snapshotName =
     tryE (request_or_panic E ''POST'' (''/share-snapshots/snapshot-delete/'' @ PathEscape shareName @
       ''/'' @ PathEscape snapshotName) []) id (\<lambda>(statusCode, _, _).
     if statusCode = 404 \<or> statusCode = 200 then ok ()
     else fail (unexpected_status statusCode 200))"

definition GetFileSnapshots :: "'w env \<Rightarrow> string \<Rightarrow> ('w, FileSnapshot list res) go" where
  "GetFileSnapshots E filePath =
     tryE (request_or_panic E ''GET'' (''/file-snapshots/list?filename-expression='' @
       PathEscape filePath) []) id (\<lambda>(statusCode, respBody, _).
     if statusCode \<noteq> 200 then fail (unexpected_status statusCode 200)
     else ret (decode_strict (env_DecFileSnapshots E respBody)))"

definition is_digit :: "char \<Rightarrow> bool" where
  "is_digit c \<longleftrightarrow> digit_val c \<noteq> None"

text \<open>\<open>fileSnapshotTimestampPattern\<close>: four digits, a dash, two, a dash, two, and a T.\<close>

definition timestamp_lead :: "string \<Rightarrow> bool" where
  "timestamp_lead s \<longleftrightarrow> 11 \<le> length s \<and>
     list_all is_digit (take 4 s) \<and> s ! 4 = CHR ''-'' \<and>
     is_digit (s ! 5) \<and> is_digit (s ! 6) \<and> s ! 7 = CHR ''-'' \<and>
     is_digit (s ! 8) \<and> is_digit (s ! 9) \<and> s ! 10 = CHR ''T''"

definition timestamp_of :: "string \<Rightarrow> string option" where
  "timestamp_of candidate =
     (if \<not> timestamp_lead candidate then None
      else let parts = split_n 6 (CHR ''-'') candidate
           in if length parts < 5 then None else Some (join_with ''-'' (take 5 parts)))"

definition fileSnapshotTimestamp :: "string \<Rightarrow> string res" where
  "fileSnapshotTimestamp snapshotName =
     (case timestamp_of (path_base snapshotName) of
        Some t \<Rightarrow> Inr t
      | None \<Rightarrow> (case timestamp_of (path_base (path_dir snapshotName)) of
          Some t \<Rightarrow> Inr t
        | None \<Rightarrow> Inl (new_error (''could not find a timestamp in file snapshot name '' @
            go_quote snapshotName))))"

definition DeleteFileSnapshot :: "'w env \<Rightarrow> string \<Rightarrow> string \<Rightarrow> ('w, unit res) go" where
  "DeleteFileSnapshot E filePath snapshotName =
     tryE (ret (fileSnapshotTimestamp snapshotName)) id (\<lambda>snapshotTime.
     tryE (request_or_panic E ''POST'' (''/file-snapshots/delete?filename-expression='' @
       PathEscape filePath @ ''&date-time-expression='' @ PathEscape snapshotTime) []) id
       (\<lambda>(statusCode, respBody, _).
     if statusCode = 400 \<and> contains respBody ''No snapshots found for path'' then ok ()
     else if statusCode = 404 \<or> statusCode = 200 then ok ()
     else fail (unexpected_status statusCode 200)))"

definition SnapshotFile :: "'w env \<Rightarrow> string \<Rightarrow> ('w, string res) go" where
  "SnapshotFile E filepath =
     tryE (request E ''POST'' (''/file-snapshots/create?filename-expression='' @ PathEscape filepath) [])
       id (\<lambda>(statusCode, respBody, _).
     if statusCode \<noteq> 200 then fail (unexpected_status statusCode 200)
     else tryE (ret (decode_strict (env_DecStrings E respBody))) id (\<lambda>snapshotNames.
       case snapshotNames of
         [] \<Rightarrow> fail (new_error (''no file snapshots returned for path '' @ filepath))
       | n # _ \<Rightarrow> ok n))"

definition RestoreFileSnapToDestination :: "'w env \<Rightarrow> string \<Rightarrow> string \<Rightarrow> ('w, unit res) go" where
  "RestoreFileSnapToDestination E snapshotPath filePath =
     tryE (request E ''POST'' (''/file-snapshots/'' @ PathEscape snapshotPath @ ''/'' @
       PathEscape filePath) []) id (\<lambda>(statusCode, _, _).
     if statusCode \<noteq> 200 then fail (unexpected_status statusCode 200) else ok ())"

definition GetClusterAvailableCapacity :: "'w env \<Rightarrow> ('w, int res) go" where
  "GetClusterAvailableCapacity E =
     tryE (get_body E ''/cntl/state'') id (\<lambda>body.
     tryE (ret (decode_strict (env_DecCapacity E body))) id (\<lambda>capacity.
     case capacity ''free'' of
       None \<Rightarrow> fail (new_error ''cluster state reported no free capacity'')
     | Some free \<Rightarrow> do {
         SetCacheData E ''FREE_CAPACITY'' (CInt free) (60 * 5);
         ok free
       }))"

section \<open>Frames\<close>

lemma request_quiet [frame_intros]:
  "state_io_rel quiet (http_Do E rq)"
  "state_io_rel quiet (EnsureLogin E)"
  "state_io_rel quiet (doRequest E rq)"
  "state_io_rel quiet (request E v p b)"
  "state_io_rel quiet (request_or_panic E v p b)"
  "state_io_rel quiet (get_body E p)"
proof -
  show http: "state_io_rel quiet (http_Do E rq)" for rq
    unfolding http_Do_def by (intro frame_intros)
  show login: "state_io_rel quiet (EnsureLogin E)"
    unfolding EnsureLogin_def Let_def by (intro frame_intros http)
  show do_rq: "state_io_rel quiet (doRequest E rq)" for rq
    unfolding doRequest_def by (intro frame_intros http login)
  show rq: "state_io_rel quiet (request E v p b)" for v p b
    unfolding request_def by (intro frame_intros do_rq)
  show "state_io_rel quiet (request_or_panic E v p b)"
    unfolding request_or_panic_def by (intro frame_intros do_rq)
  show "state_io_rel quiet (get_body E p)"
    unfolding get_body_def by (intro frame_intros rq)
qed

lemma portals_quiet [frame_intros]:
  "state_io_rel quiet (clusterState E)"
  "state_io_rel quiet (dataPortals E)"
  unfolding clusterState_def dataPortals_def by (intro frame_intros)+

lemma first_healthy_quiet [frame_intros]: "state_io_rel quiet (first_healthy E xs)"
  by (induction E xs rule: first_healthy.induct) (auto intro!: frame_intros)

lemma addresses_quiet [frame_intros]:
  "state_io_rel quiet (upDataPortals E)"
  "state_io_rel quiet (NFSServerAddresses E)"
  "state_io_rel quiet (GetPortalFloatingIp E)"
  unfolding upDataPortals_def NFSServerAddresses_def GetPortalFloatingIp_def Let_def
  by (intro frame_intros)+

lemma GetDataPortals_quiet [frame_intros]: "state_io_rel quiet (GetDataPortals E n)"
  unfolding GetDataPortals_def by (intro frame_intros)

lemma task_poll_quiet [frame_intros]: "state_io_rel quiet (task_poll n E t i k)"
proof (induction n arbitrary: k)
  case 0
  then show ?case by (simp only: task_poll.simps) (intro frame_intros)
next
  case (Suc n)
  show ?case by (simp only: task_poll.simps) (intro frame_intros Suc.IH)
qed

lemma wait_quiet [frame_intros]:
  "state_io_rel quiet (WaitForTaskCompletionResult E l)"
  "state_io_rel quiet (WaitForTaskCompletion E l)"
proof -
  show w: "state_io_rel quiet (WaitForTaskCompletionResult E l)"
    unfolding WaitForTaskCompletionResult_def by (intro frame_intros)
  show "state_io_rel quiet (WaitForTaskCompletion E l)"
    unfolding WaitForTaskCompletion_def by (intro frame_intros w)
qed

lemma waitForShareDelete_quiet [frame_intros]: "state_io_rel quiet (waitForShareDelete E l)"
  unfolding waitForShareDelete_def by (intro frame_intros)

lemma lists_quiet [frame_intros]:
  "state_io_rel quiet (ListShares E)"
  "state_io_rel quiet (ListVolumes E)"
  "state_io_rel quiet (ListObjectives E)"
  unfolding ListShares_def ListVolumes_def ListObjectives_def Let_def
  by (intro frame_intros)+

lemma objectives_quiet [frame_intros]:
  "state_io_rel quiet (ListObjectiveNames E)"
  "state_io_rel quiet (getShareObjectives E ns)"
  unfolding ListObjectiveNames_def getShareObjectives_def Let_def by (intro frame_intros)+

lemma GetShare_pair_quiet [frame_intros]: "state_io_rel quiet (GetShare_pair E n)"
  unfolding GetShare_pair_def by (intro frame_intros)

lemma shares_quiet [frame_intros]:
  "state_io_rel quiet (GetShare E n)"
  "state_io_rel quiet (GetShareRawFields E n)"
  "state_io_rel quiet (GetFile E p)"
  "state_io_rel quiet (DeleteShare E n d)"
  "state_io_rel quiet (CheckIfShareCreateTaskIsRunning E n)"
  "state_io_rel quiet (CloneShareSnapshot E a b c w)"
  unfolding GetShare_def GetShareRawFields_def GetFile_def DeleteShare_def
    CheckIfShareCreateTaskIsRunning_def CloneShareSnapshot_def
  by (intro frame_intros)+

lemma SetObjectives_quiet [frame_intros]: "state_io_rel quiet (SetObjectives E n p os)"
  by (induction E n p os rule: SetObjectives.induct) (auto intro!: frame_intros)

lemma snapshots_of_shares_quiet [frame_intros]:
  "state_io_rel quiet (snapshots_of_shares E a b shares acc)"
  by (induction shares arbitrary: acc) (auto intro!: frame_intros)

lemma share_ops_quiet [frame_intros]:
  "state_io_rel quiet (DoesFileExist E p)"
  "state_io_rel quiet (share_create_400 E n b)"
  "state_io_rel quiet (UpdateShareSize E n z)"
  "state_io_rel quiet (CreateShareFromSnapshot E n p a b c)"
  "state_io_rel quiet (ListSnapshots E a b)"
  unfolding DoesFileExist_def share_create_400_def UpdateShareSize_def
    CreateShareFromSnapshot_def ListSnapshots_def Let_def
  by (intro frame_intros)+

lemma CreateShare_quiet [frame_intros]: "state_io_rel quiet (CreateShare E n p z os eo d c)"
  unfolding CreateShare_def Let_def by (intro frame_intros)

lemma snapshot_ops_quiet [frame_intros]:
  "state_io_rel quiet (SnapshotShare E n)"
  "state_io_rel quiet (GetShareSnapshots E n)"
  "state_io_rel quiet (DeleteShareSnapshot E n m)"
  "state_io_rel quiet (GetFileSnapshots E p)"
  "state_io_rel quiet (DeleteFileSnapshot E p m)"
  "state_io_rel quiet (SnapshotFile E p)"
  "state_io_rel quiet (RestoreFileSnapToDestination E p m)"
  "state_io_rel quiet (GetClusterAvailableCapacity E)"
  unfolding SnapshotShare_def GetShareSnapshots_def DeleteShareSnapshot_def GetFileSnapshots_def
    DeleteFileSnapshot_def SnapshotFile_def RestoreFileSnapToDestination_def
    GetClusterAvailableCapacity_def
  by (intro frame_intros)+

lemmas client_quiet = request_quiet portals_quiet first_healthy_quiet addresses_quiet
  GetDataPortals_quiet wait_quiet waitForShareDelete_quiet lists_quiet objectives_quiet
  GetShare_pair_quiet shares_quiet SetObjectives_quiet share_ops_quiet CreateShare_quiet snapshot_ops_quiet

lemmas client_keeps [frame_intros] =
  client_quiet [THEN quiet_keeps(1)] client_quiet [THEN quiet_keeps(2)]
  client_quiet [THEN quiet_keeps(3)] client_quiet [THEN quiet_keeps(4)]
  client_quiet [THEN quiet_keeps(5)]

section \<open>Waiting for a task ends\<close>

text \<open>
  A clock that is not turned back: a sleep lasts at least as long as it was asked to, and no
  request takes negative time.
\<close>

definition good_clock :: "'w env \<Rightarrow> bool" where
  "good_clock E \<longleftrightarrow>
     (\<forall>d w. env_Now E w + d \<le> env_Now E (env_Sleep E d w)) \<and>
     (\<forall>rq w. env_Now E w \<le> env_Now E (snd (env_Http E rq w)))"

text \<open>Every URL the client puts together is one \<open>http.NewRequest\<close> accepts.\<close>

definition builds_requests :: "'w env \<Rightarrow> bool" where
  "builds_requests E \<longleftrightarrow> (\<forall>u. env_NewRequestErr E u = None)"

definition steady :: "'w env \<Rightarrow> 'w drv \<Rightarrow> 'w drv \<Rightarrow> bool" where
  "steady E s s' \<longleftrightarrow> env_Now E (d_world s) \<le> env_Now E (d_world s') \<and> d_panic s' = d_panic s"

interpretation stdy: state_frame "steady E" for E
  by unfold_locales (auto simp: steady_def)

lemma steady_call: "(\<And>w. env_Now E w \<le> env_Now E (snd (f w))) \<Longrightarrow> state_io_rel (steady E) (call ev f)"
  by (auto simp: keep_iff_wp wp_rules steady_def)

lemma http_Do_steady: "good_clock E \<Longrightarrow> state_io_rel (steady E) (http_Do E rq)"
  by (auto simp: keep_iff_wp http_Do_def wp_rules steady_def good_clock_def)

lemma doRequest_steady: "good_clock E \<Longrightarrow> state_io_rel (steady E) (doRequest E rq)"
  unfolding doRequest_def EnsureLogin_def Let_def by (intro frame_intros http_Do_steady)

lemma generateRequest_builds: "builds_requests E \<Longrightarrow> \<exists>rq. generateRequest E v u b = Inr rq"
  by (simp add: builds_requests_def generateRequest_def)

definition task_result_ok :: "task_result \<Rightarrow> bool" where
  "task_result_ok r = (case r of (task, success, err) \<Rightarrow>
     success \<longrightarrow> tk_Status task = taskStatusCompleted \<and> err = None)"

lemma task_result_ok_False [simp]: "task_result_ok (t, False, e)"
  by (simp add: task_result_ok_def)

lemma poll_answer_ok: "poll_answer E task r = Inl res \<Longrightarrow> task_result_ok res"
  by (auto simp: poll_answer_def task_result_ok_def split: sum.splits prod.splits option.splits if_splits)

lemma poll_interval_ge: "taskPollFastInterval \<le> poll_interval e"
  by (simp add: poll_interval_def taskPollFastInterval_def taskPollSlowInterval_def second_def)

lemma task_poll_returns:
  assumes clock: "good_clock E" and bld: "env_NewRequestErr E (env_Endpoint E @ BasePath @ ''/tasks/'' @ taskId) = None"
    and "startTime + taskPollTimeout \<le> env_Now E (d_world s) + int n * taskPollFastInterval"
  shows "wp (task_poll (Suc n) E startTime taskId task)
    (\<lambda>r s'. d_panic s' = d_panic s \<and> (\<exists>res. r = Some res \<and> task_result_ok res)) s"
  using assms(3)
proof (induction n arbitrary: s task)
  case 0
  then show ?case by (auto simp: wp_rules)
next
  case (Suc n)
  obtain rq where rq: "generateRequest E ''GET'' (''/tasks/'' @ taskId) [] = Inr rq"
    using bld by (simp add: generateRequest_def)
  let ?d = "poll_interval (env_Now E (d_world s) - startTime)"
  let ?s1 = "s\<lparr>d_world := env_Sleep E ?d (d_world s), d_trace := Ev_Sleep ?d # d_trace s\<rparr>"
  have slept: "env_Now E (d_world s) + taskPollFastInterval \<le> env_Now E (d_world ?s1)"
    using clock poll_interval_ge [of "env_Now E (d_world s) - startTime"]
    by (auto simp: good_clock_def intro: order_trans [OF add_left_mono])
  have "wp (doRequest E rq) (\<lambda>r s'. steady E ?s1 s') ?s1"
    using doRequest_steady [OF clock] by (rule stdy.keep_wp)
  then have "wp (doRequest E rq) (\<lambda>r. wp (case poll_answer E task r of
        Inl res \<Rightarrow> ret (Some res) | Inr task' \<Rightarrow> task_poll (Suc n) E startTime taskId task')
      (\<lambda>r s'. d_panic s' = d_panic s \<and> (\<exists>res. r = Some res \<and> task_result_ok res))) ?s1"
  proof (rule wp_mono)
    fix r s2
    assume st: "steady E ?s1 s2"
    have "startTime + taskPollTimeout \<le> env_Now E (d_world s2) + int n * taskPollFastInterval"
      using Suc.prems slept st by (simp add: steady_def algebra_simps)
    from Suc.IH [OF this] st poll_answer_ok
    show "wp (case poll_answer E task r of Inl res \<Rightarrow> ret (Some res)
        | Inr task' \<Rightarrow> task_poll (Suc n) E startTime taskId task')
      (\<lambda>r s'. d_panic s' = d_panic s \<and> (\<exists>res. r = Some res \<and> task_result_ok res)) s2"
      by (auto simp: wp_rules steady_def split: sum.splits simp del: task_poll.simps)
  qed
  then show ?case unfolding task_poll.simps(2) [of "Suc n"]
    by (auto simp: wp_rules rq [simplified] Sleep_def simp del: task_poll.simps)
qed

lemma poll_fuel_enough:
  "startTime + taskPollTimeout \<le> startTime + int 1800 * taskPollFastInterval"
  by (simp add: taskPollTimeout_def taskPollFastInterval_def)

text \<open>A clock by which a request takes at most \<open>R\<close> and a sleep at most \<open>L\<close> longer than it was asked to.\<close>

definition bounded_clock :: "'w env \<Rightarrow> int \<Rightarrow> int \<Rightarrow> bool" where
  "bounded_clock E R L \<longleftrightarrow> 0 \<le> R \<and>
     (\<forall>d w. env_Now E (env_Sleep E d w) \<le> env_Now E w + max 0 d + L) \<and>
     (\<forall>rq w. env_Now E (snd (env_Http E rq w)) \<le> env_Now E w + R)"

text \<open>The request is sent at most twice, with a login in between.\<close>

lemma doRequest_in_time:
  assumes "bounded_clock E R L"
  shows "wp (doRequest E rq) (\<lambda>_ t. env_Now E (d_world t) \<le> env_Now E (d_world s) + 3 * R) s"
proof -
  have http: "env_Now E (snd (env_Http E q w)) \<le> env_Now E w + R" for q w
    using assms by (simp add: bounded_clock_def)
  have one: "wp (http_Do E q) (\<lambda>_ t. env_Now E (d_world t) \<le> env_Now E (d_world s) + R) s" for q s
    using http by (simp add: http_Do_def wp_rules)
  have login: "wp (EnsureLogin E) (\<lambda>_ t. env_Now E (d_world t) \<le> env_Now E (d_world s) + R) s" for s
    unfolding EnsureLogin_def Let_def wp_tryE
    by (rule wp_mono [OF one]) (auto simp: wp_rules split: sum.splits option.splits)
  have retry: "wp (State_Monad.bind (EnsureLogin E) (\<lambda>_. tryE (http_Do E rq) id (\<lambda>resp2. ret (read_response resp2))))
      (\<lambda>_ t. env_Now E (d_world t) \<le> env_Now E (d_world s) + 3 * R) u"
    if "env_Now E (d_world u) \<le> env_Now E (d_world s) + R" for u
    unfolding wp_bind wp_tryE
    by (rule wp_mono [OF login], rule wp_mono [OF one]) (use that in \<open>auto simp: wp_rules split: sum.splits\<close>)
  have "0 \<le> R" using assms by (simp add: bounded_clock_def)
  then show ?thesis unfolding doRequest_def wp_tryE [of "http_Do E rq"]
    by (intro wp_mono [OF one]) (auto simp: wp_return retry split: sum.splits)
qed

lemma poll_interval_le: "max 0 (poll_interval e) \<le> taskPollSlowInterval"
  by (simp add: poll_interval_def taskPollFastInterval_def taskPollSlowInterval_def second_def)

lemma task_poll_in_time:
  assumes clock: "bounded_clock E R L" and bound: "B = startTime + taskPollTimeout + taskPollSlowInterval + L + 3 * R"
    and "env_Now E (d_world s) \<le> B"
  shows "wp (task_poll n E startTime taskId task) (\<lambda>_ t. env_Now E (d_world t) \<le> B) s"
  using assms(3)
proof (induction n arbitrary: s task)
  case (Suc n)
  show ?case
  proof (cases "env_Now E (d_world s) - startTime < taskPollTimeout")
    case True
    let ?d = "poll_interval (env_Now E (d_world s) - startTime)"
    let ?s1 = "s\<lparr>d_world := env_Sleep E ?d (d_world s), d_trace := Ev_Sleep ?d # d_trace s\<rparr>"
    have "env_Now E (env_Sleep E ?d (d_world s)) \<le> env_Now E (d_world s) + max 0 ?d + L"
      using clock by (simp only: bounded_clock_def)
    then have slept: "env_Now E (env_Sleep E ?d (d_world s)) + 3 * R \<le> B"
      using True bound poll_interval_le [of "env_Now E (d_world s) - startTime"] by linarith
    have "0 \<le> R" using clock by (simp add: bounded_clock_def)
    with slept have now1: "env_Now E (d_world ?s1) \<le> B" by simp
    have "wp (doRequest E rq) (\<lambda>_ t. env_Now E (d_world t) \<le> B) ?s1" for rq
      by (rule wp_mono [OF doRequest_in_time [OF clock]]) (use slept in simp)
    then have "wp (doRequest E rq) (\<lambda>r. wp (case poll_answer E task r of
        Inl res \<Rightarrow> ret (Some res) | Inr task' \<Rightarrow> task_poll n E startTime taskId task')
      (\<lambda>_ t. env_Now E (d_world t) \<le> B)) ?s1" for rq
      by (rule wp_mono) (auto simp: wp_return Suc.IH split: sum.splits)
    then show ?thesis using True now1
      by (auto simp: wp_rules Sleep_def go_panic_def split: sum.splits)
  next
    case False
    then show ?thesis using Suc.prems by (simp add: wp_rules)
  qed
qed (simp add: wp_rules)

text \<open>C19. Waiting for a task of the service ends. Take a task location that parses as a URL, whose task URL is one that
  \<open>http.NewRequest\<close> accepts, and a clock that runs forward. Then the polling loop returns, without a panic, and reports
  success only for a task whose last status is COMPLETED, with no error; and when a request takes at most \<open>R\<close> and a sleep
  at most \<open>L\<close> longer than asked, it returns within the time limit of an hour, one poll interval, \<open>L\<close> and three
  requests, the last one sent twice with a login in between.\<close>

theorem task_wait_ends:
  assumes "good_clock E" and "env_TaskPath E loc = Some p"
    and "env_NewRequestErr E (env_Endpoint E @ BasePath @ ''/tasks/'' @ path_base p) = None"
  shows "wp (WaitForTaskCompletionResult E loc) (\<lambda>r s'. d_panic s' = d_panic s \<and> task_result_ok r \<and>
    (\<forall>R L. bounded_clock E R L \<and> 0 \<le> L \<longrightarrow>
       env_Now E (d_world s') \<le> env_Now E (d_world s) + taskPollTimeout + taskPollSlowInterval + L + 3 * R)) s"
proof -
  let ?poll = "task_poll poll_fuel E (env_Now E (d_world s)) (path_base p) zero_Task"
  have "poll_fuel = Suc 1800" by (simp add: poll_fuel_def)
  with task_poll_returns [OF assms(1,3), of "env_Now E (d_world s)" s 1800 zero_Task]
  have ends: "wp ?poll (\<lambda>r s'. d_panic s' = d_panic s \<and> (\<exists>res. r = Some res \<and> task_result_ok res)) s"
    using poll_fuel_enough by simp
  have "wp ?poll (\<lambda>_ s'. env_Now E (d_world s') \<le> env_Now E (d_world s) + taskPollTimeout + taskPollSlowInterval + L + 3 * R) s"
    if "bounded_clock E R L" "0 \<le> L" for R L
    by (rule task_poll_in_time [OF that(1) refl])
      (use that in \<open>simp add: bounded_clock_def taskPollTimeout_def taskPollSlowInterval_def second_def\<close>)
  then have "wp ?poll (\<lambda>_ s'. \<forall>R L. bounded_clock E R L \<and> 0 \<le> L \<longrightarrow>
      env_Now E (d_world s') \<le> env_Now E (d_world s) + taskPollTimeout + taskPollSlowInterval + L + 3 * R) s"
    by (simp add: wp_iff)
  from wp_conj [OF ends this] show ?thesis
    unfolding WaitForTaskCompletionResult_def assms(2) option.case wp_bind wp_now
    by (rule wp_mono) (auto simp: wp_rules)
qed

theorem task_wait_ends_witness:
  "wp (WaitForTaskCompletionResult sample_env ''/tasks/7'')
     (\<lambda>r s'. d_panic s' = None \<and> task_result_ok r \<and> env_Now sample_env (d_world s') \<le> taskPollTimeout + taskPollSlowInterval) (init_drv 0)"
proof -
  have "good_clock sample_env" and "bounded_clock sample_env 0 0"
    by (simp_all add: good_clock_def bounded_clock_def sample_env_def)
  then show ?thesis
    using task_wait_ends [of sample_env "''/tasks/7''" "''/tasks/7''" "init_drv 0"]
    by (fastforce simp: wp_iff init_drv_def sample_env_def)
qed

section \<open>Data portals and floating IPs\<close>

text \<open>Portals on the node come before all others.\<close>

definition colocated_first :: "string \<Rightarrow> DataPortal list \<Rightarrow> bool" where
  "colocated_first n ps \<longleftrightarrow> sorted_wrt (\<lambda>p q. dp_NodeName q = n \<longrightarrow> dp_NodeName p = n) ps"

text \<open>The data portals offered for a mount are exactly the ones the service reports as up for NFS,
  each as often as reported, with those on the node itself first.\<close>

theorem data_portal_order:
  "fst (run_state (GetDataPortals E n) s) =
     (case fst (run_state (dataPortals E) s) of
        Inl e \<Rightarrow> Inl e | Inr ps \<Rightarrow> Inr (sort_portals n (filter portal_up ps))) \<and>
   mset (sort_portals n ps) = mset ps \<and> colocated_first n (sort_portals n ps)"
  unfolding sort_portals_def mset_partition colocated_first_def
  by (auto simp: GetDataPortals_def upDataPortals_def tryE_def sorted_wrt_partition sort_portals_def
      split: prod.splits sum.splits)

text \<open>The health checks of a list of addresses, one after another.\<close>

fun health :: "'w env \<Rightarrow> string list \<Rightarrow> 'w drv \<Rightarrow> (string \<times> bool) list" where
  "health E [] s = []"
| "health E (x # xs) s = (case run_state (CheckNFSExports E x) s of
     (r, t) \<Rightarrow> (x, r = Inr True) # health E xs t)"

text \<open>The floating IP chosen is the first healthy address in the order given, and an error when none
  is healthy.\<close>

theorem first_healthy_first:
  "fst (run_state (first_healthy E xs) s) =
     (case filter snd (health E xs s) of
        [] \<Rightarrow> Inl (new_error ''no valid floating IPs found'')
      | h # _ \<Rightarrow> Inr (fst h))"
proof (induction xs arbitrary: s)
  case Nil
  then show ?case by simp
next
  case (Cons x xs)
  then show ?case by (auto split: prod.splits sum.splits)
qed

section \<open>Running tasks\<close>

definition running_message :: "string \<Rightarrow> string \<Rightarrow> string" where
  "running_message action i = task_lead @ action @ task_mid @ i @ [CHR 0x27]"

lemma has_prefix_Nil_iff: "has_prefix s (c # p) \<longleftrightarrow> (case s of [] \<Rightarrow> False | d # r \<Rightarrow> d = c \<and> has_prefix r p)"
  by (cases s) (auto simp: has_prefix_def)

lemma takeWhile_dropWhile_stop:
  assumes "list_all P xs" and "\<not> P y"
  shows "takeWhile P (xs @ y # zs) = xs" and "dropWhile P (xs @ y # zs) = y # zs"
  using assms by (auto simp: list_all_iff takeWhile_append dropWhile_append)

lemma quote_no_char: "\<not> is_action_char (CHR 0x27)" "\<not> is_id_char (CHR 0x27)"
  by (simp_all add: is_action_char_def is_id_char_def)

lemma match_runningI:
  assumes "action \<noteq> []" and "list_all is_action_char action" and "i \<noteq> []" and "list_all is_id_char i"
    and lead: "has_prefix s task_lead"
    and rest: "drop (length task_lead) s = action @ task_mid @ i @ CHR 0x27 # post"
  shows "match_running s = Some (action, i, post)"
proof -
  have 1: "takeWhile is_action_char (action @ task_mid @ r) = action"
    "dropWhile is_action_char (action @ task_mid @ r) = task_mid @ r" for r
    using takeWhile_dropWhile_stop [OF assms(2) quote_no_char(1)] by (simp_all add: task_mid_def)
  have 2: "takeWhile is_id_char (i @ CHR 0x27 # post) = i"
    "dropWhile is_id_char (i @ CHR 0x27 # post) = CHR 0x27 # post"
    using takeWhile_dropWhile_stop [OF assms(4) quote_no_char(2)] by simp_all
  have 3: "has_prefix (CHR 0x27 # post) [CHR 0x27]" by (simp add: has_prefix_def)
  show ?thesis unfolding match_running_def using assms(1,3) by (simp add: lead rest 1 2 3)
qed

lemma match_running_message:
  assumes "action \<noteq> []" and "list_all is_action_char action" and "i \<noteq> []" and "list_all is_id_char i"
  shows "match_running (running_message action i @ post) = Some (action, i, post)"
  using assms by (rule match_runningI) (simp_all add: running_message_def)

lemma match_running_lead: "\<not> has_prefix s task_lead \<Longrightarrow> match_running s = None"
  by (simp add: match_running_def)

lemma find_running_skip:
  assumes "CHR ''T'' \<notin> set pre"
  shows "find_running (pre @ s) = find_running s"
  using assms
proof (induction pre)
  case Nil
  then show ?case by simp
next
  case (Cons c pre)
  have "\<not> has_prefix ((c # pre) @ s) task_lead"
    using Cons.prems by (auto simp: task_lead_def has_prefix_Nil_iff)
  then show ?case using Cons find_running.simps [of "(c # pre) @ s"] by (simp add: match_running_lead)
qed

text \<open>The ID of a running task is found in the service's message: wherever the sentence stands in the
  answer, as long as no capital T comes before it, the ID is read back for the action it names.\<close>

theorem running_task_found:
  assumes "action \<noteq> []" and "list_all is_action_char action" and "i \<noteq> []" and "list_all is_id_char i"
    and "CHR ''T'' \<notin> set pre"
  shows "runningTaskID (pre @ running_message action i @ post) action = i"
proof -
  have "find_running (pre @ running_message action i @ post) = (action, i) # find_running post"
    using match_running_message [OF assms(1-4)] find_running.simps [of "running_message action i @ post"]
    by (simp add: find_running_skip assms(5))
  then show ?thesis by (simp add: runningTaskID_def)
qed

theorem running_task_found_witness:
  "runningTaskID (''error: '' @ running_message ''share-delete'' ''4a-0f'' @ ''.'') ''share-delete'' = ''4a-0f''"
  by (rule running_task_found) (simp_all add: is_action_char_def is_id_char_def)

section \<open>Snapshot timestamps\<close>

record date_time =
  dt_year :: string
  dt_month :: string
  dt_day :: string
  dt_hour :: string
  dt_minute :: string
  dt_second :: string

definition valid_date :: "date_time \<Rightarrow> bool" where
  "valid_date t \<longleftrightarrow> length (dt_year t) = 4 \<and> length (dt_month t) = 2 \<and> length (dt_day t) = 2 \<and>
     list_all is_digit (dt_year t @ dt_month t @ dt_day t @ dt_hour t @ dt_minute t @ dt_second t)"

definition date_string :: "date_time \<Rightarrow> string" where
  "date_string t = dt_year t @ ''-'' @ dt_month t @ ''-'' @ dt_day t @ ''T'' @ dt_hour t @ ''-'' @
     dt_minute t @ ''-'' @ dt_second t"

lemma digit_no_dash: "is_digit c \<Longrightarrow> c \<noteq> CHR ''-'' \<and> c \<noteq> CHR ''/'' \<and> c \<noteq> CHR ''T''"
  by (auto simp: is_digit_def digit_val_def split: if_splits)

lemma digits_no_dash: "list_all is_digit s \<Longrightarrow> CHR ''-'' \<notin> set s \<and> CHR ''/'' \<notin> set s"
  using digit_no_dash by (auto simp: list_all_iff)

lemma length_digits:
  "length s = 4 \<Longrightarrow> list_all is_digit s \<Longrightarrow>
     \<exists>a b c d. s = [a, b, c, d] \<and> is_digit a \<and> is_digit b \<and> is_digit c \<and> is_digit d"
  "length s = 2 \<Longrightarrow> list_all is_digit s \<Longrightarrow> \<exists>a b. s = [a, b] \<and> is_digit a \<and> is_digit b"
  by (auto simp: numeral_eq_Suc length_Suc_conv)

lemma date_lead:
  assumes "valid_date t"
  shows "timestamp_lead (date_string t @ r)"
proof -
  obtain a b c d where y: "dt_year t = [a, b, c, d]" "is_digit a" "is_digit b" "is_digit c" "is_digit d"
    using assms length_digits(1) [of "dt_year t"] by (auto simp: valid_date_def)
  obtain e f where m: "dt_month t = [e, f]" "is_digit e" "is_digit f"
    using assms length_digits(2) [of "dt_month t"] by (auto simp: valid_date_def)
  obtain g h where d: "dt_day t = [g, h]" "is_digit g" "is_digit h"
    using assms length_digits(2) [of "dt_day t"] by (auto simp: valid_date_def)
  show ?thesis using y m d by (simp add: timestamp_lead_def date_string_def)
qed

lemma timestamp_of_date:
  assumes "valid_date t" and "r = [] \<or> hd r = CHR ''-''"
  shows "timestamp_of (date_string t @ r) = Some (date_string t)"
proof -
  note d = assms(1) [unfolded valid_date_def list_all_append] 
  have nd: "CHR ''-'' \<notin> set (dt_year t)" "CHR ''-'' \<notin> set (dt_month t)"
    "CHR ''-'' \<notin> set (dt_day t @ ''T'' @ dt_hour t)" "CHR ''-'' \<notin> set (dt_minute t)" "CHR ''-'' \<notin> set (dt_second t)"
    using d digits_no_dash by auto
  have 6: "6 = Suc (Suc (Suc (Suc (Suc (Suc 0)))))" by simp
  have cut: "split_n 6 (CHR ''-'') (date_string t @ r) =
     [dt_year t, dt_month t, dt_day t @ ''T'' @ dt_hour t, dt_minute t] @ split_n 2 (CHR ''-'') (dt_second t @ r)"
    using split_n_append [OF nd(1)] split_n_append [OF nd(2)] split_n_append [OF nd(3)] split_n_append [OF nd(4)]
    unfolding 6 date_string_def by (simp add: numeral_2_eq_2 del: split_n.simps)
  have tail: "take 1 (split_n 2 (CHR ''-'') (dt_second t @ r)) = [dt_second t] \<and> split_n 2 (CHR ''-'') (dt_second t @ r) \<noteq> []"
  proof (cases r)
    case Nil
    then show ?thesis using split_n_last [OF nd(5), of 1] by (simp add: numeral_2_eq_2 del: split_n.simps)
  next
    case (Cons c r')
    with assms(2) have "c = CHR ''-''" by simp
    with Cons show ?thesis using split_n_append [OF nd(5), of 0 r'] by (simp add: numeral_2_eq_2 del: split_n.simps)
  qed
  obtain x xs where x: "split_n 2 (CHR ''-'') (dt_second t @ r) = x # xs" "x = dt_second t"
    using tail by (cases "split_n 2 (CHR ''-'') (dt_second t @ r)") auto
  show ?thesis unfolding timestamp_of_def cut x
    using date_lead [OF assms(1)] by (simp add: date_string_def)
qed

text \<open>The date-time expression that deleting a file snapshot needs is found in its path: in the last
  component, or in the one before when the last is a file name that does not start like a date;
  whatever follows the seconds is cut off.\<close>

theorem file_snapshot_timestamp_found:
  assumes "valid_date t" and "r = [] \<or> hd r = CHR ''-''" and "CHR ''/'' \<notin> set r"
    and "segment f" and "\<not> timestamp_lead f"
  shows "fileSnapshotTimestamp (dir @ ''/'' @ date_string t @ r) = Inr (date_string t) \<and>
    fileSnapshotTimestamp (''/'' @ date_string t @ r @ ''/'' @ f) = Inr (date_string t)"
proof -
  have "CHR ''/'' \<notin> set (dt_year t)" "CHR ''/'' \<notin> set (dt_month t)" "CHR ''/'' \<notin> set (dt_day t)"
    "CHR ''/'' \<notin> set (dt_hour t)" "CHR ''/'' \<notin> set (dt_minute t)" "CHR ''/'' \<notin> set (dt_second t)"
    using assms(1) digits_no_dash by (simp_all add: valid_date_def)
  then have "CHR ''/'' \<notin> set (date_string t @ r)" using assms(3) by (simp add: date_string_def)
  moreover have "2 < length (date_string t @ r)" using assms(1) by (simp add: valid_date_def date_string_def)
  ultimately have seg: "segment (date_string t @ r)" unfolding segment_def by fastforce
  note ns = segment_simps(2,1) [OF seg]
  have 1: "path_base (dir @ ''/'' @ date_string t @ r) = date_string t @ r"
    using path_base_slash [OF ns, of dir] by simp
  note f = segment_simps(2,1) [OF assms(4)]
  have 2: "path_base (''/'' @ date_string t @ r @ ''/'' @ f) = f"
    using path_base_slash [OF f, of "''/'' @ date_string t @ r"] by simp
  have 3: "path_dir (''/'' @ date_string t @ r @ ''/'' @ f) = CHR ''/'' # date_string t @ r"
    using path_dir_nested [of "date_string t @ r" f] seg assms(4) by simp
  have 4: "path_base (CHR ''/'' # date_string t @ r) = date_string t @ r"
    using path_base_slash [OF ns, of "[]"] by simp
  show ?thesis unfolding fileSnapshotTimestamp_def 1 2 3 4 timestamp_of_date [OF assms(1,2)]
    using assms(5) by (simp add: timestamp_of_def)
qed

theorem file_snapshot_timestamp_found_witness:
  "fileSnapshotTimestamp (''/share/.fsnapshot/f'' @ ''/'' @ ''2026-09-23T08-25-16'' @ ''-0644-0'')
     = Inr ''2026-09-23T08-25-16''"
proof -
  let ?t = "\<lparr>dt_year = ''2026'', dt_month = ''09'', dt_day = ''23'', dt_hour = ''08'', dt_minute = ''25'',
    dt_second = ''16''\<rparr>"
  have "valid_date ?t" by (simp add: valid_date_def is_digit_def digit_val_def)
  moreover have "date_string ?t = ''2026-09-23T08-25-16''" by (simp add: date_string_def)
  ultimately show ?thesis
    using file_snapshot_timestamp_found [of ?t "''-0644-0''" "''f''" "''/share/.fsnapshot/f''"]
    by (simp add: segment_def timestamp_lead_def)
qed

end
