(* ===== verification/Locks.thy ===== *)
theory Locks
  imports Client
begin

text \<open>
  The keyed locks and the mount slots of \<open>pkg/driver/driver.go\<close>, and the per-directory mutexes of
  \<open>mountLockFor\<close> (\<open>pkg/driver/utils.go\<close>).

  The model runs one call at a time. The sets of the state hold the keys this call holds;
  whether a key held by another call comes free within the 30 second timeout is the
  environment's answer. A key the call itself already holds cannot come free, so acquiring it
  again times out (a volume or snapshot lock) or never returns (a mutex).

  The interface \<open>keyed_lock\<close> states what a holder relies on; its lemma is that a body run under
  the lock leaves exactly the keys that were held before, whatever the body returns.
\<close>

section \<open>Volume and snapshot locks\<close>

definition lock_error :: "string \<Rightarrow> string \<Rightarrow> go_error" where
  "lock_error kind k = status_error Aborted (''could not acquire '' @ kind @ '' lock for '' @ k @
     '': context deadline exceeded'')"

definition acquireVolumeLock :: "'w env \<Rightarrow> string \<Rightarrow> ('w, unit res) go" where
  "acquireVolumeLock E volID = do {
     held \<leftarrow> gets (\<lambda>s. volID \<in> d_volumeLocks s);
     free \<leftarrow> call (Ev_Query ''lock'' volID) (env_LockWait E volID);
     if \<not> held \<and> free then do {
       modify (\<lambda>s. s\<lparr>d_volumeLocks := insert volID (d_volumeLocks s)\<rparr>);
       ok ()
     } else fail (lock_error ''volume'' volID)
   }"

definition releaseVolumeLock :: "string \<Rightarrow> ('w, unit) go" where
  "releaseVolumeLock volID = modify (\<lambda>s. s\<lparr>d_volumeLocks := d_volumeLocks s - {volID}\<rparr>)"

definition acquireRootMountLock :: "'w env \<Rightarrow> ('w, unit res) go" where
  "acquireRootMountLock E = acquireVolumeLock E BaseBackingShareMountPath"

definition acquireSnapshotLock :: "'w env \<Rightarrow> string \<Rightarrow> ('w, unit res) go" where
  "acquireSnapshotLock E snapID = do {
     held \<leftarrow> gets (\<lambda>s. snapID \<in> d_snapshotLocks s);
     free \<leftarrow> call (Ev_Query ''lock'' snapID) (env_LockWait E snapID);
     if \<not> held \<and> free then do {
       modify (\<lambda>s. s\<lparr>d_snapshotLocks := insert snapID (d_snapshotLocks s)\<rparr>);
       ok ()
     } else fail (lock_error ''snapshot'' snapID)
   }"

definition releaseSnapshotLock :: "string \<Rightarrow> ('w, unit) go" where
  "releaseSnapshotLock snapID = modify (\<lambda>s. s\<lparr>d_snapshotLocks := d_snapshotLocks s - {snapID}\<rparr>)"

text \<open>\<open>unlock, err := acquire(...); if err != nil { return err }; defer unlock()\<close>.\<close>

definition with_volume_lock :: "'w env \<Rightarrow> string \<Rightarrow> ('w, 'a res) go \<Rightarrow> ('w, 'a res) go" where
  "with_volume_lock E k body = tryE (acquireVolumeLock E k) id (\<lambda>_. deferring (releaseVolumeLock k) body)"

definition with_snapshot_lock :: "'w env \<Rightarrow> string \<Rightarrow> ('w, 'a res) go \<Rightarrow> ('w, 'a res) go" where
  "with_snapshot_lock E k body =
     tryE (acquireSnapshotLock E k) id (\<lambda>_. deferring (releaseSnapshotLock k) body)"

section \<open>Mount mutexes\<close>

definition mount_Lock :: "string \<Rightarrow> ('w, unit res) go" where
  "mount_Lock dir = do {
     held \<leftarrow> gets (\<lambda>s. dir \<in> d_mountLocks s);
     if held then go_panic ''deadlock''
     else do {
       modify (\<lambda>s. s\<lparr>d_mountLocks := insert dir (d_mountLocks s)\<rparr>);
       ok ()
     }
   }"

definition mount_Unlock :: "string \<Rightarrow> ('w, unit) go" where
  "mount_Unlock dir = modify (\<lambda>s. s\<lparr>d_mountLocks := d_mountLocks s - {dir}\<rparr>)"

definition with_mount_lock :: "string \<Rightarrow> ('w, 'a res) go \<Rightarrow> ('w, 'a res) go" where
  "with_mount_lock dir body = tryE (mount_Lock dir) id (\<lambda>_. deferring (mount_Unlock dir) body)"

section \<open>Mount slots\<close>

definition defaultMaxConcurrentNFSMounts :: int where "defaultMaxConcurrentNFSMounts = 10"

definition maxConcurrentNFSMounts :: "'w env \<Rightarrow> int" where
  "maxConcurrentNFSMounts E =
     (let v = env_Getenv E ''MAX_CONCURRENT_NFS_MOUNTS'' in
      if v = [] then defaultMaxConcurrentNFSMounts
      else (case ParseInt v of
        None \<Rightarrow> defaultMaxConcurrentNFSMounts
      | Some n \<Rightarrow> if n < 1 then defaultMaxConcurrentNFSMounts else n))"

definition acquireMountSlot :: "'w env \<Rightarrow> ('w, unit res) go" where
  "acquireMountSlot E =
     (case env_MountSlots E of
        None \<Rightarrow> ok ()
      | Some n \<Rightarrow> do {
          full \<leftarrow> gets (\<lambda>s. n \<le> d_mountSlots s);
          free \<leftarrow> call (Ev_Query ''slot'' []) (env_SlotWait E);
          if \<not> full \<and> free then do {
            modify (\<lambda>s. s\<lparr>d_mountSlots := Suc (d_mountSlots s)\<rparr>);
            ok ()
          } else fail (status_error Aborted
            ''timed out waiting for an NFS mount slot: context deadline exceeded'')
        })"

definition releaseMountSlot :: "'w env \<Rightarrow> ('w, unit) go" where
  "releaseMountSlot E =
     (case env_MountSlots E of
        None \<Rightarrow> ret ()
      | Some n \<Rightarrow> modify (\<lambda>s. s\<lparr>d_mountSlots := d_mountSlots s - 1\<rparr>))"

definition with_mount_slot :: "'w env \<Rightarrow> ('w, 'a res) go \<Rightarrow> ('w, 'a res) go" where
  "with_mount_slot E body = tryE (acquireMountSlot E) id (\<lambda>_. deferring (releaseMountSlot E) body)"

section \<open>The interface of a lock\<close>

text \<open>
  A resource with keys: acquiring either fails and holds nothing new, or adds a key that was not
  held; releasing takes the key back. \<open>rest\<close> is what neither touches.
\<close>

locale keyed_lock =
  fixes acquire :: "'k \<Rightarrow> ('s, 'e + unit) state"
    and release :: "'k \<Rightarrow> ('s, unit) state"
    and held :: "'s \<Rightarrow> 'k set"
    and rest :: "'s \<Rightarrow> 'r"
  assumes acquire_ok: "wp (acquire k) (\<lambda>r s'. rest s' = rest s \<and>
      (case r of Inl e \<Rightarrow> held s' = held s
       | Inr u \<Rightarrow> k \<notin> held s \<and> held s' = insert k (held s))) s"
    and release_ok: "wp (release k) (\<lambda>_ s'. rest s' = rest s \<and> held s' = held s - {k}) s"
begin

lemma balanced:
  assumes body: "\<And>t. wp body (\<lambda>_ t'. held t' = held t \<and> rest t' = rest t) t"
  shows "wp (tryE (acquire k) id (\<lambda>_. deferring (release k) body))
    (\<lambda>_ s'. held s' = held s \<and> rest s' = rest s) s"
proof -
  have rel: "wp (release k) (\<lambda>_ u. held u = held s \<and> rest u = rest s) t'"
    if "rest t' = rest s" and "held t' = insert k (held s)" and "k \<notin> held s" for t'
    using release_ok [of k t'] by (rule wp_mono) (use that in auto)
  have dfr: "wp (deferring (release k) body) (\<lambda>_ u. held u = held s \<and> rest u = rest s) t"
    if "rest t = rest s" and "held t = insert k (held s)" and "k \<notin> held s" for t
    unfolding wp_deferring using body [of t] by (rule wp_mono) (use that in \<open>auto intro: rel\<close>)
  show ?thesis unfolding wp_tryE using acquire_ok [of k s]
    by (rule wp_mono) (auto split: sum.splits intro: dfr)
qed

lemma exclusive:
  "wp (acquire k) (\<lambda>r s'. k \<in> held s \<longrightarrow> (\<exists>e. r = Inl e)) s"
  using acquire_ok [of k s] by (rule wp_mono) (auto split: sum.splits)

end

interpretation vol_lock: keyed_lock "acquireVolumeLock E" releaseVolumeLock d_volumeLocks
    "\<lambda>s. (d_snapshotLocks s, d_mountLocks s)" for E
  by unfold_locales (auto simp: acquireVolumeLock_def releaseVolumeLock_def wp_rules)

interpretation snap_lock: keyed_lock "acquireSnapshotLock E" releaseSnapshotLock d_snapshotLocks
    "\<lambda>s. (d_volumeLocks s, d_mountLocks s)" for E
  by unfold_locales (auto simp: acquireSnapshotLock_def releaseSnapshotLock_def wp_rules)

interpretation mnt_lock: keyed_lock mount_Lock mount_Unlock d_mountLocks
    "\<lambda>s. (d_volumeLocks s, d_snapshotLocks s)"
  by unfold_locales (auto simp: mount_Lock_def mount_Unlock_def go_panic_def wp_rules)

section \<open>Frames\<close>

lemma with_locks_same_locks [frame_intros]:
  assumes "state_io_rel same_locks body"
  shows "state_io_rel same_locks (with_volume_lock E k body)"
    and "state_io_rel same_locks (with_snapshot_lock E k body)"
    and "state_io_rel same_locks (with_mount_lock k body)"
proof -
  have body: "wp body (\<lambda>_ t'. same_locks t t') t" for t
    using assms by (simp add: keep_iff_wp)
  show "state_io_rel same_locks (with_volume_lock E k body)"
    using vol_lock.balanced [of body E k] body
    by (auto simp: keep_iff_wp with_volume_lock_def same_locks_def wp_iff)
  show "state_io_rel same_locks (with_snapshot_lock E k body)"
    using snap_lock.balanced [of body E k] body
    by (auto simp: keep_iff_wp with_snapshot_lock_def same_locks_def wp_iff)
  show "state_io_rel same_locks (with_mount_lock k body)"
    using mnt_lock.balanced [of body k] body
    by (auto simp: keep_iff_wp with_mount_lock_def same_locks_def wp_iff)
qed

lemma gives_with_volume_lock [gives_intros]: "gives P b \<Longrightarrow> gives P (with_volume_lock E k b)"
  unfolding with_volume_lock_def by (rule gives_tryE [OF gives_any]) (rule gives_deferring)

text \<open>The other relations do not see the locks.\<close>

lemma lock_ops_keep:
  assumes "R \<in> {same_refs, same_slots, same_snapshots, extends_trace}"
  shows "state_io_rel R (acquireVolumeLock E k)" and "state_io_rel R (releaseVolumeLock k)"
    and "state_io_rel R (acquireSnapshotLock E k)" and "state_io_rel R (releaseSnapshotLock k)"
    and "state_io_rel R (mount_Lock k)" and "state_io_rel R (mount_Unlock k)"
  using assms
  by (auto simp: keep_iff_wp acquireVolumeLock_def releaseVolumeLock_def acquireSnapshotLock_def
      releaseSnapshotLock_def mount_Lock_def mount_Unlock_def go_panic_def wp_rules frame_defs)

lemma with_locks_other:
  assumes R: "state_frame R" "R \<in> {same_refs, same_slots, same_snapshots, extends_trace}"
    and body: "state_io_rel R body"
  shows "state_io_rel R (with_volume_lock E k body)"
    and "state_io_rel R (with_snapshot_lock E k body)"
    and "state_io_rel R (with_mount_lock k body)"
  unfolding with_volume_lock_def with_snapshot_lock_def with_mount_lock_def
  by (intro state_frame.keep_tryE [OF R(1)] state_frame.keep_deferring [OF R(1)] body
      lock_ops_keep [OF R(2)])+

lemmas with_locks_keep [frame_intros] =
  with_locks_other [of same_refs, OF refs.state_frame_axioms, simplified]
  with_locks_other [of same_slots, OF slots.state_frame_axioms, simplified]
  with_locks_other [of same_snapshots, OF snaps.state_frame_axioms, simplified]
  with_locks_other [of extends_trace, OF tr.state_frame_axioms, simplified]

lemma slot_ops_keep:
  assumes "R \<in> {same_refs, same_locks, same_snapshots, extends_trace}"
  shows "state_io_rel R (acquireMountSlot E)" and "state_io_rel R (releaseMountSlot E)"
  using assms
  by (auto simp: keep_iff_wp acquireMountSlot_def releaseMountSlot_def wp_rules frame_defs
      split: option.splits)

lemma with_mount_slot_other:
  assumes R: "state_frame R" "R \<in> {same_refs, same_locks, same_snapshots, extends_trace}"
    and body: "state_io_rel R body"
  shows "state_io_rel R (with_mount_slot E body)"
  unfolding with_mount_slot_def
  by (intro state_frame.keep_tryE [OF R(1)] state_frame.keep_deferring [OF R(1)] body
      slot_ops_keep [OF R(2)])+

lemma with_mount_slot_same_slots:
  assumes "state_io_rel same_slots body"
  shows "state_io_rel same_slots (with_mount_slot E body)"
proof -
  have body: "d_mountSlots (snd (run_state body t)) = d_mountSlots t" for t
    using assms by (simp add: keep_iff_wp wp_iff same_slots_def)
  show ?thesis
    by (auto simp: keep_iff_wp with_mount_slot_def acquireMountSlot_def releaseMountSlot_def
        wp_rules wp_iff [of body] body same_slots_def split: option.splits)
qed

lemmas with_mount_slot_keep [frame_intros] =
  with_mount_slot_same_slots
  with_mount_slot_other [of same_refs, OF refs.state_frame_axioms, simplified]
  with_mount_slot_other [of same_locks, OF locks.state_frame_axioms, simplified]
  with_mount_slot_other [of same_snapshots, OF snaps.state_frame_axioms, simplified]
  with_mount_slot_other [of extends_trace, OF tr.state_frame_axioms, simplified]

lemma quietI:
  assumes "state_io_rel same_locks m" and "state_io_rel same_refs m" and "state_io_rel same_slots m"
    and "state_io_rel same_snapshots m" and "state_io_rel extends_trace m"
  shows "state_io_rel quiet m"
  using assms by (simp add: keep_iff_wp quiet_def wp_iff)

lemma with_quiet [frame_intros]:
  assumes "state_io_rel quiet body"
  shows "state_io_rel quiet (with_volume_lock E k body)"
    and "state_io_rel quiet (with_snapshot_lock E k body)"
    and "state_io_rel quiet (with_mount_lock k body)"
    and "state_io_rel quiet (with_mount_slot E body)"
  by (intro quietI frame_intros assms [THEN quiet_keeps(1)] assms [THEN quiet_keeps(2)]
      assms [THEN quiet_keeps(3)] assms [THEN quiet_keeps(4)] assms [THEN quiet_keeps(5)])+

end
