(* ===== verification/Volume_Ids.thy ===== *)
theory Volume_Ids
  imports Driver_State
begin

text \<open>
  Volume and snapshot identifiers (\<open>pkg/driver/utils.go\<close>). A share-backed volume is named by its
  export path \<open>/share\<close>, a file-backed volume by \<open>/share/file\<close>, a snapshot by
  \<open>name|volume ID\<close>. The interface \<open>snapshot_codec\<close> states what the controller relies on when it
  takes such an identifier apart.
\<close>

section \<open>Operations\<close>

definition IsBlockDevice :: "file_info \<Rightarrow> bool" where
  "IsBlockDevice fi \<longleftrightarrow> fi_Device fi \<and> \<not> fi_CharDevice fi"

fun IsValueInList :: "string \<Rightarrow> string list \<Rightarrow> bool" where
  "IsValueInList v [] = False"
| "IsValueInList v (x # xs) = (if x = v then True else IsValueInList v xs)"

lemma IsValueInList_iff [simp]: "IsValueInList v xs \<longleftrightarrow> v \<in> set xs"
  by (induction xs) auto

definition GetVolumeNameFromPath :: "string \<Rightarrow> string" where
  "GetVolumeNameFromPath p = path_base p"

definition shareBackedSnapshotRestoreSupported :: bool where
  "shareBackedSnapshotRestoreSupported = False"

definition isFileBackedVolumeID :: "string \<Rightarrow> bool" where
  "isFileBackedVolumeID volumeID \<longleftrightarrow> path_dir volumeID \<noteq> SharePathPrefix"

definition bad_snapshot_id :: "string \<Rightarrow> go_error" where
  "bad_snapshot_id i = new_error (ImproperlyFormattedSnapshotId i)"

definition GetSnapshotNameFromSnapshotId :: "string \<Rightarrow> string res" where
  "GetSnapshotNameFromSnapshotId snapshotId =
     (let tokens = split_on (CHR ''|'') snapshotId
      in if length tokens < 2 then Inl (bad_snapshot_id snapshotId) else Inr (tokens ! 0))"

definition GetSnapshotSourceVolumeId :: "string \<Rightarrow> string res" where
  "GetSnapshotSourceVolumeId snapshotId =
     (let tokens = split_on (CHR ''|'') snapshotId
      in if length tokens < 2 then Inl (bad_snapshot_id snapshotId) else Inr (tokens ! 1))"

definition GetShareNameFromSnapshotId :: "string \<Rightarrow> string res" where
  "GetShareNameFromSnapshotId snapshotId =
     (let tokens = split_on (CHR ''|'') snapshotId
      in if length tokens < 2 then Inl (bad_snapshot_id snapshotId) else Inr (path_base (tokens ! 1)))"

definition GetSnapshotIDFromSnapshotName :: "string \<Rightarrow> string \<Rightarrow> string" where
  "GetSnapshotIDFromSnapshotName hsSnapName sourceVolumeID = hsSnapName @ ''|'' @ sourceVolumeID"

definition GetHashedMarkerPath :: "'w env \<Rightarrow> string \<Rightarrow> string \<Rightarrow> string" where
  "GetHashedMarkerPath E baseDir volumeID =
     path_join [baseDir, env_Sha256Hex E volumeID @ ''.marker'']"

definition IsAnyVolumeStillMounted :: "'w env \<Rightarrow> string \<Rightarrow> ('w, bool) go" where
  "IsAnyVolumeStillMounted E baseMarkerDir = do {
     r \<leftarrow> call (Ev_Query ''readdir'' baseMarkerDir) (env_ReadDir E baseMarkerDir);
     ret (case r of Inl _ \<Rightarrow> False | Inr files \<Rightarrow> \<exists>f \<in> set files. has_suffix f ''.marker'')
   }"

section \<open>Snapshot identifiers\<close>

locale snapshot_codec =
  fixes enc :: "string \<Rightarrow> string \<Rightarrow> string"
    and name_of :: "string \<Rightarrow> string res"
    and volume_of :: "string \<Rightarrow> string res"
    and clean :: "string \<Rightarrow> bool"
  assumes name_enc: "clean n \<Longrightarrow> clean v \<Longrightarrow> name_of (enc n v) = Inr n"
    and volume_enc: "clean n \<Longrightarrow> clean v \<Longrightarrow> volume_of (enc n v) = Inr v"
    and name_total: "(\<exists>n. name_of i = Inr n) \<longleftrightarrow> (\<exists>v. volume_of i = Inr v)"
begin

lemma enc_inj:
  assumes "clean n" and "clean v" and "clean n'" and "clean v'" and "enc n v = enc n' v'"
  shows "n = n' \<and> v = v'"
  using name_enc [OF assms(1,2)] name_enc [OF assms(3,4)] volume_enc [OF assms(1,2)]
    volume_enc [OF assms(3,4)] assms(5) by simp

end

definition no_bar :: "string \<Rightarrow> bool" where
  "no_bar s \<longleftrightarrow> CHR ''|'' \<notin> set s"

lemma split_snapshot_id:
  "no_bar n \<Longrightarrow> no_bar v \<Longrightarrow> split_on (CHR ''|'') (GetSnapshotIDFromSnapshotName n v) = [n, v]"
  by (simp add: GetSnapshotIDFromSnapshotName_def no_bar_def split_on_append_sep split_on_no_sep)

interpretation snap_id: snapshot_codec GetSnapshotIDFromSnapshotName GetSnapshotNameFromSnapshotId
    GetSnapshotSourceVolumeId no_bar
  by unfold_locales
    (simp_all add: GetSnapshotNameFromSnapshotId_def GetSnapshotSourceVolumeId_def
      split_snapshot_id Let_def)

lemma snapshot_id_error:
  "no_bar i \<Longrightarrow> GetSnapshotNameFromSnapshotId i = Inl (bad_snapshot_id i) \<and>
     GetSnapshotSourceVolumeId i = Inl (bad_snapshot_id i) \<and>
     GetShareNameFromSnapshotId i = Inl (bad_snapshot_id i)"
  by (simp add: GetSnapshotNameFromSnapshotId_def GetSnapshotSourceVolumeId_def
      GetShareNameFromSnapshotId_def no_bar_def split_on_no_sep)

section \<open>Volume identifiers\<close>

definition share_volume_id :: "string \<Rightarrow> string" where
  "share_volume_id share = SharePathPrefix @ share"

definition file_volume_id :: "string \<Rightarrow> string \<Rightarrow> string" where
  "file_volume_id share name = SharePathPrefix @ share @ ''/'' @ name"

lemma IsAnyVolumeStillMounted_quiet: "state_io_rel quiet (IsAnyVolumeStillMounted E d)"
  unfolding IsAnyVolumeStillMounted_def by (intro frame_intros)

lemmas volume_ids_keeps [frame_intros] = IsAnyVolumeStillMounted_quiet
  IsAnyVolumeStillMounted_quiet [THEN quiet_keeps(1)]
  IsAnyVolumeStillMounted_quiet [THEN quiet_keeps(2)]
  IsAnyVolumeStillMounted_quiet [THEN quiet_keeps(3)]
  IsAnyVolumeStillMounted_quiet [THEN quiet_keeps(4)]
  IsAnyVolumeStillMounted_quiet [THEN quiet_keeps(5)]

section \<open>Properties\<close>

text \<open>C29. The volume ID alone tells the kind of a volume, and its parts, when share and name are path
  segments: not empty, without a slash, and neither of the two dots. Then the ID of a share-backed
  volume is never taken for a file-backed one, the ID of a file-backed volume always is, and from
  the latter the backing share and the file are read back. The code does not ask for this: with an
  empty backing share name the ID of a file-backed volume is taken for a share-backed one.\<close>

theorem volume_id_kind:
  assumes "segment share" and "segment name"
  shows "\<not> isFileBackedVolumeID (share_volume_id share) \<and>
    isFileBackedVolumeID (file_volume_id share name) \<and>
    GetVolumeNameFromPath (share_volume_id share) = share \<and>
    GetVolumeNameFromPath (file_volume_id share name) = name \<and>
    path_base (path_dir (file_volume_id share name)) = share"
proof -
  have d1: "path_dir (share_volume_id share) = ''/''"
    using assms by (simp add: share_volume_id_def SharePathPrefix_def path_dir_root)
  have d2: "path_dir (file_volume_id share name) = CHR ''/'' # share"
    using assms path_dir_nested [of share name]
    by (simp add: file_volume_id_def SharePathPrefix_def)
  have b: "path_base (CHR ''/'' # share) = share"
    using assms path_base_slash [of share "[]"] by simp
  have b2: "path_base (file_volume_id share name) = name"
    using assms path_base_slash [of name "CHR ''/'' # share"]
    by (simp add: file_volume_id_def SharePathPrefix_def)
  show ?thesis using assms d1 d2 b b2
    by (simp add: isFileBackedVolumeID_def GetVolumeNameFromPath_def SharePathPrefix_def
        share_volume_id_def)
qed

theorem volume_id_kind_witness:
  "isFileBackedVolumeID (file_volume_id ''share'' ''pvc-1'') \<and>
   path_base (path_dir (file_volume_id ''share'' ''pvc-1'')) = ''share''"
  using volume_id_kind [of "''share''" "''pvc-1''"] by (simp add: segment_def)

text \<open>C30. A snapshot ID is read back as the snapshot name and the source volume it was built from,
  whenever neither holds the separator \<open>|\<close>; two such snapshots never share an ID, and the share name
  taken from the ID is the last segment of the source volume. The code refuses no name or volume
  with a separator, for which none of this holds.\<close>

theorem snapshot_id_roundtrip:
  assumes "no_bar n" and "no_bar v"
  shows "GetSnapshotNameFromSnapshotId (GetSnapshotIDFromSnapshotName n v) = Inr n \<and>
    GetSnapshotSourceVolumeId (GetSnapshotIDFromSnapshotName n v) = Inr v \<and>
    GetShareNameFromSnapshotId (GetSnapshotIDFromSnapshotName n v) = Inr (path_base v) \<and>
    (\<forall>n' v'. no_bar n' \<longrightarrow> no_bar v' \<longrightarrow>
       GetSnapshotIDFromSnapshotName n' v' = GetSnapshotIDFromSnapshotName n v \<longrightarrow> n' = n \<and> v' = v)"
proof (intro conjI allI impI)
  show "GetSnapshotNameFromSnapshotId (GetSnapshotIDFromSnapshotName n v) = Inr n"
    using assms by (rule snap_id.name_enc)
  show "GetSnapshotSourceVolumeId (GetSnapshotIDFromSnapshotName n v) = Inr v"
    using assms by (rule snap_id.volume_enc)
  show "GetShareNameFromSnapshotId (GetSnapshotIDFromSnapshotName n v) = Inr (path_base v)"
    using assms by (simp add: GetShareNameFromSnapshotId_def split_snapshot_id)
next
  fix n' v'
  assume "no_bar n'" "no_bar v'"
    and "GetSnapshotIDFromSnapshotName n' v' = GetSnapshotIDFromSnapshotName n v"
  then have "n' = n \<and> v' = v" using assms by (intro snap_id.enc_inj)
  then show "n' = n" and "v' = v" by simp_all
qed

theorem snapshot_id_roundtrip_witness:
  "GetShareNameFromSnapshotId (GetSnapshotIDFromSnapshotName ''2026-01-01T00-00-00'' ''/share/f'')
     = Inr ''f''"
  using snapshot_id_roundtrip [of "''2026-01-01T00-00-00''" "''/share/f''"]
  by (simp add: no_bar_def path_base_def)

end
