(* ===== verification/Backing_Mount.thy ===== *)
theory Backing_Mount
  imports Locks Volume_Ids
begin

text \<open>
  Backing shares and loop devices (\<open>pkg/driver/utils.go\<close>): attaching and detaching loop devices
  with retries, judging an existing mount, replacing a mount of a foreign Anvil, the reference
  counts that keep a backing share mounted while file operations run, and the choice of the data
  portal and NFS version of a mount.
\<close>

section \<open>Loop devices\<close>

definition GetFreeLoopDevice :: "'w env \<Rightarrow> ('w, string res) go" where
  "GetFreeLoopDevice E =
     tryE (ExecCommand E ''losetup'' [''-f''])
       (\<lambda>e. wrap_error (''failed to get free loop device: '' @ err_text e) e) (\<lambda>output.
     ok (trim_space output))"

definition AttachLoopDevice :: "'w env \<Rightarrow> string \<Rightarrow> bool \<Rightarrow> ('w, string res) go" where
  "AttachLoopDevice E filePath readOnly =
     tryE (GetFreeLoopDevice E) id (\<lambda>deviceStr.
     tryE (ExecCommand E ''losetup'' ((if readOnly then [''-r''] else []) @ [deviceStr, filePath]))
       (\<lambda>e. wrap_error (''losetup failed: , '' @ err_text e) e) (\<lambda>_.
     ok deviceStr))"

fun attach_retry :: "'w env \<Rightarrow> string \<Rightarrow> bool \<Rightarrow> nat \<Rightarrow> nat \<Rightarrow> go_error option \<Rightarrow> ('w, string res) go" where
  "attach_retry E filePath readOnly 0 i lastErr =
     fail (let m = ''failed to attach loop device for '' @ filePath @ '' after '' @
             nat_dec (env_MaxRetries E) @ '' retries: '' in
       case lastErr of None \<Rightarrow> new_error (m @ ''%!w(<nil>)'') | Some e \<Rightarrow> wrap_error (m @ err_text e) e)"
| "attach_retry E filePath readOnly (Suc n) i lastErr = do {
     r \<leftarrow> AttachLoopDevice E filePath readOnly;
     (case r of
        Inr deviceStr \<Rightarrow> ok deviceStr
      | Inl e \<Rightarrow>
          if contains (err_text e) ''busy'' then do {
            Sleep E (env_RetryInterval E);
            attach_retry E filePath readOnly n (Suc i)
              (Some (wrap_error (''device busy on attempt '' @ nat_dec (Suc i) @ '': '' @ err_text e) e))
          } else fail e)
   }"

definition ensure_device_node :: "'w env \<Rightarrow> string \<Rightarrow> ('w, unit res) go" where
  "ensure_device_node E deviceStr = do {
     st \<leftarrow> os_Stat E deviceStr;
     (case st of
        Inr _ \<Rightarrow> ok ()
      | Inl e \<Rightarrow>
          if IsNotExist e then do {
            m \<leftarrow> GetDeviceMinorNumber E deviceStr;
            tryE (ExecCommand E ''mknod'' [''-m660'', deviceStr, ''b'', ''7'',
                FormatInt (case m of Inl _ \<Rightarrow> 0 | Inr n \<Rightarrow> n)])
              (\<lambda>e. new_error (''failed to create loop device: '' @ err_text e)) (\<lambda>_. ok ())
          } else ok ())
   }"

definition attach_new :: "'w env \<Rightarrow> string \<Rightarrow> bool \<Rightarrow> ('w, string res) go" where
  "attach_new E filePath readOnly =
     tryE (GetFreeLoopDevice E) id (\<lambda>deviceStr.
     tryE (ensure_device_node E deviceStr) id (\<lambda>_.
     attach_retry E filePath readOnly (env_MaxRetries E) 0 None))"

definition AttachLoopDeviceWithRetry :: "'w env \<Rightarrow> string \<Rightarrow> bool \<Rightarrow> ('w, string res) go" where
  "AttachLoopDeviceWithRetry E filePath readOnly = do {
     out \<leftarrow> ExecCommand E ''losetup'' [''-j'', filePath];
     (case out of
        Inr output \<Rightarrow>
          if trim_space output \<noteq> [] then ok (trim_space (hd (split_on (CHR '':'') output)))
          else attach_new E filePath readOnly
      | Inl _ \<Rightarrow> attach_new E filePath readOnly)
   }"

fun detach_retry :: "'w env \<Rightarrow> string \<Rightarrow> nat \<Rightarrow> ('w, unit) go" where
  "detach_retry E dev 0 = ret ()"
| "detach_retry E dev (Suc n) = do {
     r \<leftarrow> ExecCommand E ''losetup'' [''-d'', dev];
     (case r of
        Inr _ \<Rightarrow> ret ()
      | Inl _ \<Rightarrow> do {
          Sleep E (env_RetryInterval E);
          detach_retry E dev n
        })
   }"

definition is_missing :: "'a res \<Rightarrow> bool" where
  "is_missing r = (case r of Inl e \<Rightarrow> IsNotExist e | Inr _ \<Rightarrow> False)"

definition CleanupLoopDevice :: "'w env \<Rightarrow> string \<Rightarrow> ('w, unit) go" where
  "CleanupLoopDevice E dev = do {
     st \<leftarrow> os_Stat E dev;
     if is_missing st then ret () else detach_retry E dev (env_MaxRetries E)
   }"

section \<open>Judging an existing mount\<close>

datatype mountState = mountHealthy | mountAbsent | mountStale

definition mountStaleProbes :: nat where "mountStaleProbes = 2"

fun classifyMount :: "(string \<Rightarrow> ('w, bool res) go) \<Rightarrow> string \<Rightarrow> nat \<Rightarrow> ('w, mountState) go" where
  "classifyMount probe path 0 = ret mountStale"
| "classifyMount probe path (Suc n) = do {
     r \<leftarrow> probe path;
     (case r of
        Inr mounted \<Rightarrow> ret (if mounted then mountHealthy else mountAbsent)
      | Inl e \<Rightarrow> if IsNotExist e then ret mountAbsent else classifyMount probe path n)
   }"

definition nfsSourceHost :: "string \<Rightarrow> string" where
  "nfsSourceHost source =
     (case index_of source '':/'' of
        None \<Rightarrow> []
      | Some i \<Rightarrow> if i = 0 then [] else trim_suffix (trim_prefix (take i source) ''['') '']'')"

text \<open>Later entries of the mount table are on top of earlier ones.\<close>

definition topmost_nfs_server :: "string \<Rightarrow> mount_entry list \<Rightarrow> string" where
  "topmost_nfs_server path mounts =
     foldl (\<lambda>server m. if me_Path m = path \<and> has_prefix (me_Type m) ''nfs''
                        then nfsSourceHost (me_Device m) else server) [] mounts"

definition mountedNFSServer :: "'w env \<Rightarrow> string \<Rightarrow> ('w, string res) go" where
  "mountedNFSServer E path =
     tryE (call (Ev_Query ''mounts'' []) (env_MountList E)) id (\<lambda>mounts.
     ok (topmost_nfs_server path mounts))"

definition lookupIP :: "'w env \<Rightarrow> string \<Rightarrow> ('w, string list res) go" where
  "lookupIP E host = call (Ev_Query ''lookup'' host) (env_LookupIP E host)"

definition any_ip_matches :: "'w env \<Rightarrow> nat list option list \<Rightarrow> string list \<Rightarrow> bool" where
  "any_ip_matches E candidates addresses \<longleftrightarrow>
     (\<exists>a \<in> set addresses. \<exists>c \<in> set candidates. env_ParseIP E a \<noteq> None \<and> env_ParseIP E a = c)"

definition serverIn :: "'w env \<Rightarrow> string \<Rightarrow> string list \<Rightarrow> ('w, bool) go" where
  "serverIn E server addresses =
     (case env_ParseIP E server of
        Some ip \<Rightarrow> ret (any_ip_matches E [Some ip] addresses)
      | None \<Rightarrow> do {
          r \<leftarrow> lookupIP E server;
          ret (case r of
            Inl _ \<Rightarrow> True
          | Inr ips \<Rightarrow> any_ip_matches E (map (env_ParseIP E) ips) addresses)
        })"

definition foreignBackingMountServer :: "'w env \<Rightarrow> string \<Rightarrow> string \<Rightarrow> ('w, string) go" where
  "foreignBackingMountServer E path fqdn = do {
     sv \<leftarrow> mountedNFSServer E path;
     (case sv of
        Inl _ \<Rightarrow> ret []
      | Inr server \<Rightarrow>
          if server = [] then ret []
          else do {
            as \<leftarrow> NFSServerAddresses E;
            (case as of
               Inl _ \<Rightarrow> ret []
             | Inr addresses0 \<Rightarrow> do {
                 extra \<leftarrow> (if fqdn \<noteq> [] then lookupIP E fqdn else ok []);
                 let addresses = addresses0 @ (case extra of Inl _ \<Rightarrow> [] | Inr ips \<Rightarrow> ips);
                 if addresses = [] then ret []
                 else do {
                   current \<leftarrow> serverIn E server addresses;
                   ret (if current then [] else server)
                 }
               })
          })
   }"

definition loop_backing_file :: "string \<Rightarrow> string" where
  "loop_backing_file line = trim_cutset (last (split_on (CHR '' '') line)) '':()''"

definition loopDevicesUnder :: "'w env \<Rightarrow> string \<Rightarrow> ('w, bool res) go" where
  "loopDevicesUnder E mountPath =
     tryE (ExecCommand E ''losetup'' [''-a''])
       (\<lambda>e. status_error Internal (''could not list backing files for loop devices, '' @ err_text e))
       (\<lambda>output. ok (\<exists>line \<in> set (lines output).
          line \<noteq> [] \<and> has_prefix (loop_backing_file line) (mountPath @ ''/'')))"

section \<open>References on a backing mount\<close>

definition refs_at :: "(string \<rightharpoonup> int) \<Rightarrow> string \<Rightarrow> int" where
  "refs_at m k = (case m k of None \<Rightarrow> 0 | Some n \<Rightarrow> n)"

definition bump_refs :: "string \<Rightarrow> (string \<rightharpoonup> int) \<Rightarrow> bool \<times> (string \<rightharpoonup> int)" where
  "bump_refs dir m = (refs_at m dir = 0, m(dir \<mapsto> refs_at m dir + 1))"

definition drop_refs :: "string \<Rightarrow> (string \<rightharpoonup> int) \<Rightarrow> bool \<times> (string \<rightharpoonup> int)" where
  "drop_refs dir m =
     (let m1 = (if refs_at m dir > 0 then m(dir \<mapsto> refs_at m dir - 1) else m)
      in if refs_at m1 dir = 0 then (True, m1(dir := None)) else (False, m1))"

definition bumpBackingRef :: "string \<Rightarrow> ('w, bool) go" where
  "bumpBackingRef dir = State (\<lambda>s. case bump_refs dir (d_mountRefs s) of
     (first, m) \<Rightarrow> (first, s\<lparr>d_mountRefs := m\<rparr>))"

definition dropBackingRef :: "string \<Rightarrow> ('w, bool) go" where
  "dropBackingRef dir = State (\<lambda>s. case drop_refs dir (d_mountRefs s) of
     (final, m) \<Rightarrow> (final, s\<lparr>d_mountRefs := m\<rparr>))"

definition backingMountRefs :: "string \<Rightarrow> ('w, int) go" where
  "backingMountRefs mountPath = gets (\<lambda>s. refs_at (d_mountRefs s) mountPath)"

definition backingMountInUse :: "string \<Rightarrow> ('w, bool) go" where
  "backingMountInUse mountPath = do {
     n \<leftarrow> backingMountRefs mountPath;
     ret (n > 0)
   }"

section \<open>Mounting at the best data portal\<close>

definition nfsExportsCacheSeconds :: int where "nfsExportsCacheSeconds = 30"

definition cached_exports :: "cache_data option \<Rightarrow> string list option" where
  "cached_exports c = (case c of Some (CStrings l) \<Rightarrow> Some l | _ \<Rightarrow> None)"

definition cachedNFSExports :: "'w env \<Rightarrow> string \<Rightarrow> bool \<Rightarrow> ('w, (string list \<times> bool) res) go" where
  "cachedNFSExports E addr fresh = do {
     let key = ''NFS_EXPORTS:'' @ addr;
     cached \<leftarrow> (if fresh then ret None else GetCacheData E key);
     (case cached_exports cached of
        Some exports \<Rightarrow> ok (exports, True)
      | None \<Rightarrow> tryE (GetNFSExports E addr) id (\<lambda>exports. do {
          SetCacheData E key (CStrings exports) nfsExportsCacheSeconds;
          SetCacheData E ''NFS_EXPORTS'' (CStrings exports) (60 * 60);
          ok (exports, False)
        }))
   }"

fun match_prefixes :: "string list \<Rightarrow> string list \<Rightarrow> string \<Rightarrow> string \<Rightarrow> string \<Rightarrow> string" where
  "match_prefixes [] exports addr shareExportPath subPath = []"
| "match_prefixes (p # ps) exports addr shareExportPath subPath =
     (if p @ shareExportPath \<in> set exports then addr @ '':'' @ p @ shareExportPath @ subPath
      else match_prefixes ps exports addr shareExportPath subPath)"

definition matchNFSExport :: "string list \<Rightarrow> string \<Rightarrow> string \<Rightarrow> string \<Rightarrow> string" where
  "matchNFSExport exports addr shareExportPath subPath =
     match_prefixes DefaultDataPortalMountPrefixes exports addr shareExportPath subPath"

text \<open>The mount source at one portal, or the empty string when it does not export the share.\<close>

definition find_export :: "'w env \<Rightarrow> string \<Rightarrow> string \<Rightarrow> string \<Rightarrow> ('w, string) go" where
  "find_export E addr shareExportPath subPath =
     (if env_DataPortalMountPrefix E \<noteq> [] then
        ret (addr @ '':'' @ env_DataPortalMountPrefix E @ shareExportPath @ subPath)
      else do {
        r \<leftarrow> cachedNFSExports E addr False;
        (case r of
           Inl _ \<Rightarrow> ret []
         | Inr (exports, cached) \<Rightarrow> do {
             let export = matchNFSExport exports addr shareExportPath subPath;
             if export = [] \<and> cached then do {
               r2 \<leftarrow> cachedNFSExports E addr True;
               ret (case r2 of
                 Inl _ \<Rightarrow> []
               | Inr (exports2, _) \<Rightarrow> matchNFSExport exports2 addr shareExportPath subPath)
             } else ret export
           })
      })"

definition MountToDataPortal :: "'w env \<Rightarrow> string \<Rightarrow> string \<Rightarrow> string \<Rightarrow> string \<Rightarrow> DataPortal
    \<Rightarrow> string list \<Rightarrow> ('w, bool) go" where
  "MountToDataPortal E fipaddr shareExportPath subPath targetPath portal mount_options = do {
     over \<leftarrow> ctx_err E;
     if over then ret False
     else do {
       let addr = (if fipaddr \<noteq> [] then fipaddr else dp_MgmtAddress portal);
       export \<leftarrow> find_export E addr shareExportPath subPath;
       if export = [] \<and> env_DataPortalMountPrefix E = [] then ret False
       else do {
         r \<leftarrow> MountShare E export targetPath mount_options;
         ret (case r of Inl _ \<Rightarrow> False | Inr _ \<Rightarrow> True)
       }
     }
   }"

fun try_portals :: "(DataPortal \<Rightarrow> ('w, bool) go) \<Rightarrow> DataPortal list \<Rightarrow> ('w, bool) go" where
  "try_portals f [] = ret False"
| "try_portals f (p # ps) = do {
     mounted \<leftarrow> f p;
     if mounted then ret True else try_portals f ps
   }"

definition is_vers_flag :: "string \<Rightarrow> bool" where
  "is_vers_flag flag \<longleftrightarrow> has_prefix flag ''nfsvers='' \<or> has_prefix flag ''vers=''"

text \<open>The option lists tried, in order: the given flags when they name a version, then NFS 4.2 and
  NFS 3 without locking, both without the given version.\<close>

definition mount_attempts :: "string list \<Rightarrow> string list list" where
  "mount_attempts mountFlags =
     (let contains_vers = (\<exists>flag \<in> set mountFlags. is_vers_flag flag);
          rest = (if contains_vers then filter (\<lambda>f. \<not> is_vers_flag f) mountFlags else mountFlags)
      in (if contains_vers then [mountFlags] else []) @
         [rest @ [''nfsvers=4.2''], rest @ [''nfsvers=3'', ''nolock'']])"

fun try_attempts :: "(string list \<Rightarrow> ('w, bool) go) \<Rightarrow> string list list \<Rightarrow> ('w, unit res) go" where
  "try_attempts f [] = fail (new_error ''could not mount to any data-portals'')"
| "try_attempts f (opts # rest) = do {
     mounted \<leftarrow> f opts;
     if mounted then ok () else try_attempts f rest
   }"

definition synthetic_portal :: "string \<Rightarrow> string \<Rightarrow> DataPortal" where
  "synthetic_portal fqdn fipaddr =
     \<lparr>dp_OperState = [], dp_AdminState = [], dp_DataPortalType = [], dp_NodeName = fqdn,
      dp_MgmtAddress = fipaddr, dp_Uuid = fipaddr\<rparr>"

text \<open>The address every attempt uses: the resolved FQDN, else a healthy floating IP, else none.\<close>

definition select_fip :: "'w env \<Rightarrow> string \<Rightarrow> ('w, string) go" where
  "select_fip E fqdn = do {
     ep \<leftarrow> ResolveFQDN E fqdn;
     (case ep of
        Inr a \<Rightarrow> if a \<noteq> [] then ret a
          else do { f \<leftarrow> GetPortalFloatingIp E; ret (case f of Inl _ \<Rightarrow> [] | Inr b \<Rightarrow> b) }
      | Inl _ \<Rightarrow> do { f \<leftarrow> GetPortalFloatingIp E; ret (case f of Inl _ \<Rightarrow> [] | Inr b \<Rightarrow> b) })
   }"

definition mountShareSubPathAtBestDataportal :: "'w env \<Rightarrow> string \<Rightarrow> string \<Rightarrow> string \<Rightarrow> string list
    \<Rightarrow> string \<Rightarrow> ('w, unit res) go" where
  "mountShareSubPathAtBestDataportal E shareExportPath subPath targetPath mountFlags fqdn =
     with_mount_slot E (
       tryE (GetDataPortals E (env_NodeID E))
         (\<lambda>e. status_error Internal (''could not create list of data-portals, '' @ err_text e))
         (\<lambda>portals0. do {
       fipaddr \<leftarrow> select_fip E fqdn;
       let portals = (if portals0 = [] \<and> fipaddr \<noteq> [] then [synthetic_portal fqdn fipaddr] else portals0);
       try_attempts (\<lambda>opts. try_portals (\<lambda>p.
           MountToDataPortal E fipaddr shareExportPath subPath targetPath p opts) portals)
         (mount_attempts mountFlags)
     }))"

definition MountShareAtBestDataportal :: "'w env \<Rightarrow> string \<Rightarrow> string \<Rightarrow> string list \<Rightarrow> string
    \<Rightarrow> ('w, unit res) go" where
  "MountShareAtBestDataportal E shareExportPath targetPath mountFlags fqdn =
     mountShareSubPathAtBestDataportal E shareExportPath [] targetPath mountFlags fqdn"

section \<open>Keeping a backing share mounted\<close>

definition foreign_in_use :: "string \<Rightarrow> string \<Rightarrow> string \<Rightarrow> go_error" where
  "foreign_in_use exportPath dir server = status_error FailedPrecondition
     (''backing share '' @ exportPath @ '' is mounted at '' @ dir @ '' from '' @ server @
      '', which is not an NFS server of the current Anvil, and loop devices still use it; unmount it once no pod uses volumes from that server'')"

text \<open>The reaction to the state of the existing mount: \<open>True\<close> when it is kept as it is.\<close>

definition prepare_backing_dir :: "'w env \<Rightarrow> ShareResponse \<Rightarrow> string \<Rightarrow> HSVolume \<Rightarrow> bool
    \<Rightarrow> ('w, bool res) go" where
  "prepare_backing_dir E backingShare backingDir hsVol refHeld = do {
     st \<leftarrow> classifyMount (SafeIsMountPoint E) backingDir mountStaleProbes;
     (case st of
        mountHealthy \<Rightarrow> do {
          server \<leftarrow> foreignBackingMountServer E backingDir (hv_FQDN hsVol);
          if server = [] then ok True
          else do {
            n \<leftarrow> backingMountRefs backingDir;
            let others = (if refHeld then n - 1 else n);
            tryE (if others > 0 then ok True else loopDevicesUnder E backingDir) id (\<lambda>inUse.
              if inUse then fail (foreign_in_use (sh_ExportPath backingShare) backingDir server)
              else tryE (UnmountFilesystem E backingDir) id (\<lambda>_. ok False))
          }
        }
      | mountStale \<Rightarrow> do {
          ForceUnmountStale E backingDir;
          ok False
        }
      | mountAbsent \<Rightarrow> ok False)
   }"

definition mount_backing_dir :: "'w env \<Rightarrow> ShareResponse \<Rightarrow> string \<Rightarrow> HSVolume \<Rightarrow> bool
    \<Rightarrow> ('w, unit res) go" where
  "mount_backing_dir E backingShare backingDir hsVol refHeld =
     tryE (prepare_backing_dir E backingShare backingDir hsVol refHeld) id (\<lambda>kept.
     if kept then ok ()
     else MountShareAtBestDataportal E (sh_ExportPath backingShare) backingDir (hv_MountFlags hsVol)
       (hv_FQDN hsVol))"

definition ensureBackingShareMounted :: "'w env \<Rightarrow> string \<Rightarrow> HSVolume \<Rightarrow> bool \<Rightarrow> ('w, unit res) go" where
  "ensureBackingShareMounted E backingShareName hsVol refHeld =
     tryE (GetShare E backingShareName) (\<lambda>e. status_error NotFound (err_text e)) (\<lambda>share.
     case share of
       None \<Rightarrow> ok ()
     | Some backingShare \<Rightarrow>
         let backingDir = ShareStagingDir @ sh_ExportPath backingShare
         in if refHeld then mount_backing_dir E backingShare backingDir hsVol refHeld
            else with_mount_lock backingDir
              (mount_backing_dir E backingShare backingDir hsVol refHeld))"

definition EnsureBackingShareMounted :: "'w env \<Rightarrow> string \<Rightarrow> HSVolume \<Rightarrow> ('w, unit res) go" where
  "EnsureBackingShareMounted E backingShareName hsVol =
     ensureBackingShareMounted E backingShareName hsVol False"

definition UnmountBackingShareIfUnused :: "'w env \<Rightarrow> string \<Rightarrow> ('w, bool res) go" where
  "UnmountBackingShareIfUnused E backingShareName =
     tryE (GetShare E backingShareName) id (\<lambda>share.
     case share of
       None \<Rightarrow> ok False
     | Some backingShare \<Rightarrow> do {
         let mountPath = ShareStagingDir @ sh_ExportPath backingShare;
         busy \<leftarrow> backingMountInUse mountPath;
         if busy then ok False
         else do {
           isMounted \<leftarrow> IsShareMounted E mountPath;
           if \<not> isMounted then ok True
           else tryE (loopDevicesUnder E mountPath) id (\<lambda>inUse.
             if inUse then ok False
             else tryE (UnmountFilesystem E mountPath) id (\<lambda>_. ok True))
         }
       })"

definition acquireBackingMount :: "'w env \<Rightarrow> ShareResponse \<Rightarrow> HSVolume \<Rightarrow> ('w, unit res) go" where
  "acquireBackingMount E backingShare hsVol =
     (let backingDir = ShareStagingDir @ sh_ExportPath backingShare
      in with_mount_lock backingDir (do {
        first \<leftarrow> bumpBackingRef backingDir;
        if first then do {
          r \<leftarrow> ensureBackingShareMounted E (sh_Name backingShare) hsVol True;
          (case r of
             Inl e \<Rightarrow> do {
               _ \<leftarrow> dropBackingRef backingDir;
               fail e
             }
           | Inr _ \<Rightarrow> ok ())
        } else ok ()
      }))"

definition releaseBackingMount :: "'w env \<Rightarrow> ShareResponse \<Rightarrow> ('w, unit) go" where
  "releaseBackingMount E backingShare = do {
     let backingDir = ShareStagingDir @ sh_ExportPath backingShare;
     r \<leftarrow> with_mount_lock backingDir (do {
       final \<leftarrow> dropBackingRef backingDir;
       if \<not> final then ok ()
       else do {
         _ \<leftarrow> UnmountBackingShareIfUnused E (sh_Name backingShare);
         ok ()
       }
     });
     ret ()
   }"

section \<open>Reference counts\<close>

text \<open>
  What a holder of references relies on: a bump reports the first reference, a drop reports the
  last one, a drop undoes a bump, and other keys are not touched.
\<close>

locale ref_counts =
  fixes bump :: "'k \<Rightarrow> 'm \<Rightarrow> bool \<times> 'm"
    and drop :: "'k \<Rightarrow> 'm \<Rightarrow> bool \<times> 'm"
    and count :: "'m \<Rightarrow> 'k \<Rightarrow> int"
    and positive :: "'m \<Rightarrow> bool"
  assumes bump_first: "fst (bump k m) \<longleftrightarrow> count m k = 0"
    and bump_count: "count (snd (bump k m)) j = (if j = k then count m k + 1 else count m j)"
    and bump_positive: "positive m \<Longrightarrow> positive (snd (bump k m))"
    and drop_last: "positive m \<Longrightarrow> fst (drop k m) \<longleftrightarrow> count m k \<le> 1"
    and drop_count: "positive m \<Longrightarrow>
      count (snd (drop k m)) j = (if j = k then max 0 (count m k - 1) else count m j)"
    and drop_positive: "positive m \<Longrightarrow> positive (snd (drop k m))"
    and drop_bump: "positive m \<Longrightarrow> snd (drop k (snd (bump k m))) = m"
    and count_nonneg: "positive m \<Longrightarrow> 0 \<le> count m k"
begin

text \<open>A run of bumps and drops, each drop matched by an earlier bump of the same key.\<close>

fun run_refs :: "('k \<times> bool) list \<Rightarrow> 'm \<Rightarrow> 'm" where
  "run_refs [] m = m"
| "run_refs ((k, True) # ps) m = run_refs ps (snd (bump k m))"
| "run_refs ((k, False) # ps) m = run_refs ps (snd (drop k m))"

fun net :: "'k \<Rightarrow> ('k \<times> bool) list \<Rightarrow> int" where
  "net k [] = 0"
| "net k ((j, b) # ps) = (if j = k then (if b then 1 else - 1) else 0) + net k ps"

text \<open>No prefix of the run drops a key more often than it is held.\<close>

fun covered :: "'k \<Rightarrow> int \<Rightarrow> ('k \<times> bool) list \<Rightarrow> bool" where
  "covered k n [] \<longleftrightarrow> 0 \<le> n"
| "covered k n ((j, b) # ps) \<longleftrightarrow>
     0 \<le> n \<and> covered k (if j = k then (if b then n + 1 else n - 1) else n) ps"

lemma covered_nonneg: "covered k n ps \<Longrightarrow> 0 \<le> n"
  by (cases ps) auto

lemma run_refs_count:
  "positive m \<Longrightarrow> covered k (count m k) ps \<Longrightarrow> count (run_refs ps m) k = count m k + net k ps"
proof (induction ps arbitrary: m)
  case Nil
  then show ?case by simp
next
  case (Cons p ps)
  obtain j b where p: "p = (j, b)" by (cases p)
  show ?case
  proof (cases b)
    case True
    have "count (run_refs ps (snd (bump j m))) k = count (snd (bump j m)) k + net k ps"
      using Cons.prems p True by (intro Cons.IH) (auto simp: bump_positive bump_count)
    then show ?thesis using p True by (simp add: bump_count)
  next
    case False
    have nn: "0 \<le> (if j = k then count m k - 1 else count m k)"
      using Cons.prems(2) p False covered_nonneg by (fastforce split: if_splits)
    have "count (run_refs ps (snd (drop j m))) k = count (snd (drop j m)) k + net k ps"
      using Cons.prems p False nn
      by (intro Cons.IH) (auto simp: drop_positive drop_count max_def split: if_splits)
    then show ?thesis using p False nn Cons.prems(1) by (auto simp: drop_count max_def split: if_splits)
  qed
qed

end

definition refs_positive :: "(string \<rightharpoonup> int) \<Rightarrow> bool" where
  "refs_positive m \<longleftrightarrow> (\<forall>k n. m k = Some n \<longrightarrow> n > 0)"

lemma refs_ok_positive: "refs_ok s \<longleftrightarrow> refs_positive (d_mountRefs s)"
  by (simp add: refs_ok_def refs_positive_def)

lemma refs_positive_nonneg: "refs_positive m \<Longrightarrow> 0 \<le> refs_at m k"
  by (auto simp: refs_positive_def refs_at_def split: option.splits intro: less_imp_le)

lemma drop_bump_refs: "refs_positive m \<Longrightarrow> snd (drop_refs k (snd (bump_refs k m))) = m"
  using refs_positive_nonneg [of m k]
  by (intro ext) (auto simp: drop_refs_def bump_refs_def refs_at_def refs_positive_def Let_def
      split: option.splits)

interpretation backing_refs: ref_counts bump_refs drop_refs refs_at refs_positive
proof unfold_locales
  fix m k j
  show "fst (bump_refs k m) \<longleftrightarrow> refs_at m k = 0" by (simp add: bump_refs_def)
  show "refs_at (snd (bump_refs k m)) j = (if j = k then refs_at m k + 1 else refs_at m j)"
    by (simp add: bump_refs_def refs_at_def)
  assume pos: "refs_positive m"
  note nn = refs_positive_nonneg [OF pos]
  show "refs_positive (snd (bump_refs k m))"
    using pos nn [of k] by (auto simp: bump_refs_def refs_positive_def)
  show "fst (drop_refs k m) \<longleftrightarrow> refs_at m k \<le> 1"
    using nn [of k] by (auto simp: drop_refs_def refs_at_def Let_def)
  show "refs_at (snd (drop_refs k m)) j = (if j = k then max 0 (refs_at m k - 1) else refs_at m j)"
    using nn [of k] by (auto simp: drop_refs_def refs_at_def Let_def split: option.splits)
  show "refs_positive (snd (drop_refs k m))"
    using pos nn [of k] by (auto simp: drop_refs_def refs_at_def refs_positive_def Let_def)
  show "snd (drop_refs k (snd (bump_refs k m))) = m" using pos by (rule drop_bump_refs)
  show "0 \<le> refs_at m k" by (rule nn)
qed

section \<open>Frames\<close>

lemma loop_quiet [frame_intros]:
  "state_io_rel quiet (GetFreeLoopDevice E)"
  "state_io_rel quiet (ensure_device_node E d)"
  "state_io_rel quiet (mountedNFSServer E p)"
  "state_io_rel quiet (lookupIP E h)"
  "state_io_rel quiet (loopDevicesUnder E p)"
  "state_io_rel quiet (backingMountRefs p)"
  "state_io_rel quiet (cachedNFSExports E a f)"
  unfolding GetFreeLoopDevice_def ensure_device_node_def mountedNFSServer_def lookupIP_def
    loopDevicesUnder_def backingMountRefs_def cachedNFSExports_def Let_def
  by (intro frame_intros)+

lemma AttachLoopDevice_quiet [frame_intros]: "state_io_rel quiet (AttachLoopDevice E p r)"
  unfolding AttachLoopDevice_def by (intro frame_intros)

lemma attach_retry_quiet [frame_intros]: "state_io_rel quiet (attach_retry E p r n i l)"
  by (induction n arbitrary: i l) (auto intro!: frame_intros)

lemma detach_retry_quiet [frame_intros]: "state_io_rel quiet (detach_retry E d n)"
  by (induction n) (auto intro!: frame_intros)

lemma attach_quiet [frame_intros]:
  "state_io_rel quiet (attach_new E p r)"
  "state_io_rel quiet (CleanupLoopDevice E d)"
  "state_io_rel quiet (serverIn E sv as)"
  "state_io_rel quiet (backingMountInUse p)"
  "state_io_rel quiet (find_export E a p sub)"
  "state_io_rel quiet (select_fip E fqdn)"
  unfolding attach_new_def CleanupLoopDevice_def serverIn_def backingMountInUse_def
    find_export_def select_fip_def Let_def
  by (intro frame_intros)+

lemma attach_quiet2 [frame_intros]:
  "state_io_rel quiet (AttachLoopDeviceWithRetry E p r)"
  "state_io_rel quiet (foreignBackingMountServer E p fqdn)"
  "state_io_rel quiet (MountToDataPortal E f p sub t dp opts)"
  unfolding AttachLoopDeviceWithRetry_def foreignBackingMountServer_def MountToDataPortal_def
    Let_def
  by (intro frame_intros)+

lemma classifyMount_quiet [frame_intros]:
  "(\<And>p. state_io_rel quiet (probe p)) \<Longrightarrow> state_io_rel quiet (classifyMount probe p n)"
  by (induction n) (auto intro!: frame_intros)

lemma try_portals_quiet [frame_intros]:
  "(\<And>p. state_io_rel quiet (f p)) \<Longrightarrow> state_io_rel quiet (try_portals f ps)"
  by (induction ps) (auto intro!: frame_intros)

lemma try_attempts_quiet [frame_intros]:
  "(\<And>p. state_io_rel quiet (f p)) \<Longrightarrow> state_io_rel quiet (try_attempts f ps)"
  by (induction ps) (auto intro!: frame_intros)

lemma portal_mount_quiet [frame_intros]:
  "state_io_rel quiet (mountShareSubPathAtBestDataportal E p sub t fl fqdn)"
  unfolding mountShareSubPathAtBestDataportal_def Let_def by (intro frame_intros)

lemma MountShareAtBestDataportal_quiet [frame_intros]:
  "state_io_rel quiet (MountShareAtBestDataportal E p t fl fqdn)"
  unfolding MountShareAtBestDataportal_def by (intro frame_intros)

lemma keep_case_mountState [frame_intros]:
  "state_io_rel R a \<Longrightarrow> state_io_rel R b \<Longrightarrow> state_io_rel R c \<Longrightarrow>
    state_io_rel R (case st of mountHealthy \<Rightarrow> a | mountAbsent \<Rightarrow> b | mountStale \<Rightarrow> c)"
  by (cases st) simp_all

lemma prepare_backing_dir_quiet [frame_intros]:
  "state_io_rel quiet (prepare_backing_dir E sh d v h)"
  unfolding prepare_backing_dir_def Let_def by (intro frame_intros)

lemma mount_backing_dir_quiet [frame_intros]:
  "state_io_rel quiet (mount_backing_dir E sh d v h)"
  unfolding mount_backing_dir_def by (intro frame_intros)

lemma ensureBackingShareMounted_quiet [frame_intros]:
  "state_io_rel quiet (ensureBackingShareMounted E n v h)"
  unfolding ensureBackingShareMounted_def Let_def by (intro frame_intros)

lemma backing_quiet [frame_intros]:
  "state_io_rel quiet (EnsureBackingShareMounted E n v)"
  "state_io_rel quiet (UnmountBackingShareIfUnused E n)"
  unfolding EnsureBackingShareMounted_def UnmountBackingShareIfUnused_def Let_def
  by (intro frame_intros)+

section \<open>Acquiring and releasing a backing mount\<close>

abbreviation backing_dir :: "ShareResponse \<Rightarrow> string" where
  "backing_dir sh \<equiv> ShareStagingDir @ sh_ExportPath sh"

text \<open>What acquiring and releasing do to the coordination state: the references change as the
  counts do, everything else is kept.\<close>

definition only_refs :: "'w drv \<Rightarrow> 'w drv \<Rightarrow> bool" where
  "only_refs s s' \<longleftrightarrow> same_locks s s' \<and> same_slots s s' \<and> same_snapshots s s' \<and> extends_trace s s'"

lemma quiet_only_refs: "quiet s s' \<longleftrightarrow> only_refs s s' \<and> same_refs s s'"
  by (auto simp: quiet_def only_refs_def)

lemma quiet_run: "state_io_rel quiet m \<Longrightarrow> quiet s (snd (run_state m s))"
  by (auto simp: state_io_rel_def)

lemma acquire_spec:
  assumes pos: "refs_positive (d_mountRefs s)"
  shows "wp (acquireBackingMount E sh v) (\<lambda>r s'. only_refs s s' \<and>
    (case r of
       Inl e \<Rightarrow> d_mountRefs s' = d_mountRefs s
     | Inr u \<Rightarrow> backing_dir sh \<notin> d_mountLocks s \<and>
         d_mountRefs s' = snd (bump_refs (backing_dir sh) (d_mountRefs s)))) s"
proof -
  let ?dir = "backing_dir sh"
  let ?m = "snd (bump_refs ?dir (d_mountRefs s))"
  let ?t = "s\<lparr>d_mountLocks := insert ?dir (d_mountLocks s), d_mountRefs := ?m\<rparr>"
  let ?en = "ensureBackingShareMounted E (sh_Name sh) v True"
  have "refs_ok ?t" using pos by (simp add: refs_ok_positive backing_refs.bump_positive)
  moreover have "quiet ?t (snd (run_state ?en ?t))"
    by (rule quiet_run) (rule ensureBackingShareMounted_quiet)
  ultimately have en: "only_refs ?t (snd (run_state ?en ?t))"
    "d_mountRefs (snd (run_state ?en ?t)) = ?m"
    by (auto simp: quiet_only_refs same_refs_def)
  show ?thesis
    using en drop_bump_refs [OF pos, of ?dir]
    by (auto simp: acquireBackingMount_def with_mount_lock_def mount_Lock_def mount_Unlock_def
        bumpBackingRef_def dropBackingRef_def go_panic_def Let_def wp_rules wp_iff [of ?en]
        only_refs_def frame_defs extends_trace_def split: prod.splits sum.splits)
qed

lemma release_spec:
  assumes pos: "refs_positive (d_mountRefs s)" and free: "backing_dir sh \<notin> d_mountLocks s"
  shows "wp (releaseBackingMount E sh) (\<lambda>_ s'. only_refs s s' \<and>
    d_mountRefs s' = snd (drop_refs (backing_dir sh) (d_mountRefs s))) s"
proof -
  let ?dir = "backing_dir sh"
  let ?m = "snd (drop_refs ?dir (d_mountRefs s))"
  let ?t = "s\<lparr>d_mountLocks := insert ?dir (d_mountLocks s), d_mountRefs := ?m\<rparr>"
  let ?un = "UnmountBackingShareIfUnused E (sh_Name sh)"
  have "refs_ok ?t" using pos by (simp add: refs_ok_positive backing_refs.drop_positive)
  moreover have "quiet ?t (snd (run_state ?un ?t))"
    by (rule quiet_run) (rule backing_quiet)
  ultimately have un: "only_refs ?t (snd (run_state ?un ?t))"
    "d_mountRefs (snd (run_state ?un ?t)) = ?m"
    by (auto simp: quiet_only_refs same_refs_def)
  show ?thesis
    using un free
    by (auto simp: releaseBackingMount_def with_mount_lock_def mount_Lock_def mount_Unlock_def
        dropBackingRef_def Let_def wp_rules wp_iff [of ?un] only_refs_def frame_defs
        extends_trace_def split: prod.splits sum.splits)
qed

text \<open>\<open>if err := acquireBackingMount(...); err != nil { return h(err) }; defer releaseBackingMount(...)\<close>.\<close>

definition with_backing_mount :: "'w env \<Rightarrow> ShareResponse \<Rightarrow> HSVolume \<Rightarrow> (go_error \<Rightarrow> go_error)
    \<Rightarrow> ('w, 'a res) go \<Rightarrow> ('w, 'a res) go" where
  "with_backing_mount E sh v h body =
     tryE (acquireBackingMount E sh v) h (\<lambda>_. deferring (releaseBackingMount E sh) body)"

lemma quiet_only_refs_trans: "only_refs s t \<Longrightarrow> only_refs t u \<Longrightarrow> only_refs s u"
  by (auto simp: only_refs_def frame_defs intro: extends_trace_trans)

lemma with_backing_mount_quiet_pos:
  assumes body: "state_io_rel quiet body" and pos: "refs_positive (d_mountRefs s)"
  shows "wp (with_backing_mount E sh v h body) (\<lambda>_ s'. quiet s s') s"
proof -
  let ?dir = "backing_dir sh"
  have rel: "wp (releaseBackingMount E sh) (\<lambda>_ u. quiet s u) t'"
    if "only_refs s t'" and "?dir \<notin> d_mountLocks s"
      and "d_mountRefs t' = snd (bump_refs ?dir (d_mountRefs s))" for t'
  proof -
    have p: "refs_positive (d_mountRefs t')"
      using that(3) pos by (simp add: backing_refs.bump_positive)
    have f: "?dir \<notin> d_mountLocks t'" using that(1,2) by (simp add: only_refs_def same_locks_def)
    show ?thesis using release_spec [OF p f]
      by (rule wp_mono)
        (use that(1,3) drop_bump_refs [OF pos] quiet_only_refs_trans in
          \<open>auto simp: quiet_only_refs same_refs_def\<close>)
  qed
  have bd: "wp body (\<lambda>_ t'. only_refs s t' \<and>
      d_mountRefs t' = snd (bump_refs ?dir (d_mountRefs s))) t"
    if "only_refs s t" and "d_mountRefs t = snd (bump_refs ?dir (d_mountRefs s))" for t
  proof -
    have "refs_ok t" using that(2) pos by (simp add: refs_ok_positive backing_refs.bump_positive)
    with quiet_run [OF body, of t] that show ?thesis
      using quiet_only_refs_trans by (auto simp: wp_iff quiet_only_refs same_refs_def)
  qed
  have df: "wp (deferring (releaseBackingMount E sh) body) (\<lambda>_ u. quiet s u) t"
    if "only_refs s t" and "?dir \<notin> d_mountLocks s"
      and "d_mountRefs t = snd (bump_refs ?dir (d_mountRefs s))" for t
    unfolding wp_deferring using bd [OF that(1,3)] by (rule wp_mono) (use that(2) rel in auto)
  show ?thesis unfolding with_backing_mount_def wp_tryE using acquire_spec [OF pos]
    by (rule wp_mono) (auto simp: quiet_only_refs same_refs_def split: sum.splits intro: df)
qed

lemmas backing_all_quiet = loop_quiet AttachLoopDevice_quiet attach_quiet attach_quiet2
  portal_mount_quiet MountShareAtBestDataportal_quiet ensureBackingShareMounted_quiet backing_quiet

lemmas backing_keeps [frame_intros] =
  backing_all_quiet [THEN quiet_keeps(1)] backing_all_quiet [THEN quiet_keeps(2)]
  backing_all_quiet [THEN quiet_keeps(3)] backing_all_quiet [THEN quiet_keeps(4)]
  backing_all_quiet [THEN quiet_keeps(5)]

lemma ref_ops_keep [frame_intros]:
  "state_io_rel same_locks (bumpBackingRef d)" "state_io_rel same_locks (dropBackingRef d)"
  "state_io_rel same_slots (bumpBackingRef d)" "state_io_rel same_slots (dropBackingRef d)"
  "state_io_rel same_snapshots (bumpBackingRef d)" "state_io_rel same_snapshots (dropBackingRef d)"
  "state_io_rel extends_trace (bumpBackingRef d)" "state_io_rel extends_trace (dropBackingRef d)"
  unfolding bumpBackingRef_def dropBackingRef_def
  by (auto simp: keep_iff_wp wp_rules frame_defs split: prod.splits)

lemma acquire_release_keep [frame_intros]:
  "state_io_rel same_locks (acquireBackingMount E sh v)"
  "state_io_rel same_slots (acquireBackingMount E sh v)"
  "state_io_rel same_snapshots (acquireBackingMount E sh v)"
  "state_io_rel extends_trace (acquireBackingMount E sh v)"
  "state_io_rel same_locks (releaseBackingMount E sh)"
  "state_io_rel same_slots (releaseBackingMount E sh)"
  "state_io_rel same_snapshots (releaseBackingMount E sh)"
  "state_io_rel extends_trace (releaseBackingMount E sh)"
  unfolding acquireBackingMount_def releaseBackingMount_def Let_def by (intro frame_intros)+

lemma with_backing_mount_quiet [frame_intros]:
  assumes "state_io_rel quiet body"
  shows "state_io_rel quiet (with_backing_mount E sh v h body)"
proof (rule quietI)
  note b = assms [THEN quiet_keeps(1)] assms [THEN quiet_keeps(3)] assms [THEN quiet_keeps(4)]
    assms [THEN quiet_keeps(5)]
  show "state_io_rel same_locks (with_backing_mount E sh v h body)"
    "state_io_rel same_slots (with_backing_mount E sh v h body)"
    "state_io_rel same_snapshots (with_backing_mount E sh v h body)"
    "state_io_rel extends_trace (with_backing_mount E sh v h body)"
    unfolding with_backing_mount_def by (intro frame_intros b)+
  have "wp (with_backing_mount E sh v h body) (\<lambda>_. same_refs s) s" for s :: "'a drv"
  proof (cases "refs_ok s")
    case True
    with with_backing_mount_quiet_pos [OF assms, of s E sh v h] show ?thesis
      by (auto simp: refs_ok_positive quiet_def wp_iff)
  next
    case False
    then show ?thesis by (simp add: wp_iff same_refs_def)
  qed
  then show "state_io_rel same_refs (with_backing_mount E sh v h body)"
    by (simp add: keep_iff_wp)
qed

section \<open>Properties\<close>

text \<open>The answers of successive probes of one path, and the verdict the code is meant to draw.\<close>

fun probe_answers :: "('w, bool res) go \<Rightarrow> nat \<Rightarrow> 'w drv \<Rightarrow> bool res list" where
  "probe_answers p 0 s = []"
| "probe_answers p (Suc n) s = (case run_state p s of (r, s') \<Rightarrow> r # probe_answers p n s')"

definition no_answer :: "bool res \<Rightarrow> bool" where
  "no_answer r = (case r of Inl e \<Rightarrow> \<not> IsNotExist e | Inr _ \<Rightarrow> False)"

definition mount_verdict :: "bool res list \<Rightarrow> mountState" where
  "mount_verdict rs = (case dropWhile no_answer rs of
     [] \<Rightarrow> mountStale
   | r # _ \<Rightarrow> if r = Inr True then mountHealthy else mountAbsent)"

text \<open>A mount is declared stale only when every probe failed: the first probe that answers, or says
  the path does not exist, decides between healthy and absent, and only if all probes end in another
  error is the mount stale.\<close>

theorem classifyMount_verdict:
  "fst (run_state (classifyMount probe path n) s) = mount_verdict (probe_answers (probe path) n s)"
proof (induction n arbitrary: s)
  case 0
  then show ?case by (simp add: mount_verdict_def)
next
  case (Suc n)
  then show ?case
    by (auto simp: mount_verdict_def no_answer_def split: prod.splits sum.splits)
qed

lemma match_prefixes_first:
  "match_prefixes ps exports addr sp sub =
     (case filter (\<lambda>p. p @ sp \<in> set exports) ps of [] \<Rightarrow> [] | p # _ \<Rightarrow> addr @ '':'' @ p @ sp @ sub)"
  by (induction ps) auto

text \<open>The export mounted is one the portal lists: the share's path under the first of the known
  prefixes whose export exists, with the sub-path appended; none when no prefix matches.\<close>

theorem matchNFSExport_first:
  "matchNFSExport exports addr sp sub =
     (case filter (\<lambda>p. p @ sp \<in> set exports) DefaultDataPortalMountPrefixes of
        [] \<Rightarrow> [] | p # _ \<Rightarrow> addr @ '':'' @ p @ sp @ sub)"
  unfolding matchNFSExport_def by (rule match_prefixes_first)

definition default_versions :: "string list list" where
  "default_versions = [[''nfsvers=4.2''], [''nfsvers=3'', ''nolock'']]"

definition named_versions :: "string list \<Rightarrow> string list" where
  "named_versions fl = filter is_vers_flag fl"

text \<open>The NFS versions tried: the given flags first when they name a version, then 4.2 and 3 (without
  locking), always with all the other given flags; the fallbacks name no version but their own, so
  NFS 4.1 is never tried unless asked for.\<close>

theorem mount_attempts_exact:
  "mount_attempts fl =
     (if named_versions fl = [] then [] else [fl]) @
     map (\<lambda>v. filter (\<lambda>f. \<not> is_vers_flag f) fl @ v) default_versions \<and>
   map named_versions (drop (length (mount_attempts fl) - 2) (mount_attempts fl)) =
     [[''nfsvers=4.2''], [''nfsvers=3'']]"
proof -
  have f: "filter (\<lambda>f. \<not> is_vers_flag f) fl = fl" if "\<forall>f \<in> set fl. \<not> is_vers_flag f"
    using that by (simp add: filter_id_conv)
  have v: "is_vers_flag ''nfsvers=4.2''" "is_vers_flag ''nfsvers=3''" "\<not> is_vers_flag ''nolock''"
    by (simp_all add: is_vers_flag_def has_prefix_def)
  show ?thesis
    by (auto simp: mount_attempts_def Let_def named_versions_def default_versions_def filter_empty_conv f v)
qed

text \<open>C7. References are counted exactly: acquiring a backing mount adds one reference to its directory
  when it succeeds and changes no reference when it fails, and releasing it then gives back the
  references of before.\<close>

theorem acquire_counts:
  assumes "refs_ok s"
  shows "wp (acquireBackingMount E sh v) (\<lambda>r s'. case r of
      Inl e \<Rightarrow> d_mountRefs s' = d_mountRefs s
    | Inr u \<Rightarrow> refs_at (d_mountRefs s') (backing_dir sh) = refs_at (d_mountRefs s) (backing_dir sh) + 1 \<and>
        wp (releaseBackingMount E sh) (\<lambda>_ s''. d_mountRefs s'' = d_mountRefs s) s') s"
proof -
  have pos: "refs_positive (d_mountRefs s)" using assms by (simp add: refs_ok_positive)
  show ?thesis
  proof (rule wp_mono [OF acquire_spec [OF pos]])
    fix r and s' :: "'a drv"
    assume a: "only_refs s s' \<and> (case r of Inl e \<Rightarrow> d_mountRefs s' = d_mountRefs s
      | Inr u \<Rightarrow> backing_dir sh \<notin> d_mountLocks s \<and>
          d_mountRefs s' = snd (bump_refs (backing_dir sh) (d_mountRefs s)))"
    show "case r of Inl e \<Rightarrow> d_mountRefs s' = d_mountRefs s
      | Inr u \<Rightarrow> refs_at (d_mountRefs s') (backing_dir sh) = refs_at (d_mountRefs s) (backing_dir sh) + 1 \<and>
          wp (releaseBackingMount E sh) (\<lambda>_ s''. d_mountRefs s'' = d_mountRefs s) s'"
    proof (cases r)
      case (Inl e)
      then show ?thesis using a by simp
    next
      case (Inr u)
      then have m: "d_mountRefs s' = snd (bump_refs (backing_dir sh) (d_mountRefs s))"
        and free: "backing_dir sh \<notin> d_mountLocks s'"
        using a by (auto simp: only_refs_def same_locks_def)
      have p: "refs_positive (d_mountRefs s')" using m pos by (simp add: backing_refs.bump_positive)
      have "wp (releaseBackingMount E sh) (\<lambda>_ s''. d_mountRefs s'' = d_mountRefs s) s'"
        by (rule wp_mono [OF release_spec [OF p free]]) (use m drop_bump_refs [OF pos] in simp)
      then show ?thesis using Inr m backing_refs.bump_count by simp
    qed
  qed
qed

theorem acquire_counts_witness:
  "wp (acquireBackingMount sample_env (fst (env_DecShare sample_env [])) zero_HSVolume) (\<lambda>r s'. case r of
      Inl e \<Rightarrow> d_mountRefs s' = Map.empty
    | Inr u \<Rightarrow> refs_at (d_mountRefs s') (backing_dir (fst (env_DecShare sample_env []))) = 1 \<and>
        wp (releaseBackingMount sample_env (fst (env_DecShare sample_env [])))
          (\<lambda>_ s''. d_mountRefs s'' = Map.empty) s') (init_drv 0)"
proof -
  have "refs_ok (init_drv 0)" by (simp add: refs_ok_def init_drv_def)
  note c = acquire_counts [OF this, of sample_env "fst (env_DecShare sample_env [])" zero_HSVolume]
  have r: "d_mountRefs (init_drv 0) = Map.empty" by (simp add: init_drv_def)
  have z: "refs_at Map.empty (backing_dir (fst (env_DecShare sample_env []))) + 1 = 1" by (simp add: refs_at_def)
  from c show ?thesis unfolding r z .
qed

section \<open>Two observations\<close>

text \<open>A read-only attach takes a loop device that is already there as it is, writable or not: no
  \<open>losetup -r\<close> is run.\<close>

lemma readonly_attach_reuses:
  assumes "fst (env_Exec E ''losetup'' [''-j'', f] (d_world s)) = Exec_Output out" and "trim_space out \<noteq> []"
  shows "wp (AttachLoopDeviceWithRetry E f True) (\<lambda>r s'. r = Inr (trim_space (hd (split_on (CHR '':'') out))) \<and>
    d_trace s' = Ev_Exec ''losetup'' [''-j'', f] # d_trace s) s"
  using assms by (simp add: AttachLoopDeviceWithRetry_def execCommandHelper_def wp_rules)

text \<open>Acquiring the mount of a share the service does not know succeeds without mounting anything.\<close>

lemma acquire_without_share:
  "wp (acquireBackingMount sample_env sh v) (\<lambda>r s'. r = Inr () \<and>
     adds (\<lambda>ev. \<exists>u. ev = Ev_Http ''GET'' u) (init_drv 0) s') (init_drv 0)"
  by (simp add: acquireBackingMount_def with_mount_lock_def mount_Lock_def mount_Unlock_def bumpBackingRef_def
   bump_refs_def refs_at_def init_drv_def ensureBackingShareMounted_def GetShare_def GetShare_pair_def
   request_or_panic_def generateRequest_def doRequest_def http_Do_def read_response_def sample_env_def wp_rules adds_def Let_def)

end
