(* ===== verification/Node_Helper.thy ===== *)
theory Node_Helper
  imports Backing_Mount
begin

text \<open>
  Staging and publishing on a node (\<open>pkg/driver/node_helper.go\<close>): the private writable mount that
  grows a restored file system, the private bind that makes a publish read-only, NFS volumes
  (native and nested in a backing share) and file-backed volumes.
\<close>

section \<open>Private mounts\<close>

definition ctx_wrap :: "string \<Rightarrow> go_error \<Rightarrow> go_error" where
  "ctx_wrap m e = wrap_error (m @ '': '' @ err_text e) e"

text \<open>The deferred clean-up of a private mount point: unmount when still mounted, then remove.\<close>

definition private_cleanup :: "'w env \<Rightarrow> string \<Rightarrow> bool \<Rightarrow> ('w, unit) go" where
  "private_cleanup E dir mounted = do {
     u \<leftarrow> (if mounted then UnmountFilesystem E dir else ok ());
     r \<leftarrow> os_Remove E dir;
     ret ()
   }"

text \<open>The bodies return whether the private mount is still there, next to their result.\<close>

definition with_private_dir :: "'w env \<Rightarrow> string \<Rightarrow> string \<Rightarrow> (string \<Rightarrow> ('w, bool \<times> unit res) go)
    \<Rightarrow> ('w, unit res) go" where
  "with_private_dir E pattern what body =
     tryE (call (Ev_Mkdir pattern) (env_MkdirTemp E ShareStagingDir pattern))
       (ctx_wrap what) (\<lambda>dir. do {
       (mounted, r) \<leftarrow> body dir;
       private_cleanup E dir mounted;
       ret r
     })"

definition growFilesystemPrivatelyIfNeeded :: "'w env \<Rightarrow> string \<Rightarrow> string \<Rightarrow> ('w, unit res) go" where
  "growFilesystemPrivatelyIfNeeded E backingFile fsType =
     tryE (FilesystemNeedsGrowth E backingFile fsType) (ctx_wrap ''check filesystem size'') (\<lambda>grow.
     if \<not> grow then ok ()
     else with_private_dir E ''.hscsi-grow-'' ''create temporary filesystem mount'' (\<lambda>temporary. do {
       m \<leftarrow> MountFilesystem E backingFile temporary fsType [];
       (case m of
          Inl e \<Rightarrow> ret (False, Inl (ctx_wrap ''mount filesystem temporarily for growth'' e))
        | Inr _ \<Rightarrow> do {
            g \<leftarrow> ReconcileFilesystemToBackingFile E temporary backingFile fsType;
            (case g of
               Inl e \<Rightarrow> ret (True, Inl (ctx_wrap ''reconcile restored filesystem during provisioning'' e))
             | Inr _ \<Rightarrow> do {
                 u \<leftarrow> UnmountFilesystem E temporary;
                 (case u of
                    Inl e \<Rightarrow> ret (True, Inl (ctx_wrap ''unmount temporary filesystem after growth'' e))
                  | Inr _ \<Rightarrow> ret (False, Inr ()))
               })
          })
     }))"

text \<open>When the private bind cannot be removed the final bind is rolled back.\<close>

definition rollback_bind :: "'w env \<Rightarrow> string \<Rightarrow> go_error \<Rightarrow> ('w, unit res) go" where
  "rollback_bind E target e = do {
     rb \<leftarrow> UnmountFilesystem E target;
     (case rb of
        Inl re \<Rightarrow> fail (new_error (''clean private bind mount: '' @ err_text e @
          '' (rollback target failed: '' @ err_text re @ '')''))
      | Inr _ \<Rightarrow> fail (ctx_wrap ''clean private bind mount'' e))
   }"

definition bindMountReadOnly :: "'w env \<Rightarrow> string \<Rightarrow> string \<Rightarrow> ('w, unit res) go" where
  "bindMountReadOnly E source target =
     with_private_dir E ''.hscsi-bind-'' ''create private bind mount'' (\<lambda>dir. do {
       b \<leftarrow> BindMountDevice E source dir;
       (case b of
          Inl e \<Rightarrow> ret (False, Inl (ctx_wrap (''create private bind from '' @ source) e))
        | Inr _ \<Rightarrow> do {
            ro \<leftarrow> RemountBindReadOnly E dir;
            (case ro of
               Inl e \<Rightarrow> ret (True, Inl (ctx_wrap ''make private bind read-only'' e))
             | Inr _ \<Rightarrow> do {
                 f \<leftarrow> BindMountDevice E dir target;
                 (case f of
                    Inl e \<Rightarrow> ret (True, Inl e)
                  | Inr _ \<Rightarrow> do {
                      u \<leftarrow> UnmountFilesystem E dir;
                      (case u of
                         Inl e \<Rightarrow> do {
                           r \<leftarrow> rollback_bind E target e;
                           ret (True, r)
                         }
                       | Inr _ \<Rightarrow> ret (False, Inr ()))
                    })
               })
          })
     })"

section \<open>NFS volumes\<close>

definition nestedNFSSubPath :: "string \<Rightarrow> string \<Rightarrow> string res" where
  "nestedNFSSubPath volumeID backingExportPath =
     (let subPath = trim_prefix volumeID backingExportPath
      in if subPath = volumeID \<or> \<not> has_prefix subPath ''/'' \<or> length subPath < 2
         then Inl (new_error (''volume '' @ volumeID @ '' is not a directory inside backing share '' @
           backingExportPath))
         else Inr subPath)"

definition names_sharecache :: "string \<Rightarrow> bool" where
  "names_sharecache flag \<longleftrightarrow>
     (\<exists>option \<in> set (split_on (CHR '','') flag). option = ''nosharecache'' \<or> option = ''sharecache'')"

definition nestedNFSMountFlags :: "string list \<Rightarrow> string list" where
  "nestedNFSMountFlags mountFlags =
     (if \<exists>flag \<in> set mountFlags. names_sharecache flag then mountFlags
      else mountFlags @ [''nosharecache''])"

definition stageNestedNFSVolume :: "'w env \<Rightarrow> string \<Rightarrow> string \<Rightarrow> string \<Rightarrow> string list \<Rightarrow> string
    \<Rightarrow> ('w, unit res) go" where
  "stageNestedNFSVolume E backingShareName volumeID stagingTarget mountFlags fqdn =
     tryE (GetShare E backingShareName)
       (\<lambda>e. status_error Internal (''look up backing share '' @ backingShareName @ '': '' @ err_text e))
       (\<lambda>share. case share of
          None \<Rightarrow> fail (status_error NotFound (''backing share '' @ backingShareName @ '' not found''))
        | Some backingShare \<Rightarrow>
            tryE (ret (nestedNFSSubPath volumeID (sh_ExportPath backingShare)))
              (\<lambda>e. status_error InvalidArgument (err_text e)) (\<lambda>subPath.
            mountShareSubPathAtBestDataportal E (sh_ExportPath backingShare) subPath stagingTarget
              (nestedNFSMountFlags mountFlags) fqdn))"

definition stageNFSVolume :: "'w env \<Rightarrow> string \<Rightarrow> string \<Rightarrow> string list \<Rightarrow> smap \<Rightarrow> ('w, unit res) go" where
  "stageNFSVolume E volumeID stagingTarget mountFlags volumeContext =
     (let backingShareName = mget volumeContext ''mountBackingShareName'' in
      if backingShareName \<noteq> [] then
        stageNestedNFSVolume E backingShareName volumeID stagingTarget mountFlags
          (mget volumeContext ''fqdn'')
      else MountShareAtBestDataportal E volumeID stagingTarget mountFlags (mget volumeContext ''fqdn''))"

text \<open>Whether the target is already published; a stale target is detached first.\<close>

definition nfs_target_ready :: "'w env \<Rightarrow> string \<Rightarrow> ('w, bool res) go" where
  "nfs_target_ready E targetPath = do {
     m \<leftarrow> SafeIsMountPoint E targetPath;
     (case m of
        Inr mounted \<Rightarrow> ok mounted
      | Inl e \<Rightarrow>
          if IsNotExist e then ok False
          else if is_io_error e then
            tryE (ForceUnmountFilesystem E targetPath)
              (\<lambda>ue. status_error Internal (''clean stale NFS target '' @ targetPath @ '': '' @ err_text ue))
              (\<lambda>_. ok False)
          else fail (status_error Internal (''check NFS target '' @ targetPath @ '': '' @ err_text e)))
   }"

definition not_staged :: "string \<Rightarrow> string \<Rightarrow> go_error" where
  "not_staged volumeId stagingTarget = status_error FailedPrecondition
     (''NFS volume '' @ volumeId @ '' is not mounted at staging path '' @ stagingTarget @
      ''; refusing to publish an unbacked directory'')"

text \<open>The staging path has the volume mounted, or is staged now.\<close>

definition ensure_staged :: "'w env \<Rightarrow> string \<Rightarrow> string \<Rightarrow> string list \<Rightarrow> smap \<Rightarrow> ('w, unit res) go" where
  "ensure_staged E volumeId stagingTarget mountFlags volumeContext =
     tryE (SafeIsMountPoint E stagingTarget)
       (\<lambda>e. status_error Internal (''check staged NFS volume '' @ volumeId @ '' at '' @ stagingTarget @
          '': '' @ err_text e)) (\<lambda>staged.
     if staged then ok ()
     else tryE (stageNFSVolume E volumeId stagingTarget mountFlags volumeContext) id (\<lambda>_. do {
       again \<leftarrow> SafeIsMountPoint E stagingTarget;
       (case again of
          Inr b \<Rightarrow> if b then ok () else fail (not_staged volumeId stagingTarget)
        | Inl _ \<Rightarrow> fail (not_staged volumeId stagingTarget))
     }))"

definition publishShareBackedVolume :: "'w env \<Rightarrow> string \<Rightarrow> string \<Rightarrow> string \<Rightarrow> string list \<Rightarrow> bool
    \<Rightarrow> smap \<Rightarrow> ('w, unit res) go" where
  "publishShareBackedVolume E volumeId stagingTarget targetPath mountFlags readOnly volumeContext =
     tryE (nfs_target_ready E targetPath) id (\<lambda>published.
     if published then ok ()
     else tryE (os_MkdirAll E targetPath)
       (\<lambda>e. status_error Internal (''create NFS target '' @ targetPath @ '': '' @ err_text e)) (\<lambda>_.
     if stagingTarget \<noteq> [] then
       tryE (ensure_staged E volumeId stagingTarget mountFlags volumeContext) id (\<lambda>_.
       tryE (if readOnly then bindMountReadOnly E stagingTarget targetPath
             else BindMountDevice E stagingTarget targetPath)
         (\<lambda>e. status_error Internal (''bind staged NFS volume '' @ stagingTarget @ '' to '' @
            targetPath @ '': '' @ err_text e)) (\<lambda>_. ok ()))
     else MountShareAtBestDataportal E volumeId targetPath
       (if readOnly then mountFlags @ [''ro''] else mountFlags) (mget volumeContext ''fqdn'')))"

section \<open>File-backed volumes\<close>

text \<open>The error of closing a new file is looked at only where a target is made again.\<close>

definition make_target :: "'w env \<Rightarrow> string \<Rightarrow> string \<Rightarrow> bool \<Rightarrow> string \<Rightarrow> string \<Rightarrow> ('w, unit res) go" where
  "make_target E targetPath fsType again mdir mfile =
     (if fsType \<noteq> [] then
        tryE (os_MkdirAll E targetPath) (\<lambda>e. status_error Internal (mdir @ err_text e)) (\<lambda>_. ok ())
      else
        tryE (os_MkdirAll E (path_dir targetPath)) internal (\<lambda>_.
        tryE (os_CreateExcl E targetPath) (\<lambda>e. status_error Internal (mfile @ err_text e)) (\<lambda>_. do {
          c \<leftarrow> call (Ev_Query ''close'' targetPath) (env_CloseFile E targetPath);
          (case c of Inl e \<Rightarrow> if again then fail (internal e) else ok () | Inr _ \<Rightarrow> ok ())
        })))"

text \<open>Whether the target is already mounted, with a missing or shut-down target made anew.\<close>

definition file_target_mounted :: "'w env \<Rightarrow> string \<Rightarrow> string \<Rightarrow> ('w, bool res) go" where
  "file_target_mounted E targetPath fsType = do {
     m \<leftarrow> SafeIsMountPoint E targetPath;
     (case m of
        Inr mounted \<Rightarrow> ok mounted
      | Inl e \<Rightarrow>
          if IsNotExist e then tryE (make_target E targetPath fsType False [] []) id (\<lambda>_. ok False)
          else if err_errno e = Some EIO then
            tryE (ForceUnmountFilesystem E targetPath)
              (\<lambda>ue. status_error Internal
                 (''failed to clean up publish target after I/O error: '' @ err_text ue)) (\<lambda>_.
            tryE (make_target E targetPath fsType True
                    ''failed to recreate publish target after I/O error: ''
                    ''failed to recreate block publish target after I/O error: '') id (\<lambda>_. ok False))
          else fail (status_error Internal (''failed to inspect publish target '' @ targetPath @
            '': '' @ err_text e)))
   }"

text \<open>The clean-up of a failed publish; its own outcome is only logged.\<close>

definition unmount_unused :: "'w env \<Rightarrow> string \<Rightarrow> ('w, unit) go" where
  "unmount_unused E backingShareName = do {
     _ \<leftarrow> UnmountBackingShareIfUnused E backingShareName;
     ret ()
   }"

definition publish_block :: "'w env \<Rightarrow> string \<Rightarrow> string \<Rightarrow> string \<Rightarrow> bool \<Rightarrow> ('w, unit res) go" where
  "publish_block E backingShareName filePath targetPath readOnly = do {
     a \<leftarrow> AttachLoopDeviceWithRetry E filePath readOnly;
     (case a of
        Inl _ \<Rightarrow> do {
          CleanupLoopDevice E [];
          unmount_unused E backingShareName;
          fail (status_error Internal (LoopDeviceAttachFailed [] filePath))
        }
      | Inr deviceStr \<Rightarrow> do {
          b \<leftarrow> BindMountDevice E deviceStr targetPath;
          (case b of
             Inl e \<Rightarrow> do {
               CleanupLoopDevice E deviceStr;
               unmount_unused E backingShareName;
               fail e
             }
           | Inr _ \<Rightarrow> ok ())
        })
   }"

definition not_grown :: "string \<Rightarrow> go_error" where
  "not_grown filePath = status_error FailedPrecondition (''filesystem in '' @ filePath @
     '' has not been grown to its provisioned capacity; publish it writable once or retry CreateVolume reconciliation'')"

text \<open>The mount flags; a read-only publish of a file system still to be grown is refused.\<close>

definition publish_flags :: "'w env \<Rightarrow> string \<Rightarrow> string \<Rightarrow> string \<Rightarrow> bool \<Rightarrow> ('w, string list res) go" where
  "publish_flags E backingShareName filePath fsType readOnly =
     (if readOnly then do {
        g \<leftarrow> FilesystemNeedsGrowth E filePath fsType;
        (case g of
           Inl e \<Rightarrow> do {
             unmount_unused E backingShareName;
             fail (status_error Internal (''verify filesystem before read-only publish: '' @ err_text e))
           }
         | Inr needsGrowth \<Rightarrow>
             if needsGrowth then do {
               unmount_unused E backingShareName;
               fail (not_grown filePath)
             } else ok [''ro''])
      } else ok [])"

definition publish_filesystem :: "'w env \<Rightarrow> string \<Rightarrow> string \<Rightarrow> string \<Rightarrow> string \<Rightarrow> bool
    \<Rightarrow> ('w, unit res) go" where
  "publish_filesystem E backingShareName filePath targetPath fsType readOnly =
     tryE (publish_flags E backingShareName filePath fsType readOnly) id (\<lambda>flags. do {
       m \<leftarrow> MountFilesystem E filePath targetPath fsType flags;
       (case m of
          Inl e \<Rightarrow> do {
            unmount_unused E backingShareName;
            fail e
          }
        | Inr _ \<Rightarrow> ok ())
     })"

definition reconcilePublishedFilesystem :: "'w env \<Rightarrow> string \<Rightarrow> string \<Rightarrow> string \<Rightarrow> bool
    \<Rightarrow> ('w, unit res) go" where
  "reconcilePublishedFilesystem E targetPath filePath fsType freshMount = do {
     r \<leftarrow> ReconcileFilesystemToBackingFile E targetPath filePath fsType;
     (case r of
        Inr _ \<Rightarrow> ok ()
      | Inl e \<Rightarrow>
          if \<not> freshMount then ok ()
          else do {
            _ \<leftarrow> UnmountFilesystem E targetPath;
            fail (status_error Internal (''failed to reconcile filesystem size: '' @ err_text e))
          })
   }"

definition publishFileBackedVolume :: "'w env \<Rightarrow> string \<Rightarrow> string \<Rightarrow> string \<Rightarrow> string \<Rightarrow> string list
    \<Rightarrow> bool \<Rightarrow> string \<Rightarrow> ('w, unit res) go" where
  "publishFileBackedVolume E backingShareName volumePath targetPath fsType mountFlags readOnly fqdn =
     with_volume_lock E backingShareName (
       tryE (file_target_mounted E targetPath fsType) id (\<lambda>mounted.
       let filePath = ShareStagingDir @ volumePath;
           hsVolume = zero_HSVolume\<lparr>hv_FQDN := fqdn, hv_FSType := fsType, hv_MountFlags := mountFlags\<rparr>
       in tryE (if mounted then ok ()
                else tryE (EnsureBackingShareMounted E backingShareName hsVolume) id (\<lambda>_.
                  if fsType = [] then publish_block E backingShareName filePath targetPath readOnly
                  else publish_filesystem E backingShareName filePath targetPath fsType readOnly))
            id (\<lambda>_.
          if fsType \<noteq> [] \<and> \<not> readOnly then do {
            r \<leftarrow> reconcilePublishedFilesystem E targetPath filePath fsType (\<not> mounted);
            (case r of
               Inl e \<Rightarrow> do {
                 unmount_unused E backingShareName;
                 fail e
               }
             | Inr _ \<Rightarrow> ok ())
          } else ok ())))"

definition unpublishFileBackedVolume :: "'w env \<Rightarrow> string \<Rightarrow> string \<Rightarrow> ('w, unit res) go" where
  "unpublishFileBackedVolume E volumePath targetPath =
     (let backingShareName = path_dir volumePath
      in with_volume_lock E backingShareName (
        tryE (GetDeviceMinorNumber E targetPath) internal (\<lambda>deviceMinor.
        let lodevice = ''/dev/loop'' @ FormatInt deviceMinor in
        tryE (ExecCommand E ''umount'' [targetPath]) internal (\<lambda>_.
        tryE (os_Remove E targetPath) internal (\<lambda>_.
        tryE (ExecCommand E ''losetup'' [''-d'', lodevice]) internal (\<lambda>_.
        tryE (UnmountBackingShareIfUnused E backingShareName) internal (\<lambda>_. ok ())))))))"

section \<open>Frames\<close>

lemma private_quiet [frame_intros]:
  "state_io_rel quiet (private_cleanup E d m)"
  "state_io_rel quiet (rollback_bind E t e)"
  "state_io_rel quiet (unmount_unused E n)"
  "state_io_rel quiet (make_target E t fs again a b)"
  "state_io_rel quiet (nfs_target_ready E t)"
  unfolding private_cleanup_def rollback_bind_def unmount_unused_def make_target_def
    nfs_target_ready_def
  by (intro frame_intros)+

lemma with_private_dir_quiet [frame_intros]:
  "(\<And>d. state_io_rel quiet (body d)) \<Longrightarrow> state_io_rel quiet (with_private_dir E p w body)"
  unfolding with_private_dir_def by (intro frame_intros)

lemma node_mounts_quiet [frame_intros]:
  "state_io_rel quiet (growFilesystemPrivatelyIfNeeded E b fs)"
  "state_io_rel quiet (bindMountReadOnly E src t)"
  "state_io_rel quiet (stageNestedNFSVolume E b v t fl fqdn)"
  "state_io_rel quiet (file_target_mounted E t fs)"
  "state_io_rel quiet (publish_block E b p t r)"
  "state_io_rel quiet (publish_filesystem E b p t fs r)"
  "state_io_rel quiet (reconcilePublishedFilesystem E t p fs f)"
  "state_io_rel quiet (unpublishFileBackedVolume E v t)"
  unfolding growFilesystemPrivatelyIfNeeded_def bindMountReadOnly_def stageNestedNFSVolume_def
    file_target_mounted_def publish_block_def publish_filesystem_def publish_flags_def
    reconcilePublishedFilesystem_def unpublishFileBackedVolume_def Let_def
  by (intro frame_intros)+

lemma stageNFSVolume_quiet [frame_intros]: "state_io_rel quiet (stageNFSVolume E v t fl c)"
  unfolding stageNFSVolume_def Let_def by (intro frame_intros)

lemma ensure_staged_quiet [frame_intros]: "state_io_rel quiet (ensure_staged E v t fl c)"
  unfolding ensure_staged_def by (intro frame_intros)

lemma publish_quiet [frame_intros]:
  "state_io_rel quiet (publishShareBackedVolume E v st t fl r c)"
  "state_io_rel quiet (publishFileBackedVolume E b v t fs fl r fqdn)"
  unfolding publishShareBackedVolume_def publishFileBackedVolume_def Let_def
  by (intro frame_intros)+

lemmas node_helper_quiet = private_quiet node_mounts_quiet stageNFSVolume_quiet ensure_staged_quiet
  publish_quiet

lemmas node_helper_keeps [frame_intros] =
  node_helper_quiet [THEN quiet_keeps(1)] node_helper_quiet [THEN quiet_keeps(2)]
  node_helper_quiet [THEN quiet_keeps(3)] node_helper_quiet [THEN quiet_keeps(4)]
  node_helper_quiet [THEN quiet_keeps(5)]

section \<open>Properties\<close>

text \<open>The sub-path of a nested NFS volume is exact: it is found just when the volume's ID is the
  backing share's export path followed by a slash and more, and then it is what follows; anything
  else, a volume of another share included, is refused.\<close>

theorem nestedNFSSubPath_exact:
  "(nestedNFSSubPath v exp = Inr sub) \<longleftrightarrow> v = exp @ sub \<and> exp \<noteq> [] \<and> has_prefix sub ''/'' \<and> 2 \<le> length sub"
proof
  assume "nestedNFSSubPath v exp = Inr sub"
  then show "v = exp @ sub \<and> exp \<noteq> [] \<and> has_prefix sub ''/'' \<and> 2 \<le> length sub"
    by (cases "has_prefix v exp")
      (auto simp: nestedNFSSubPath_def Let_def has_prefix_iff trim_prefix_def split: if_splits)
next
  assume "v = exp @ sub \<and> exp \<noteq> [] \<and> has_prefix sub ''/'' \<and> 2 \<le> length sub"
  then show "nestedNFSSubPath v exp = Inr sub" by (simp add: nestedNFSSubPath_def)
qed

lemma first_event_lock:
  assumes "state_io_rel extends_trace body"
  shows "wp (with_volume_lock E k body) (\<lambda>_ s'. \<exists>evs. d_trace s' = evs @ [Ev_Query ''lock'' k] @ d_trace s) s"
proof -
  have rest: "wp (deferring (releaseVolumeLock k) body) (\<lambda>_ u. extends_trace t u) t" for t
    by (intro tr.keep_wp tr.keep_deferring assms lock_ops_keep) simp
  have "wp (deferring (releaseVolumeLock k) body)
      (\<lambda>_ u. \<exists>evs. d_trace u = evs @ [Ev_Query ''lock'' k] @ d_trace s) t"
    if "d_trace t = Ev_Query ''lock'' k # d_trace s" for t
    by (rule wp_mono [OF rest]) (use that in \<open>auto simp: extends_trace_def\<close>)
  then show ?thesis
    by (simp add: with_volume_lock_def acquireVolumeLock_def wp_tryE wp_bind wp_State wp_call wp_if wp_return)
qed

text \<open>Publishing and unpublishing a file-backed volume do not exclude each other: publishing takes the
  lock named after the backing share, unpublishing the lock named after its path, which starts with a
  slash. Each takes its lock before anything else.\<close>

theorem publish_unpublish_keys:
  assumes "segment share" and "segment name"
  shows "wp (publishFileBackedVolume E share (file_volume_id share name) t fs fl ro fqdn)
      (\<lambda>_ s'. \<exists>evs. d_trace s' = evs @ [Ev_Query ''lock'' share] @ d_trace s) s \<and>
    wp (unpublishFileBackedVolume E (file_volume_id share name) t)
      (\<lambda>_ s'. \<exists>evs. d_trace s' = evs @ [Ev_Query ''lock'' (''/'' @ share)] @ d_trace s) s"
proof -
  have d: "path_dir (file_volume_id share name) = ''/'' @ share"
    using path_dir_nested [of share name] assms by (simp add: file_volume_id_def SharePathPrefix_def)
  show ?thesis unfolding publishFileBackedVolume_def unpublishFileBackedVolume_def GetDeviceMinorNumber_def Let_def d
    by (intro conjI first_event_lock frame_intros)
qed

theorem publish_unpublish_keys_witness:
  "wp (unpublishFileBackedVolume sample_env (file_volume_id ''share'' ''f'') ''/dev/x'')
     (\<lambda>_ s'. \<exists>evs. d_trace s' = evs @ [Ev_Query ''lock'' ''/share'']) (init_drv 0)"
  using publish_unpublish_keys [of "''share''" "''f''" sample_env "''/dev/x''" "[]" "[]" False "[]" "init_drv 0"]
  by (simp add: segment_def init_drv_def)

end
