(* ===== verification/Params.thy ===== *)
theory Params
  imports Host Volume_Ids
begin

text \<open>
  The StorageClass parameters of a volume (\<open>parseVolParams\<close>), the size floors of file-backed
  volumes and the mount flags of a request (\<open>pkg/driver/controller.go\<close>).
\<close>

section \<open>Parsing\<close>

definition invalid_argument :: "string \<Rightarrow> go_error" where
  "invalid_argument m = status_error InvalidArgument m"

definition parse_deleteDelay :: "smap \<Rightarrow> int res" where
  "parse_deleteDelay params =
     (case params ''deleteDelay'' of
        None \<Rightarrow> Inr (- 1)
      | Some v \<Rightarrow> (case ParseInt v of
          None \<Rightarrow> Inl (invalid_argument (InvalidDeleteDelay v))
        | Some n \<Rightarrow> Inr n))"

definition parse_comment :: "smap \<Rightarrow> string res" where
  "parse_comment params =
     (case params ''comment'' of
        None \<Rightarrow> Inr ''Created by CSI driver''
      | Some v \<Rightarrow> if length v > 255 then Inl (invalid_argument InvalidCommentSize) else Inr v)"

definition parse_objectives :: "smap \<Rightarrow> string list" where
  "parse_objectives params =
     (case params ''objectives'' of
        None \<Rightarrow> []
      | Some v \<Rightarrow> filter (\<lambda>t. t \<noteq> []) (map trim_space (split_on (CHR '','') v)))"

definition parse_export_option :: "string \<Rightarrow> ShareExportOptions res" where
  "parse_export_option opt =
     (case split_on (CHR '','') opt of
        [subnet, access, squash] \<Rightarrow>
          (let rootSquashStr = trim_space squash in
           case ParseBool rootSquashStr of
             None \<Rightarrow> Inl (invalid_argument (InvalidRootSquash rootSquashStr))
           | Some b \<Rightarrow> Inr \<lparr>eo_Subnet = trim_space subnet, eo_AccessPermissions = trim_space access,
               eo_RootSquash = b\<rparr>)
      | _ \<Rightarrow> Inl (invalid_argument (InvalidExportOptions opt)))"

fun parse_export_options :: "string list \<Rightarrow> ShareExportOptions list res" where
  "parse_export_options [] = Inr []"
| "parse_export_options (opt # opts) =
     (case parse_export_option opt of
        Inl e \<Rightarrow> Inl e
      | Inr eo \<Rightarrow> (case parse_export_options opts of Inl e \<Rightarrow> Inl e | Inr eos \<Rightarrow> Inr (eo # eos)))"

definition parse_exportOptions :: "smap \<Rightarrow> ShareExportOptions list res" where
  "parse_exportOptions params =
     (case params ''exportOptions'' of
        None \<Rightarrow> Inr []
      | Some v \<Rightarrow> parse_export_options (split_on (CHR '';'') v))"

definition parse_volumeNameFormat :: "smap \<Rightarrow> string res" where
  "parse_volumeNameFormat params =
     (case params ''volumeNameFormat'' of
        None \<Rightarrow> Inr DefaultVolumeNameFormat
      | Some v \<Rightarrow>
          if count_sub v ''%s'' \<noteq> 1 then Inl (invalid_argument (''volumeNameFormat must contain '' @
            go_quote ''%s'' @ '' exactly once''))
          else if contains v ''/'' then
            Inl (invalid_argument ''volumeNameFormat must not contain forward slashes'')
          else Inr v)"

fun parse_tags :: "string list \<Rightarrow> smap \<Rightarrow> smap res" where
  "parse_tags [] m = Inr m"
| "parse_tags (t # ts) m =
     (case split_on (CHR ''='') t of
        [k, v] \<Rightarrow> parse_tags ts (m(trim_space k \<mapsto> trim_space v))
      | _ \<Rightarrow> Inl (invalid_argument (InvalidAdditionalMetadataTags t)))"

definition parse_additionalMetadataTags :: "smap \<Rightarrow> smap res" where
  "parse_additionalMetadataTags params =
     (case params ''additionalMetadataTags'' of
        None \<Rightarrow> Inr Map.empty
      | Some v \<Rightarrow> parse_tags (split_on (CHR '','') v) Map.empty)"

text \<open>An unreadable \<open>cacheEnabled\<close> is logged and reads as false.\<close>

definition parse_cacheEnabled :: "smap \<Rightarrow> bool" where
  "parse_cacheEnabled params =
     (case ParseBool (mget params ''cacheEnabled'') of None \<Rightarrow> False | Some b \<Rightarrow> b)"

definition parse_objectiveTarget :: "smap \<Rightarrow> string res" where
  "parse_objectiveTarget params =
     (let target = mget params ''objectiveTarget'' in
      if target = [] \<or> target = ''share'' then Inr ''share''
      else if target = ''file'' \<or> target = ''both'' then Inr target
      else Inl (invalid_argument (''invalid objectiveTarget '' @ go_quote target @
        '' (must be one of: share, file, both)'')))"

text \<open>An FQDN that does not resolve is dropped.\<close>

definition resolve_param_fqdn :: "'w env \<Rightarrow> smap \<Rightarrow> ('w, string) go" where
  "resolve_param_fqdn E params =
     (let fqdn = mget params ''fqdn'' in
      if fqdn = [] then ret []
      else do {
        r \<leftarrow> ResolveFQDN E fqdn;
        ret (case r of Inl _ \<Rightarrow> [] | Inr _ \<Rightarrow> fqdn)
      })"

definition parseVolParams :: "'w env \<Rightarrow> smap \<Rightarrow> ('w, HSVolumeParameters res) go" where
  "parseVolParams E params =
     tryE (ret (parse_deleteDelay params)) id (\<lambda>deleteDelay.
     tryE (ret (parse_comment params)) id (\<lambda>comment.
     tryE (ret (parse_exportOptions params)) id (\<lambda>exportOptions.
     tryE (ret (parse_volumeNameFormat params)) id (\<lambda>nameFormat.
     tryE (ret (parse_additionalMetadataTags params)) id (\<lambda>tags. do {
     fqdn \<leftarrow> resolve_param_fqdn E params;
     tryE (ret (parse_objectiveTarget params)) id (\<lambda>target.
     ok \<lparr>vp_DeleteDelay = deleteDelay, vp_ExportOptions = exportOptions,
         vp_Objectives = parse_objectives params,
         vp_BlockBackingShareName = mget params ''blockBackingShareName'',
         vp_MountBackingShareName = mget params ''mountBackingShareName'',
         vp_VolumeNameFormat = nameFormat, vp_FSType = mget params ''fsType'', vp_Comment = comment,
         vp_AdditionalMetadataTags = tags, vp_CacheEnabled = parse_cacheEnabled params,
         vp_FQDN = fqdn, vp_ObjectiveTarget = target\<rparr>)
     })))))"

definition mib :: int where "mib = 1024 * 1024"

text \<open>Go's division truncates toward zero; the sizes printed here may be negative.\<close>

definition quot_mib :: "int \<Rightarrow> int" where
  "quot_mib n = (if n < 0 then - ((- n) div mib) else n div mib)"

definition checkFileBackedMinSize :: "string \<Rightarrow> int \<Rightarrow> unit res" where
  "checkFileBackedMinSize fsType requestedSize =
     (if fsType = ''xfs'' then
        (if requestedSize < MinXfsSizeBytes then
           Inl (invalid_argument (XfsSizeBelowMinimum MinXfsSizeBytes (quot_mib MinXfsSizeBytes)
             requestedSize (quot_mib requestedSize)))
         else Inr ())
      else if fsType = ''ext4'' then
        (if requestedSize < MinExt4SizeBytes then
           Inl (invalid_argument (Ext4SizeBelowMinimum MinExt4SizeBytes (quot_mib MinExt4SizeBytes)
             requestedSize (quot_mib requestedSize)))
         else Inr ())
      else if fsType = ''ext3'' then Inl (invalid_argument Ext3NotSupported)
      else Inr ())"

fun getMountFlagsFromCapabilities :: "VolumeCapability list \<Rightarrow> string list" where
  "getMountFlagsFromCapabilities [] = []"
| "getMountFlagsFromCapabilities (c # cs) =
     (case GetMount c of Some (fs, flags) \<Rightarrow> flags | None \<Rightarrow> getMountFlagsFromCapabilities cs)"

section \<open>Frames\<close>

lemma resolve_param_fqdn_quiet [frame_intros]: "state_io_rel quiet (resolve_param_fqdn E p)"
  unfolding resolve_param_fqdn_def Let_def by (intro frame_intros)

lemma parseVolParams_quiet [frame_intros]: "state_io_rel quiet (parseVolParams E p)"
  unfolding parseVolParams_def by (intro frame_intros)

section \<open>What the parser promises\<close>

text \<open>A result is either an error of code InvalidArgument or a good value.\<close>

definition parses :: "('a \<Rightarrow> bool) \<Rightarrow> 'a res \<Rightarrow> bool" where
  "parses P r \<longleftrightarrow> (case r of Inl e \<Rightarrow> err_code e = Some InvalidArgument | Inr v \<Rightarrow> P v)"

lemma parses_Inl: "parses P r \<Longrightarrow> r = Inl e \<Longrightarrow> err_code e = Some InvalidArgument"
  by (simp add: parses_def)

lemma parses_deleteDelay: "parses (\<lambda>n. MinInt64 \<le> n \<and> n \<le> MaxInt64) (parse_deleteDelay p)"
  by (auto simp: parses_def parse_deleteDelay_def invalid_argument_def MinInt64_def MaxInt64_def
      dest: ParseInt_range split: option.splits)

lemma parses_comment: "parses (\<lambda>c. length c \<le> 255) (parse_comment p)"
  by (auto simp: parses_def parse_comment_def invalid_argument_def split: option.splits)

text \<open>A text that was cut out of a list and trimmed: no white space around it, none of the given separators in it.\<close>

definition cut_out :: "string \<Rightarrow> string \<Rightarrow> bool" where
  "cut_out seps x \<longleftrightarrow> trim_space x = x \<and> set seps \<inter> set x = {}"

lemma set_trim_space: "set (trim_space x) \<subseteq> set x"
  unfolding trim_space_def trim_by_def by (auto dest!: set_dropWhileD)

lemma cut_out_trim: "set seps \<inter> set x = {} \<Longrightarrow> cut_out seps (trim_space x)"
  using set_trim_space [of x] by (auto simp: cut_out_def trim_space_def trim_by_idem)

lemma split_on_parts_sub: "x \<in> set (split_on c s) \<Longrightarrow> set x \<subseteq> set s"
  by (induction s arbitrary: x) (fastforce split: if_splits list.splits)+

lemma cut_out_part: "x \<in> set (split_on c s) \<Longrightarrow> set seps \<inter> set s = {} \<Longrightarrow> cut_out (c # seps) (trim_space x)"
proof -
  assume x: "x \<in> set (split_on c s)" and s: "set seps \<inter> set s = {}"
  have "set x \<subseteq> set s" using x split_on_parts_sub by blast
  then show ?thesis using split_on_parts_no_sep [OF x] s by (intro cut_out_trim) auto
qed

definition export_ok :: "ShareExportOptions \<Rightarrow> bool" where
  "export_ok eo \<longleftrightarrow> cut_out '',;'' (eo_Subnet eo) \<and> cut_out '',;'' (eo_AccessPermissions eo)"

lemma parses_export_option:
  assumes "CHR '';'' \<notin> set opt"
  shows "parses export_ok (parse_export_option opt)"
  using cut_out_part [of _ "CHR '',''" opt "'';''"] assms
  by (auto simp: parses_def parse_export_option_def invalid_argument_def Let_def export_ok_def
      split: list.splits option.splits)

lemma parses_export_options:
  "list_all (\<lambda>opt. CHR '';'' \<notin> set opt) opts \<Longrightarrow>
   parses (\<lambda>eos. length eos = length opts \<and> list_all export_ok eos) (parse_export_options opts)"
proof (induction opts)
  case Nil
  then show ?case by (simp add: parses_def)
next
  case (Cons opt opts)
  with parses_export_option [of opt] show ?case by (auto simp: parses_def split: sum.splits)
qed

lemma parses_exportOptions: "parses (list_all export_ok) (parse_exportOptions p)"
proof -
  have "list_all (\<lambda>opt. CHR '';'' \<notin> set opt) (split_on (CHR '';'') v)" for v
    by (auto simp: list_all_iff dest: split_on_parts_no_sep)
  then have "parses (list_all export_ok) (parse_export_options (split_on (CHR '';'') v))" for v
    using parses_export_options [of "split_on (CHR '';'') v"] by (auto simp: parses_def split: sum.splits)
  then show ?thesis by (auto simp: parse_exportOptions_def parses_def split: option.splits)
qed

lemma parses_nameFormat:
  "parses (\<lambda>f. count_sub f ''%s'' = 1 \<and> \<not> contains f ''/'') (parse_volumeNameFormat p)"
proof -
  have "count_sub ''%s'' ''%s'' = 1"
    by (simp add: count_sub.simps [of "''%s''"] count_sub.simps [of "[]"] has_prefix_def)
  then show ?thesis
    by (auto simp: parses_def parse_volumeNameFormat_def invalid_argument_def
        DefaultVolumeNameFormat_def contains_def has_prefix_def split: option.splits)
qed

definition tags_ok :: "smap \<Rightarrow> bool" where
  "tags_ok m \<longleftrightarrow> (\<forall>k v. m k = Some v \<longrightarrow> cut_out ''=,'' k \<and> cut_out ''=,'' v)"

lemma parses_tags:
  "list_all (\<lambda>t. CHR '','' \<notin> set t) ts \<Longrightarrow> tags_ok m \<Longrightarrow> parses tags_ok (parse_tags ts m)"
proof (induction ts arbitrary: m)
  case (Cons t ts)
  have "tags_ok (m(trim_space k \<mapsto> trim_space v))" if "split_on (CHR ''='') t = [k, v]" for k v
    using Cons.prems that cut_out_part [of _ "CHR ''=''" t "'',''"] by (simp add: tags_ok_def)
  with Cons show ?case by (auto simp: parses_def invalid_argument_def split: list.splits)
qed (simp add: parses_def)

lemma parses_metadata: "parses tags_ok (parse_additionalMetadataTags p)"
proof -
  have "parses tags_ok (parse_tags (split_on (CHR '','') v) Map.empty)" for v
    by (rule parses_tags) (auto simp: list_all_iff tags_ok_def dest: split_on_parts_no_sep)
  then show ?thesis by (auto simp: parse_additionalMetadataTags_def parses_def tags_ok_def split: option.splits)
qed

lemma parses_target: "parses (\<lambda>t. t \<in> {''share'', ''file'', ''both''}) (parse_objectiveTarget p)"
  by (auto simp: parses_def parse_objectiveTarget_def invalid_argument_def Let_def)

lemma parse_objectives_clean:
  assumes "x \<in> set (parse_objectives p)"
  shows "x \<noteq> [] \<and> trim_space x = x"
  using assms by (auto simp: parse_objectives_def trim_space_def trim_by_idem split: option.splits)

definition params_ok :: "HSVolumeParameters \<Rightarrow> bool" where
  "params_ok v \<longleftrightarrow>
     MinInt64 \<le> vp_DeleteDelay v \<and> vp_DeleteDelay v \<le> MaxInt64 \<and>
     length (vp_Comment v) \<le> 255 \<and>
     list_all (\<lambda>x. x \<noteq> [] \<and> trim_space x = x) (vp_Objectives v) \<and>
     count_sub (vp_VolumeNameFormat v) ''%s'' = 1 \<and> \<not> contains (vp_VolumeNameFormat v) ''/'' \<and>
     vp_ObjectiveTarget v \<in> {''share'', ''file'', ''both''} \<and>
     list_all export_ok (vp_ExportOptions v) \<and> tags_ok (vp_AdditionalMetadataTags v)"

lemma wp_tryE_parses:
  assumes "parses P r" and "\<And>v. P v \<Longrightarrow> wp (k v) (\<lambda>x _. parses Q x) s"
  shows "wp (tryE (ret r) id k) (\<lambda>x _. parses Q x) s"
  using assms by (cases r) (auto simp: wp_rules parses_def)

text \<open>C36. Parsing the StorageClass parameters never fails with any code but InvalidArgument. In parameters it
  accepts, the delete delay fits 64 bits, the comment is at most 255 bytes, objectives are trimmed and not
  empty, the name format holds the placeholder once and no slash, the objective target is one of the three,
  subnets and access permissions of export options are trimmed and hold neither comma nor semicolon, and keys and values of metadata tags are
  trimmed and hold neither comma nor equals sign. Access permissions are otherwise not restricted.\<close>

theorem parseVolParams_ok:
  "parses params_ok (fst (run_state (parseVolParams E p) s))"
proof -
  have "wp (parseVolParams E p) (\<lambda>x _. parses params_ok x) s"
    unfolding parseVolParams_def
    apply (rule wp_tryE_parses [OF parses_deleteDelay])
    apply (rule wp_tryE_parses [OF parses_comment])
    apply (rule wp_tryE_parses [OF parses_exportOptions])
    apply (rule wp_tryE_parses [OF parses_nameFormat])
    apply (rule wp_tryE_parses [OF parses_metadata])
    apply (simp only: wp_bind)
    apply (rule wp_mono [where P = "\<lambda>_ _. True"], simp add: wp_iff)
    apply (rule wp_tryE_parses [OF parses_target])
    apply (auto simp: wp_rules parses_def params_ok_def list_all_iff dest: parse_objectives_clean)
    done
  then show ?thesis by (simp add: wp_iff)
qed

text \<open>The size floor of file-backed volumes, on every branch: xfs from 300 MiB, ext4 from
  20 MiB, ext3 never, any other type always; a refusal has code InvalidArgument.\<close>

theorem checkFileBackedMinSize_exact:
  "(checkFileBackedMinSize fs n = Inr () \<longleftrightarrow>
     fs \<noteq> ''ext3'' \<and> (fs = ''xfs'' \<longrightarrow> 314572800 \<le> n) \<and> (fs = ''ext4'' \<longrightarrow> 20971520 \<le> n)) \<and>
   parses (\<lambda>_. True) (checkFileBackedMinSize fs n)"
  by (auto simp: checkFileBackedMinSize_def MinXfsSizeBytes_def MinExt4SizeBytes_def parses_def
      invalid_argument_def)

theorem checkFileBackedMinSize_exact_witness:
  "checkFileBackedMinSize ''xfs'' 314572800 = Inr () \<and>
   checkFileBackedMinSize ''ext4'' 20971519 \<noteq> Inr ()"
  using checkFileBackedMinSize_exact [of "''xfs''" 314572800]
    checkFileBackedMinSize_exact [of "''ext4''" 20971519]
  by simp

end
