(* ===== verification/Controller_Volumes.thy ===== *)
theory Controller_Volumes
  imports Node_Helper Params
begin

text \<open>
  The controller's volume operations (\<open>pkg/driver/controller.go\<close>): making sure a share, a directory
  or a device file exists, creating, deleting and expanding volumes, validating capabilities,
  listing and capacity. Go's pointers to the volume being built are passed by value; an operation
  that changes the volume returns what the caller reads afterwards.
\<close>

definition MaxNameLength :: nat where "MaxNameLength = 128"

definition hsError :: "go_error \<Rightarrow> go_error" where
  "hsError e = (case err_code e of Some _ \<Rightarrow> e | None \<Rightarrow> status_error Internal (err_text e))"

section \<open>Backing shares and directories\<close>

text \<open>Mount the new share aside to tag it; the outcome of the mount is only logged.\<close>

definition tag_share :: "'w env \<Rightarrow> HSVolume \<Rightarrow> string \<Rightarrow> ('w, unit res) go" where
  "tag_share E hsVolume path =
     (let targetPath = ShareStagingDir @ ''/metadata-mounts'' @ path
      in deferring (UnmountFilesystem E targetPath) (do {
        _ \<leftarrow> publishShareBackedVolume E path [] targetPath (hv_MountFlags hsVolume) False
          [''fqdn'' \<mapsto> hv_FQDN hsVolume];
        SetMetadataTags E (targetPath @ ''/'') (hv_AdditionalMetadataTags hsVolume)
      }))"

text \<open>For a share made here, the result carries the error of tagging it.\<close>

definition ensureBackingShareExists :: "'w env \<Rightarrow> string \<Rightarrow> HSVolume \<Rightarrow> ('w, ShareResponse res) go" where
  "ensureBackingShareExists E backingShareName hsVolume =
     tryE (GetShare E backingShareName) internal (\<lambda>share.
     case share of
       Some sh \<Rightarrow> ok sh
     | None \<Rightarrow>
         tryE (CreateShare E backingShareName (hv_Path hsVolume) (- 1) (hv_Objectives hsVolume)
                 (hv_ExportOptions hsVolume) (hv_DeleteDelay hsVolume) (hv_Comment hsVolume)) hsError (\<lambda>_.
         tryE (GetShare E backingShareName) internal (\<lambda>share2.
         case share2 of
           None \<Rightarrow> fail (new_error (''requested share ['' @ backingShareName @ ''] not found''))
         | Some sh \<Rightarrow> tryE (tag_share E hsVolume (hv_Path hsVolume)) id (\<lambda>_. ok sh))))"

definition ensureNFSDirectoryExists :: "'w env \<Rightarrow> string \<Rightarrow> HSVolume \<Rightarrow> ('w, unit res) go" where
  "ensureNFSDirectoryExists E backingShareName hsVolume =
     with_volume_lock E backingShareName (
       tryE (ensureBackingShareExists E backingShareName hsVolume) internal (\<lambda>backingShare.
       let deviceFile = ShareStagingDir @ sh_ExportPath backingShare @ ''/'' @ hv_Name hsVolume
       in deferring (UnmountBackingShareIfUnused E (sh_Name backingShare)) (
         tryE (EnsureBackingShareMounted E (sh_Name backingShare) (hsVolume\<lparr>hv_MountFlags := []\<rparr>)) id (\<lambda>_.
         MakeEmptyRawFolder E deviceFile))))"

section \<open>Share-backed volumes\<close>

text \<open>The share of a volume restored from a snapshot: its path inside the source share.\<close>

definition restore_share :: "'w env \<Rightarrow> HSVolume \<Rightarrow> ('w, string res) go" where
  "restore_share E hsVolume =
     tryE (GetShare E (hv_SourceSnapShareName hsVolume)) (\<lambda>_. status_error Internal UnknownError)
       (\<lambda>src. case src of
          None \<Rightarrow> fail (status_error NotFound SourceSnapshotShareNotFound)
        | Some sourceShare \<Rightarrow>
            tryE (GetShareSnapshots E (hv_SourceSnapShareName hsVolume))
              (\<lambda>_. status_error Internal UnknownError) (\<lambda>snapshots.
            if \<not> env_ContainsString E snapshots (path_base (hv_SourceSnapPath hsVolume)) then
              fail (status_error NotFound SourceSnapshotNotFound)
            else tryE (CreateShareFromSnapshot E (hv_Name hsVolume) (hv_Path hsVolume)
                (hv_SourceSnapShareName hsVolume) (sh_ExportPath sourceShare)
                (hv_SourceSnapPath hsVolume)) internal (\<lambda>restoredPath. ok restoredPath)))"

text \<open>Returns the path of the volume, which a restore changes.\<close>

definition ensureShareBackedVolumeExists :: "'w env \<Rightarrow> HSVolume \<Rightarrow> ('w, string res) go" where
  "ensureShareBackedVolumeExists E hsVolume =
     tryE (GetShare E (hv_Name hsVolume)) (\<lambda>e. wrap_error (''failed to get share: '' @ err_text e) e)
       (\<lambda>share. case share of
          Some sh \<Rightarrow>
            if sh_Size sh \<noteq> hv_Size hsVolume then
              fail (status_error AlreadyExists (VolumeExistsSizeMismatch (sh_Size sh) (hv_Size hsVolume)))
            else if sh_ShareState sh = ''REMOVED'' then fail (status_error Aborted VolumeBeingDeleted)
            else ok (hv_Path hsVolume)
        | None \<Rightarrow>
            tryE (if hv_SourceSnapPath hsVolume \<noteq> [] then restore_share E hsVolume
                  else tryE (CreateShare E (hv_Name hsVolume) (hv_Path hsVolume) (hv_Size hsVolume)
                    (hv_Objectives hsVolume) (hv_ExportOptions hsVolume) (hv_DeleteDelay hsVolume)
                    (hv_Comment hsVolume)) hsError (\<lambda>_. ok (hv_Path hsVolume))) id (\<lambda>path. do {
              _ \<leftarrow> tag_share E hsVolume path;
              ok path
            }))"

section \<open>File-backed volumes\<close>

definition is_local_fs :: "string \<Rightarrow> bool" where
  "is_local_fs fs \<longleftrightarrow> fs = ''ext4'' \<or> fs = ''xfs''"

definition growRestoredDeviceFile :: "'w env \<Rightarrow> ShareResponse \<Rightarrow> HSVolume \<Rightarrow> string \<Rightarrow> ('w, unit res) go" where
  "growRestoredDeviceFile E backingShare hsVolume deviceFile =
     tryE (GetFile E (hv_Path hsVolume))
       (\<lambda>e. status_error Internal (''could not look up restored file '' @ hv_Path hsVolume @ '': '' @
          err_text e)) (\<lambda>restored.
     let rawGrowthNeeded = (case restored of None \<Rightarrow> True | Some f \<Rightarrow> fl_Size f < hv_Size hsVolume) in
     if \<not> rawGrowthNeeded \<and> \<not> is_local_fs (hv_FSType hsVolume) then ok ()
     else with_backing_mount E backingShare hsVolume
       (\<lambda>e. status_error Internal (''mount backing share to reconcile restored volume: '' @ err_text e)) (
       tryE (os_Stat E deviceFile)
         (\<lambda>e. status_error Internal (''could not stat restored file '' @ deviceFile @ '': '' @ err_text e))
         (\<lambda>info.
       tryE (if fi_Size info < hv_Size hsVolume then ExpandRawFileSize E deviceFile (hv_Size hsVolume)
             else ok ())
         (\<lambda>e. status_error Internal (''could not grow restored file '' @ deviceFile @ '' to '' @
            FormatInt (hv_Size hsVolume) @ '' bytes: '' @ err_text e)) (\<lambda>_.
       tryE (if is_local_fs (hv_FSType hsVolume)
             then growFilesystemPrivatelyIfNeeded E deviceFile (hv_FSType hsVolume) else ok ())
         (\<lambda>e. status_error Internal (''could not grow restored '' @ hv_FSType hsVolume @
            '' filesystem in '' @ deviceFile @ '': '' @ err_text e)) (\<lambda>_. ok ())))))"

text \<open>
  Waiting for the backing file to become visible to the service: at most ten minutes, each round
  sleeping at least the minimal back-off of 100 ms. \<open>visible_fuel\<close> rounds are more than that takes.
\<close>

fun wait_visible :: "nat \<Rightarrow> 'w env \<Rightarrow> int \<Rightarrow> string \<Rightarrow> nat \<Rightarrow> go_error option
    \<Rightarrow> ('w, (bool \<times> go_error option) option) go" where
  "wait_visible 0 E startTime path attempts err = ret None"
| "wait_visible (Suc n) E startTime path attempts err = do {
     t \<leftarrow> now E;
     if t - startTime < 600 * second then do {
       dur \<leftarrow> gets (\<lambda>s. env_Backoff E attempts (d_world s));
       Sleep E dur;
       r \<leftarrow> DoesFileExist E path;
       (case r of
          Inl e \<Rightarrow> do {
            Sleep E second;
            wait_visible n E startTime path (Suc attempts) (Some e)
          }
        | Inr found \<Rightarrow>
            if found then ret (Some (True, None))
            else wait_visible n E startTime path (Suc attempts) None)
     } else ret (Some (False, err))
   }"

definition visible_fuel :: nat where "visible_fuel = 6001"

definition applyObjectiveAndMetadata :: "'w env \<Rightarrow> ShareResponse \<Rightarrow> HSVolume \<Rightarrow> string
    \<Rightarrow> ('w, unit res) go" where
  "applyObjectiveAndMetadata E backingShare hsVolume deviceFile = do {
     startTime \<leftarrow> now E;
     w \<leftarrow> wait_visible visible_fuel E startTime (hv_Path hsVolume) 0 None;
     (case w of
        None \<Rightarrow> go_panic ''no return''
      | Some (False, err) \<Rightarrow> (case err of None \<Rightarrow> ok () | Some e \<Rightarrow> fail e)
      | Some (True, _) \<Rightarrow>
          tryE (if hv_Objectives hsVolume \<noteq> [] then
                  SetObjectives E (sh_Name backingShare) (GetVolumeNameFromPath (hv_Path hsVolume))
                    (hv_Objectives hsVolume)
                else ok ()) id (\<lambda>_.
          SetMetadataTags E deviceFile (hv_AdditionalMetadataTags hsVolume)))
   }"

text \<open>Objectives and tags of a new device file; failures are only logged.\<close>

definition finish_device_file :: "'w env \<Rightarrow> ShareResponse \<Rightarrow> HSVolume \<Rightarrow> string \<Rightarrow> ('w, unit res) go" where
  "finish_device_file E backingShare hsVolume deviceFile = do {
     _ \<leftarrow> (if hv_ObjectiveTarget hsVolume = ''file'' \<or> hv_ObjectiveTarget hsVolume = ''both''
          then applyObjectiveAndMetadata E backingShare hsVolume deviceFile
          else SetMetadataTags E deviceFile (hv_AdditionalMetadataTags hsVolume));
     ok ()
   }"

definition create_device_file :: "'w env \<Rightarrow> ShareResponse \<Rightarrow> HSVolume \<Rightarrow> string \<Rightarrow> ('w, unit res) go" where
  "create_device_file E backingShare hsVolume deviceFile =
     (if hv_SourceSnapPath hsVolume \<noteq> [] then
        tryE (RestoreFileSnapToDestination E (hv_SourceSnapPath hsVolume) (hv_Path hsVolume))
          (\<lambda>_. status_error NotFound UnknownError) (\<lambda>_.
        tryE (growRestoredDeviceFile E backingShare hsVolume deviceFile) id (\<lambda>_.
        finish_device_file E backingShare hsVolume deviceFile))
      else
        with_backing_mount E backingShare hsVolume id (
          tryE (MakeEmptyRawFile E deviceFile (hv_Size hsVolume)) id (\<lambda>_.
          tryE (if hv_FSType hsVolume \<noteq> [] then FormatDevice E deviceFile (hv_FSType hsVolume) else ok ())
            id (\<lambda>_.
          finish_device_file E backingShare hsVolume deviceFile))))"

definition ensureDeviceFileExists :: "'w env \<Rightarrow> ShareResponse \<Rightarrow> HSVolume \<Rightarrow> ('w, unit res) go" where
  "ensureDeviceFileExists E backingShare hsVolume0 =
     (let hsVolume = hsVolume0\<lparr>hv_Path := sh_ExportPath backingShare @ ''/'' @ hv_Name hsVolume0\<rparr>;
          deviceFile = ShareStagingDir @ sh_ExportPath backingShare @ ''/'' @ hv_Name hsVolume
      in tryE (GetFile E (hv_Path hsVolume)) internal (\<lambda>file.
         case file of
           Some f \<Rightarrow>
             if fl_Size f \<noteq> hv_Size hsVolume then
               fail (status_error AlreadyExists (VolumeExistsSizeMismatch (fl_Size f) (hv_Size hsVolume)))
             else ok ()
         | None \<Rightarrow>
             if hv_Size hsVolume \<le> 0 then fail (status_error InvalidArgument BlockVolumeSizeNotSpecified)
             else if hv_Size hsVolume > sh_SpaceAvailable backingShare then
               fail (status_error OutOfRange
                 (OutOfCapacity (hv_Size hsVolume) (sh_SpaceAvailable backingShare)))
             else create_device_file E backingShare hsVolume deviceFile))"

text \<open>The share's lock is released before the device file is made.\<close>

definition ensureFileBackedVolumeExists :: "'w env \<Rightarrow> HSVolume \<Rightarrow> string \<Rightarrow> ('w, unit res) go" where
  "ensureFileBackedVolumeExists E hsVolume backingShareName =
     tryE (with_volume_lock E backingShareName (do {
             r \<leftarrow> ensureBackingShareExists E backingShareName hsVolume;
             ok r
           })) id (\<lambda>r.
     tryE (ret r) internal (\<lambda>backingShare. ensureDeviceFileExists E backingShare hsVolume))"

section \<open>CreateVolume\<close>

text \<open>What the capabilities of a request ask for: block access, a file system, the file system
  type, and whether the volume is a file in a backing share. The loop lets a later capability
  overwrite what an earlier one set.\<close>

record cap_scan =
  cs_block :: bool
  cs_mount :: bool
  cs_fsType :: string
  cs_fileBacked :: bool

definition scan_cap :: "string \<Rightarrow> cap_scan \<Rightarrow> VolumeCapability \<Rightarrow> cap_scan" where
  "scan_cap paramFSType c cap =
     (case cap_AccessType cap of
        Some Access_Block \<Rightarrow> c\<lparr>cs_block := True, cs_fileBacked := True\<rparr>
      | Some (Access_Mount _ _) \<Rightarrow>
          if paramFSType = [] then
            c\<lparr>cs_mount := True, cs_fsType := ''nfs'', cs_fileBacked := False\<rparr>
          else if paramFSType \<noteq> ''nfs'' then
            c\<lparr>cs_mount := True, cs_fsType := paramFSType, cs_fileBacked := True\<rparr>
          else c\<lparr>cs_mount := True, cs_fsType := paramFSType\<rparr>
      | None \<Rightarrow> c)"

definition scan_caps :: "string \<Rightarrow> VolumeCapability list \<Rightarrow> cap_scan" where
  "scan_caps paramFSType caps =
     foldl (scan_cap paramFSType)
       \<lparr>cs_block = False, cs_mount = False, cs_fsType = [], cs_fileBacked = False\<rparr> caps"

definition requested_size :: "CapacityRange option \<Rightarrow> bool \<Rightarrow> int" where
  "requested_size cr fileBacked =
     (case cr of
        Some r \<Rightarrow> if cr_LimitBytes r \<noteq> 0 then cr_LimitBytes r else cr_RequiredBytes r
      | None \<Rightarrow> if fileBacked then DefaultBackingFileSizeBytes else 0)"

text \<open>The checks before any call to the service, and the decisions they rest on.\<close>

record vol_plan =
  pl_volumeMode :: string
  pl_fsType :: string
  pl_fileBacked :: bool
  pl_nested :: bool
  pl_volumeName :: string
  pl_size :: int
  pl_backingShareName :: string
  pl_volumePath :: string

definition restore_unsupported :: go_error where
  "restore_unsupported = status_error Unimplemented
     ''snapshot restore is not supported for share-backed NFS volumes; only file-backed and block volumes can be restored from a snapshot''"

definition plan_volume :: "string \<Rightarrow> VolumeCapability list \<Rightarrow> CapacityRange option \<Rightarrow> bool
    \<Rightarrow> HSVolumeParameters \<Rightarrow> vol_plan res" where
  "plan_volume name caps cr fromSnapshot vParams =
     (let c = scan_caps (vp_FSType vParams) caps;
          volumeName = sprintf_s (vp_VolumeNameFormat vParams) (Some name);
          sz = requested_size cr (cs_fileBacked c);
          backingShareName =
            (if cs_block c then vp_BlockBackingShareName vParams
             else if vp_MountBackingShareName vParams = [] \<and> cs_fsType c = ''nfs'' then volumeName
             else vp_MountBackingShareName vParams);
          nested = (\<not> cs_fileBacked c \<and> cs_fsType c = ''nfs'' \<and> vp_MountBackingShareName vParams \<noteq> []);
          shareBackedNFS =
            (\<not> cs_fileBacked c \<and> \<not> (cs_fsType c = ''nfs'' \<and> vp_MountBackingShareName vParams \<noteq> []))
      in if cs_block c \<and> cs_mount c then Inl (status_error InvalidArgument ConflictingCapabilities)
         else if \<not> cs_block c \<and> \<not> cs_mount c then
           Inl (status_error InvalidArgument (NoCapabilitiesSupplied name))
         else (case (if cs_fileBacked c then checkFileBackedMinSize (cs_fsType c) sz else Inr ()) of
           Inl e \<Rightarrow> Inl e
         | Inr _ \<Rightarrow>
             if fromSnapshot \<and> shareBackedNFS \<and> \<not> shareBackedSnapshotRestoreSupported
             then Inl restore_unsupported
             else Inr \<lparr>pl_volumeMode = (if cs_block c then ''Block'' else ''Filesystem''),
                    pl_fsType = cs_fsType c, pl_fileBacked = cs_fileBacked c, pl_nested = nested,
                    pl_volumeName = volumeName, pl_size = sz, pl_backingShareName = backingShareName,
                    pl_volumePath = SharePathPrefix @ backingShareName\<rparr>))"

definition volume_of_plan :: "vol_plan \<Rightarrow> HSVolumeParameters \<Rightarrow> VolumeCapability list \<Rightarrow> HSVolume" where
  "volume_of_plan pl vParams caps =
     \<lparr>hv_DeleteDelay = vp_DeleteDelay vParams, hv_ExportOptions = vp_ExportOptions vParams,
      hv_Objectives = vp_Objectives vParams,
      hv_BlockBackingShareName = vp_BlockBackingShareName vParams,
      hv_MountBackingShareName = vp_MountBackingShareName vParams, hv_Size = pl_size pl,
      hv_Name = pl_volumeName pl, hv_Path = pl_volumePath pl, hv_VolumeMode = pl_volumeMode pl,
      hv_SourceSnapPath = [], hv_FSType = pl_fsType pl, hv_Comment = vp_Comment vParams,
      hv_SourceSnapShareName = [], hv_AdditionalMetadataTags = vp_AdditionalMetadataTags vParams,
      hv_FQDN = vp_FQDN vParams, hv_MountFlags = getMountFlagsFromCapabilities caps,
      hv_ObjectiveTarget = vp_ObjectiveTarget vParams\<rparr>"

definition check_free_capacity :: "'w env \<Rightarrow> int \<Rightarrow> ('w, unit res) go" where
  "check_free_capacity E requestedSize =
     (if requestedSize \<le> 0 then ok ()
      else do {
        cached \<leftarrow> GetCacheData E ''FREE_CAPACITY'';
        tryE (case cached of
                Some (CInt v) \<Rightarrow> ok v
              | Some _ \<Rightarrow> fail (status_error Internal ''unexpected type for free capacity'')
              | None \<Rightarrow> tryE (GetClusterAvailableCapacity E) internal (\<lambda>a. ok a)) id (\<lambda>available.
          if available < requestedSize then
            fail (status_error OutOfRange (OutOfCapacity requestedSize available))
          else ok ())
      })"

definition cached_objective_names :: "cache_data \<Rightarrow> string list" where
  "cached_objective_names v = (case v of CStrings l \<Rightarrow> l | _ \<Rightarrow> [])"

definition check_objectives :: "'w env \<Rightarrow> string list \<Rightarrow> ('w, unit res) go" where
  "check_objectives E objectives = do {
     cached \<leftarrow> GetCacheData E ''OBJECTIVE_LIST_NAMES'';
     tryE (case cached of
             Some v \<Rightarrow> ok (cached_objective_names v)
           | None \<Rightarrow> tryE (ListObjectiveNames E) internal (\<lambda>ns. ok ns)) id (\<lambda>names.
       case filter (\<lambda>ob. \<not> IsValueInList ob names) objectives of
         [] \<Rightarrow> ok ()
       | ob # _ \<Rightarrow> fail (status_error InvalidArgument (InvalidObjectiveNameDoesNotExist ob)))
   }"

definition source_of_snapshot :: "string option \<Rightarrow> HSVolume \<Rightarrow> HSVolume res" where
  "source_of_snapshot snap hsVolume =
     (case snap of
        None \<Rightarrow> Inr hsVolume
      | Some i \<Rightarrow> (case (GetSnapshotNameFromSnapshotId i, GetShareNameFromSnapshotId i) of
          (Inr n, Inr sh) \<Rightarrow> Inr (hsVolume\<lparr>hv_SourceSnapPath := n, hv_SourceSnapShareName := sh\<rparr>)
        | (Inl e, _) \<Rightarrow> Inl (status_error NotFound (err_text e))
        | (_, Inl e) \<Rightarrow> Inl (status_error NotFound (err_text e))))"

text \<open>Make the volume, under the lock of its name; returns its ID.\<close>

definition make_volume :: "'w env \<Rightarrow> vol_plan \<Rightarrow> HSVolume \<Rightarrow> string option \<Rightarrow> ('w, string res) go" where
  "make_volume E pl hsVolume0 snap =
     with_volume_lock E (pl_volumeName pl) (
       tryE (ret (source_of_snapshot snap hsVolume0)) id (\<lambda>hsVolume.
       if pl_nested pl then
         (if hv_SourceSnapPath hsVolume \<noteq> [] then
            fail (status_error Unimplemented
              ''snapshot restore is not supported for NFS volumes provisioned with mountBackingShareName'')
          else tryE (ensureNFSDirectoryExists E (pl_backingShareName pl) hsVolume)
            (\<lambda>e. status_error Internal (''failed to ensure base NFS share ('' @
               pl_backingShareName pl @ ''): '' @ err_text e))
            (\<lambda>_. ok (pl_volumePath pl @ ''/'' @ pl_volumeName pl)))
       else if pl_fileBacked pl then
         tryE (ensureFileBackedVolumeExists E hsVolume (pl_backingShareName pl)) id
           (\<lambda>_. ok (pl_volumePath pl @ ''/'' @ pl_volumeName pl))
       else ensureShareBackedVolumeExists E hsVolume))"

definition volume_context :: "vol_plan \<Rightarrow> HSVolume \<Rightarrow> smap \<Rightarrow> smap" where
  "volume_context pl hsVolume params =
     (let c0 = [''size'' \<mapsto> FormatInt (hv_Size hsVolume), ''mode'' \<mapsto> pl_volumeMode pl];
          fqdn = mget params ''fqdn'';
          c1 = (if fqdn \<noteq> [] then c0(''fqdn'' \<mapsto> fqdn) else c0)
      in if pl_volumeMode pl = ''Block'' then
           c1(''blockBackingShareName'' \<mapsto> hv_BlockBackingShareName hsVolume)
         else c1(''mountBackingShareName'' \<mapsto> hv_MountBackingShareName hsVolume,
                 ''fsType'' \<mapsto> pl_fsType pl))"

text \<open>From the plan on: the checks that ask the service, the volume itself, and the response.\<close>

definition volume_response :: "CreateVolumeRequest \<Rightarrow> vol_plan \<Rightarrow> HSVolume \<Rightarrow> string \<Rightarrow> Volume" where
  [simp]: "volume_response req pl hsVolume volID =
     \<lparr>vol_CapacityBytes = hv_Size hsVolume, vol_VolumeId = volID,
      vol_VolumeContext = volume_context pl hsVolume (cv_Parameters req),
      vol_SourceSnapshot = cv_SourceSnapshot req\<rparr>"

definition create_planned :: "'w env \<Rightarrow> CreateVolumeRequest \<Rightarrow> VolumeCapability list \<Rightarrow> HSVolumeParameters
    \<Rightarrow> vol_plan \<Rightarrow> ('w, Volume res) go" where
  "create_planned E req caps vParams pl =
     (let hsVolume = volume_of_plan pl vParams caps in
      tryE (check_free_capacity E (pl_size pl)) id (\<lambda>_.
      tryE (check_objectives E (vp_Objectives vParams)) id (\<lambda>_.
      tryE (make_volume E pl hsVolume (cv_SourceSnapshot req)) id (\<lambda>volID.
      ok (volume_response req pl hsVolume volID)))))"

definition CreateVolume :: "'w env \<Rightarrow> CreateVolumeRequest \<Rightarrow> ('w, Volume res) go" where
  "CreateVolume E req =
     (if cv_Name req = [] then fail (status_error InvalidArgument EmptyVolumeId)
      else if length (cv_Name req) > MaxNameLength then
        fail (status_error InvalidArgument (VolumeIdTooLong (int MaxNameLength)))
      else (case cv_VolumeCapabilities req of
        None \<Rightarrow> fail (status_error InvalidArgument (NoCapabilitiesSupplied (cv_Name req)))
      | Some caps \<Rightarrow>
          tryE (parseVolParams E (cv_Parameters req)) id (\<lambda>vParams.
          tryE (ret (plan_volume (cv_Name req) caps (cv_CapacityRange req)
                  (cv_SourceSnapshot req \<noteq> None) vParams)) id (\<lambda>pl.
          create_planned E req caps vParams pl))))"

section \<open>DeleteVolume\<close>

definition deleteFileBackedVolume :: "'w env \<Rightarrow> string \<Rightarrow> ('w, unit res) go" where
  "deleteFileBackedVolume E filepath = do {
     ex \<leftarrow> DoesFileExist E filepath;
     sn \<leftarrow> GetFileSnapshots E filepath;
     let exists = (case ex of Inl _ \<Rightarrow> False | Inr b \<Rightarrow> b);
     let snaps = (case sn of Inl _ \<Rightarrow> [] | Inr l \<Rightarrow> l);
     let residingShareName = path_base (path_dir filepath);
     if snaps \<noteq> [] then fail (status_error FailedPrecondition VolumeDeleteHasSnapshots)
     else if \<not> exists then ok ()
     else with_volume_lock E residingShareName (do {
       (share, err) \<leftarrow> GetShare_pair E residingShareName;
       (case (err, share) of
          (None, Some backingShare) \<Rightarrow>
            with_backing_mount E backingShare zero_HSVolume internal (
              tryE (DeleteFile E (ShareStagingDir @ path_dir filepath @ ''/'' @ GetVolumeNameFromPath filepath))
                internal (\<lambda>_. ok ()))
        | _ \<Rightarrow> fail (status_error Internal (''unable to get backing share '' @ residingShareName @ '': '' @
            (case err of None \<Rightarrow> ''<nil>'' | Some e \<Rightarrow> err_text e))))
     })
   }"

definition share_delete_delay :: "ShareResponse \<Rightarrow> int" where
  "share_delete_delay share =
     (case sh_ExtendedInfo share ''csi_delete_delay'' of
        None \<Rightarrow> - 1
      | Some v \<Rightarrow> (case ParseInt v of Some n \<Rightarrow> n | None \<Rightarrow> - 1))"

definition deleteShareBackedVolume :: "'w env \<Rightarrow> ShareResponse \<Rightarrow> ('w, unit res) go" where
  "deleteShareBackedVolume E share =
     tryE (GetShareSnapshots E (sh_Name share)) internal (\<lambda>snaps.
     if snaps \<noteq> [] then fail (status_error FailedPrecondition VolumeDeleteHasSnapshots)
     else tryE (DeleteShare E (sh_Name share) (share_delete_delay share)) hsError (\<lambda>_. ok ()))"

definition DeleteVolume :: "'w env \<Rightarrow> string \<Rightarrow> ('w, unit res) go" where
  "DeleteVolume E volumeId =
     (if volumeId = [] then fail (status_error InvalidArgument EmptyVolumeId)
      else with_volume_lock E volumeId (
        if isFileBackedVolumeID volumeId then deleteFileBackedVolume E volumeId
        else tryE (GetShare E (GetVolumeNameFromPath volumeId)) internal (\<lambda>share.
          case share of None \<Rightarrow> ok () | Some sh \<Rightarrow> deleteShareBackedVolume E sh)))"

section \<open>Expansion, capabilities, listing and capacity\<close>

record expand_response =
  er_CapacityBytes :: int
  er_NodeExpansionRequired :: bool

definition expand_size :: "CapacityRange option \<Rightarrow> int" where
  "expand_size cr =
     (case cr of
        None \<Rightarrow> 0
      | Some r \<Rightarrow> if cr_LimitBytes r \<noteq> 0 then cr_LimitBytes r else cr_RequiredBytes r)"

definition expand_file :: "'w env \<Rightarrow> string \<Rightarrow> int \<Rightarrow> ('w, expand_response res) go" where
  "expand_file E volumeId requestedSize =
     tryE (GetFile E volumeId) (\<lambda>_. status_error NotFound VolumeNotFound) (\<lambda>file.
     case file of
       None \<Rightarrow> fail (status_error NotFound VolumeNotFound)
     | Some f \<Rightarrow>
         if fl_Size f \<ge> requestedSize then
           ok \<lparr>er_CapacityBytes = fl_Size f, er_NodeExpansionRequired = False\<rparr>
         else
           tryE (GetShare E (path_base (path_dir volumeId)))
             (\<lambda>e. wrap_error (''share not found '' @ err_text e) e) (\<lambda>share.
           let available = (case share of None \<Rightarrow> 0 | Some sh \<Rightarrow> sh_SpaceAvailable sh);
               sizeDiff = int64 (requestedSize - fl_Size f)
           in if int64 (available - sizeDiff) < 0 then
                fail (status_error OutOfRange OutOfCapacity_format)
              else ok \<lparr>er_CapacityBytes = requestedSize, er_NodeExpansionRequired = True\<rparr>))"

text \<open>The size compared with the request is the share's available space, and zero when the share
  did not decode.\<close>

definition expand_share :: "'w env \<Rightarrow> string \<Rightarrow> int \<Rightarrow> ('w, expand_response res) go" where
  "expand_share E volumeId requestedSize =
     (let shareName = GetVolumeNameFromPath volumeId in
      if shareName = [] then fail (status_error NotFound VolumeNotFound)
      else do {
        (share, err) \<leftarrow> GetShare_pair E shareName;
        (case share of
           None \<Rightarrow> fail (status_error NotFound ShareNotFound)
         | Some sh \<Rightarrow>
             let currentSize = (case err of Some _ \<Rightarrow> 0 | None \<Rightarrow> sh_SpaceAvailable sh) in
             tryE (if currentSize < requestedSize then UpdateShareSize E shareName requestedSize else ok ())
               (\<lambda>_. status_error Internal UnknownError) (\<lambda>_.
             ok \<lparr>er_CapacityBytes = requestedSize, er_NodeExpansionRequired = False\<rparr>))
      })"

definition ControllerExpandVolume :: "'w env \<Rightarrow> string \<Rightarrow> CapacityRange option
    \<Rightarrow> ('w, expand_response res) go" where
  "ControllerExpandVolume E volumeId cr =
     (let requestedSize = expand_size cr in
      if volumeId = [] then fail (status_error InvalidArgument VolumeNotFound)
      else if isFileBackedVolumeID volumeId then expand_file E volumeId requestedSize
      else do {
        (share, _) \<leftarrow> GetShare_pair E (GetVolumeNameFromPath volumeId);
        (case share of
           Some _ \<Rightarrow> expand_share E volumeId requestedSize
         | None \<Rightarrow> do {
             ex \<leftarrow> DoesFileExist E volumeId;
             (case ex of
                Inr True \<Rightarrow> expand_file E volumeId requestedSize
              | _ \<Rightarrow> fail (status_error NotFound VolumeNotFound))
           })
      })"

definition confirm_cap :: "bool \<Rightarrow> bool \<Rightarrow> bool \<Rightarrow> VolumeCapability \<Rightarrow> bool" where
  "confirm_cap typeBlock typeMount fileBacked c \<longleftrightarrow>
     (if GetBlock c \<and> typeBlock then True
      else if GetMount c \<noteq> None then
        \<not> (fileBacked \<and> cap_AccessMode c = MULTI_NODE_MULTI_WRITER) \<or> typeMount
      else False)"

definition ValidateVolumeCapabilities :: "'w env \<Rightarrow> string \<Rightarrow> VolumeCapability list \<Rightarrow> smap
    \<Rightarrow> ('w, VolumeCapability list res) go" where
  "ValidateVolumeCapabilities E volumeId caps params =
     (if volumeId = [] then fail (status_error InvalidArgument EmptyVolumeId)
      else if caps = [] then fail (status_error InvalidArgument (NoCapabilitiesSupplied volumeId))
      else do {
        (share, _) \<leftarrow> GetShare_pair E (GetVolumeNameFromPath volumeId);
        tryE (parseVolParams E params) id (\<lambda>vParams.
        let typeBlock = (vp_BlockBackingShareName vParams \<noteq> []);
            typeMount = (vp_MountBackingShareName vParams \<noteq> [])
        in tryE (if share \<noteq> None then ok False
                 else do {
                   ex \<leftarrow> DoesFileExist E volumeId;
                   (case ex of
                      Inr True \<Rightarrow> ok True
                    | _ \<Rightarrow> fail (status_error NotFound VolumeNotFound))
                 }) id (\<lambda>fileBacked.
           ok (filter (confirm_cap typeBlock typeMount fileBacked) caps)))
      })"

definition Controller_ListVolumes :: "'w env \<Rightarrow> int \<Rightarrow> ('w, (string \<times> int) list res) go" where
  "Controller_ListVolumes E maxEntries =
     (if maxEntries < 0 then fail (status_error InvalidArgument
        (''[ListVolumes] Invalid max entries request '' @ FormatInt maxEntries @ '', must not be negative ''))
      else tryE (ListVolumes E)
        (\<lambda>e. status_error Internal (''ListVolumes failed: '' @ err_text e)) (\<lambda>vlist.
        ok (map (\<lambda>v. (vr_Name v, vr_Capacity v)) vlist)))"

definition cached_int :: "cache_data \<Rightarrow> int option" where
  "cached_int v = (case v of CInt n \<Rightarrow> Some n | _ \<Rightarrow> None)"

definition cachedClusterAvailableCapacity :: "'w env \<Rightarrow> ('w, int res) go" where
  "cachedClusterAvailableCapacity E =
     cached_or E ''FREE_CAPACITY'' cached_int (GetClusterAvailableCapacity E)"

definition backingShareCapacitySeconds :: int where "backingShareCapacitySeconds = 60"

definition cachedBackingShareAvailable :: "'w env \<Rightarrow> string \<Rightarrow> ('w, int option res) go" where
  "cachedBackingShareAvailable E name =
     (let key = ''BACKING_SHARE_FREE:'' @ name in
      cached_or E key (\<lambda>v. map_option Some (cached_int v))
        (tryE (GetShare E name) id (\<lambda>share.
         case share of
           None \<Rightarrow> ok None
         | Some sh \<Rightarrow> do {
             SetCacheData E key (CInt (sh_SpaceAvailable sh)) backingShareCapacitySeconds;
             ok (Some (sh_SpaceAvailable sh))
           })))"

definition GetCapacity :: "'w env \<Rightarrow> VolumeCapability list \<Rightarrow> smap \<Rightarrow> ('w, int res) go" where
  "GetCapacity E caps params =
     (if (\<exists>c \<in> set caps. GetBlock c) \<and> (\<exists>c \<in> set caps. GetMount c \<noteq> None) then ok 0
      else tryE (parseVolParams E params) id (\<lambda>vParams.
        let backingShareName =
              (if vp_BlockBackingShareName vParams = [] \<and> vp_FSType vParams \<noteq> [] \<and>
                  vp_FSType vParams \<noteq> ''nfs''
               then vp_MountBackingShareName vParams else vp_BlockBackingShareName vParams)
        in if backingShareName \<noteq> [] then
             tryE (cachedBackingShareAvailable E backingShareName)
               (\<lambda>e. status_error Internal (''backing share '' @ backingShareName @ '': '' @ err_text e))
               (\<lambda>free. case free of
                  Some n \<Rightarrow> ok n
                | None \<Rightarrow> tryE (cachedClusterAvailableCapacity E) internal (\<lambda>n. ok n))
           else tryE (cachedClusterAvailableCapacity E) internal (\<lambda>n. ok n)))"

definition ControllerGetCapabilities :: "string list" where
  "ControllerGetCapabilities =
     [''CREATE_DELETE_VOLUME'', ''LIST_VOLUMES'', ''GET_CAPACITY'', ''LIST_SNAPSHOTS'',
      ''CREATE_DELETE_SNAPSHOT'', ''EXPAND_VOLUME'']"

definition ControllerGetVolume :: "('w, unit res) go" where
  "ControllerGetVolume = fail (status_error Unimplemented ''ControllerGetVolume is not implemented'')"

definition ControllerModifyVolume :: "('w, unit res) go" where
  "ControllerModifyVolume = fail (status_error Unimplemented ''ControllerGetVolume is not implemented'')"

definition ControllerPublishVolume :: "('w, unit res) go" where
  "ControllerPublishVolume = fail (status_error Unimplemented ''ControllerPublishVolume not supported'')"

definition ControllerUnpublishVolume :: "('w, unit res) go" where
  "ControllerUnpublishVolume =
     fail (status_error Unimplemented ''ControllerUnpublishVolume not supported'')"

section \<open>Frames\<close>

lemma tag_share_quiet [frame_intros]: "state_io_rel quiet (tag_share E v p)"
  unfolding tag_share_def Let_def by (intro frame_intros)

lemma ensureBackingShareExists_quiet [frame_intros]:
  "state_io_rel quiet (ensureBackingShareExists E n v)"
  unfolding ensureBackingShareExists_def by (intro frame_intros)

lemma ensure_dir_quiet [frame_intros]:
  "state_io_rel quiet (ensureNFSDirectoryExists E n v)"
  "state_io_rel quiet (restore_share E v)"
  unfolding ensureNFSDirectoryExists_def restore_share_def Let_def by (intro frame_intros)+

lemma ensureShareBacked_quiet [frame_intros]:
  "state_io_rel quiet (ensureShareBackedVolumeExists E v)"
  unfolding ensureShareBackedVolumeExists_def by (intro frame_intros)

lemma wait_visible_quiet [frame_intros]: "state_io_rel quiet (wait_visible n E t p a e)"
proof (induction n arbitrary: a e)
  case 0
  then show ?case by (simp only: wait_visible.simps) (intro frame_intros)
next
  case (Suc n)
  show ?case by (simp only: wait_visible.simps) (intro frame_intros Suc.IH)
qed

lemma keep_case_visible [frame_intros]:
  "state_io_rel R a \<Longrightarrow> (\<And>x. state_io_rel R (f x)) \<Longrightarrow> (\<And>x. state_io_rel R (g x)) \<Longrightarrow>
    state_io_rel R (case w of None \<Rightarrow> a | Some (False, x) \<Rightarrow> f x | Some (True, x) \<Rightarrow> g x)"
  by (cases w) (auto split: bool.splits)

lemma device_file_quiet [frame_intros]:
  "state_io_rel quiet (growRestoredDeviceFile E sh v d)"
  "state_io_rel quiet (applyObjectiveAndMetadata E sh v d)"
  unfolding growRestoredDeviceFile_def applyObjectiveAndMetadata_def Let_def
  by (intro frame_intros)+

lemma finish_quiet [frame_intros]: "state_io_rel quiet (finish_device_file E sh v d)"
  unfolding finish_device_file_def by (intro frame_intros)

lemma create_device_file_quiet [frame_intros]: "state_io_rel quiet (create_device_file E sh v d)"
  unfolding create_device_file_def by (intro frame_intros)

lemma ensureDeviceFileExists_quiet [frame_intros]:
  "state_io_rel quiet (ensureDeviceFileExists E sh v)"
  unfolding ensureDeviceFileExists_def Let_def by (intro frame_intros)

lemma ensureFileBacked_quiet [frame_intros]:
  "state_io_rel quiet (ensureFileBackedVolumeExists E v n)"
  unfolding ensureFileBackedVolumeExists_def by (intro frame_intros)

lemma keep_case_cache_data [frame_intros]:
  "(\<And>x. state_io_rel R (a x)) \<Longrightarrow> (\<And>x. state_io_rel R (b x)) \<Longrightarrow> (\<And>x. state_io_rel R (c x)) \<Longrightarrow>
   (\<And>x. state_io_rel R (d x)) \<Longrightarrow> (\<And>x. state_io_rel R (e x)) \<Longrightarrow>
   state_io_rel R (case v of CInt x \<Rightarrow> a x | CStrings x \<Rightarrow> b x | CObjectives x \<Rightarrow> c x
     | CPortals x \<Rightarrow> d x | CCluster x \<Rightarrow> e x)"
  by (cases v) simp_all

lemma keep_case_bool [frame_intros]:
  "state_io_rel R a \<Longrightarrow> state_io_rel R b \<Longrightarrow> state_io_rel R (case v of True \<Rightarrow> a | False \<Rightarrow> b)"
  by (cases v) simp_all

lemma create_checks_quiet [frame_intros]:
  "state_io_rel quiet (check_free_capacity E n)"
  "state_io_rel quiet (check_objectives E os)"
  "state_io_rel quiet (make_volume E pl v sn)"
  unfolding check_free_capacity_def check_objectives_def make_volume_def
  by (intro frame_intros)+

lemma delete_quiet [frame_intros]:
  "state_io_rel quiet (deleteFileBackedVolume E p)"
  "state_io_rel quiet (deleteShareBackedVolume E sh)"
  unfolding deleteFileBackedVolume_def deleteShareBackedVolume_def Let_def
  by (intro frame_intros)+

lemma expand_quiet [frame_intros]:
  "state_io_rel quiet (expand_file E v n)"
  "state_io_rel quiet (expand_share E v n)"
  "state_io_rel quiet (cachedClusterAvailableCapacity E)"
  "state_io_rel quiet (cachedBackingShareAvailable E m)"
  unfolding expand_file_def expand_share_def cachedClusterAvailableCapacity_def
    cachedBackingShareAvailable_def Let_def
  by (intro frame_intros)+

lemma controller_volume_quiet:
  "state_io_rel quiet (CreateVolume E rq)"
  "state_io_rel quiet (DeleteVolume E v)"
  "state_io_rel quiet (ControllerExpandVolume E v cr)"
  "state_io_rel quiet (ValidateVolumeCapabilities E v caps ps)"
  "state_io_rel quiet (Controller_ListVolumes E n)"
  "state_io_rel quiet (GetCapacity E caps ps)"
  unfolding CreateVolume_def create_planned_def DeleteVolume_def ControllerExpandVolume_def
    ValidateVolumeCapabilities_def Controller_ListVolumes_def GetCapacity_def Let_def
  by (intro frame_intros)+

section \<open>What CreateVolume promises\<close>

lemma ensureShareBacked_path:
  assumes "hv_SourceSnapPath v = []"
  shows "gives (\<lambda>p. p = hv_Path v) (ensureShareBackedVolumeExists E v)"
proof -
  have make: "gives (\<lambda>p. p = hv_Path v) (tryE m h (\<lambda>_. ok (hv_Path v)))" for m :: "('a, unit res) go" and h
    by (rule gives_tryE [OF gives_any]) (intro gives_intros, simp)
  have "gives (\<lambda>p. p = hv_Path v) (tryE (tryE m h (\<lambda>_. ok (hv_Path v))) id
      (\<lambda>path. State_Monad.bind (tag_share E v path) (\<lambda>_. ok path)))" for m :: "('a, unit res) go" and h
    by (rule gives_tryE [OF make]) (intro gives_intros)
  then show ?thesis unfolding ensureShareBackedVolumeExists_def
    using assms by (intro gives_tryE [where m = "GetShare E (hv_Name v)", OF gives_any] gives_intros) simp_all
qed

text \<open>The volume ID a plan stands for.\<close>

definition planned_id :: "vol_plan \<Rightarrow> string" where
  "planned_id pl = (if pl_nested pl \<or> pl_fileBacked pl
     then file_volume_id (pl_backingShareName pl) (pl_volumeName pl)
     else share_volume_id (pl_volumeName pl))"

lemma scan_caps_nfs:
  "let c = scan_caps fs caps in
     (cs_mount c \<longrightarrow> \<not> cs_fileBacked c \<longrightarrow> cs_fsType c = ''nfs'') \<and>
     (cs_block c \<longrightarrow> \<not> cs_mount c \<longrightarrow> cs_fileBacked c)"
proof -
  let ?I = "\<lambda>c. (cs_mount c \<longrightarrow> \<not> cs_fileBacked c \<longrightarrow> cs_fsType c = ''nfs'') \<and>
     (cs_block c \<longrightarrow> \<not> cs_mount c \<longrightarrow> cs_fileBacked c)"
  have "?I c \<Longrightarrow> ?I (foldl (scan_cap fs) c caps)" for c
    by (induction caps arbitrary: c)
      (auto simp: scan_cap_def split: option.splits access_type.splits)
  then show ?thesis by (simp add: scan_caps_def Let_def)
qed

text \<open>What a plan that passed the checks promises: the path is that of the backing share; a file-backed
  volume has at least the size its file system needs; anything else is an NFS volume; and a volume
  that is a share of its own carries its own name and is not restored from a snapshot.\<close>

definition sound_plan :: "bool \<Rightarrow> vol_plan \<Rightarrow> bool" where
  "sound_plan fromSnapshot pl \<longleftrightarrow>
     pl_volumePath pl = SharePathPrefix @ pl_backingShareName pl \<and>
     (pl_fileBacked pl \<longrightarrow> checkFileBackedMinSize (pl_fsType pl) (pl_size pl) = Inr ()) \<and>
     (\<not> pl_fileBacked pl \<longrightarrow> pl_fsType pl = ''nfs'' \<and> pl_volumeMode pl = ''Filesystem'') \<and>
     (\<not> pl_fileBacked pl \<and> \<not> pl_nested pl \<longrightarrow> pl_backingShareName pl = pl_volumeName pl \<and> \<not> fromSnapshot)"

lemma plan_volume_sound:
  "plan_volume name caps cr fromSnapshot vp = Inr pl \<Longrightarrow> sound_plan fromSnapshot pl"
  using scan_caps_nfs [of "vp_FSType vp" caps]
  by (auto simp: plan_volume_def sound_plan_def Let_def shareBackedSnapshotRestoreSupported_def
      split: if_splits sum.splits) 

lemma make_volume_id:
  assumes "sound_plan (snap \<noteq> None) pl" and "hv_Path v = pl_volumePath pl" and "hv_SourceSnapPath v = []"
  shows "gives (\<lambda>i. i = planned_id pl) (make_volume E pl v snap)"
proof -
  have src: "x = v" if "source_of_snapshot snap v = Inr x" "\<not> pl_nested pl" "\<not> pl_fileBacked pl" for x
    using that assms(1) by (auto simp: source_of_snapshot_def sound_plan_def)
  have fid: "pl_volumePath pl @ ''/'' @ pl_volumeName pl = file_volume_id (pl_backingShareName pl) (pl_volumeName pl)"
    using assms(1) by (simp add: sound_plan_def file_volume_id_def)
  show ?thesis unfolding make_volume_def
  proof (intro gives_with_volume_lock gives_tryE [OF gives_ret] gives_if gives_fail)
    fix x
    assume "\<not> pl_nested pl" and "\<not> pl_fileBacked pl" and x: "source_of_snapshot snap v = Inr x"
    then show "gives (\<lambda>i. i = planned_id pl) (ensureShareBackedVolumeExists E x)"
      using ensureShareBacked_path [OF assms(3), of E] src [OF x] assms(1,2)
      by (simp add: planned_id_def sound_plan_def share_volume_id_def)
  qed (auto simp: planned_id_def fid [simplified] intro!: gives_tryE [OF gives_any] gives_ok)
qed

text \<open>The plan of a request: what its capabilities and its parsed parameters lead to.\<close>

definition plan_of :: "CreateVolumeRequest \<Rightarrow> VolumeCapability list \<Rightarrow> HSVolumeParameters \<Rightarrow> vol_plan res" where
  "plan_of req caps vp =
     plan_volume (cv_Name req) caps (cv_CapacityRange req) (cv_SourceSnapshot req \<noteq> None) vp"

definition plans :: "'w env \<Rightarrow> 'w drv \<Rightarrow> CreateVolumeRequest \<Rightarrow> vol_plan \<Rightarrow> bool" where
  "plans E s req pl \<longleftrightarrow> (\<exists>caps vp. cv_VolumeCapabilities req = Some caps \<and>
       fst (run_state (parseVolParams E (cv_Parameters req)) s) = Inr vp \<and> plan_of req caps vp = Inr pl) \<and>
     sound_plan (cv_SourceSnapshot req \<noteq> None) pl"

lemma plansI:
  "cv_VolumeCapabilities req = Some caps \<Longrightarrow> fst (run_state (parseVolParams E (cv_Parameters req)) s) = Inr vp \<Longrightarrow>
    plan_of req caps vp = Inr pl \<Longrightarrow> plans E s req pl"
  unfolding plans_def plan_of_def by (blast intro: plan_volume_sound)

lemma make_planned_volume:
  assumes "plan_of req caps vp = Inr pl"
  shows "gives (\<lambda>vol. vol_VolumeId vol = planned_id pl \<and> vol_CapacityBytes vol = pl_size pl)
    (create_planned E req caps vp pl)"
  unfolding create_planned_def Let_def
  using make_volume_id [OF plan_volume_sound [OF assms [unfolded plan_of_def]], of "volume_of_plan pl vp caps" E]
  by (intro gives_tryE [where m = "check_free_capacity E (pl_size pl)", OF gives_any]
      gives_tryE [where m = "check_objectives E (vp_Objectives vp)", OF gives_any]
      gives_tryE [where P = "\<lambda>i. i = planned_id pl"] gives_ok)
    (simp_all add: volume_of_plan_def)

definition lookup_only :: "event \<Rightarrow> bool" where
  "lookup_only ev \<longleftrightarrow> (\<exists>h. ev = Ev_Query ''lookup'' h)"

lemma parse_lookups: "state_io_rel (adds lookup_only) (parseVolParams E ps)"
proof -
  have "state_io_rel (adds lookup_only) (resolve_param_fqdn E ps)"
    unfolding resolve_param_fqdn_def ResolveFQDN_def Let_def
    by (intro frame_intros adds_call) (simp add: lookup_only_def)
  then show ?thesis unfolding parseVolParams_def by (intro frame_intros)
qed

text \<open>The rule for a request: what holds of every refusal before the plan, and of every run from a
  plan, holds of the call.\<close>

lemma wp_CreateVolume:
  assumes refuse: "\<And>e t. adds lookup_only s t \<Longrightarrow> Q (Inl e) t"
    and make: "\<And>caps vp pl t. plans E s req pl \<Longrightarrow> plan_of req caps vp = Inr pl \<Longrightarrow>
      wp (create_planned E req caps vp pl) Q t"
  shows "wp (CreateVolume E req) Q s"
proof (cases "cv_VolumeCapabilities req")
  case None
  then show ?thesis unfolding CreateVolume_def by (simp add: wp_rules refuse)
next
  case (Some caps)
  let ?parse = "parseVolParams E (cv_Parameters req)"
  have "wp ?parse (\<lambda>_ t. adds lookup_only s t) s"
    using parse_lookups by (rule ad.keep_wp)
  then have parse: "wp ?parse (\<lambda>r t. r = fst (run_state ?parse s) \<and> adds lookup_only s t) s"
    by (simp add: wp_iff)
  have body: "wp (tryE (ret (plan_of req caps vp)) id k) Q t"
    if "fst (run_state ?parse s) = Inr vp" and "adds lookup_only s t"
      and "\<And>pl. plans E s req pl \<Longrightarrow> plan_of req caps vp = Inr pl \<Longrightarrow> wp (k pl) Q t"
    for t vp k
    using that refuse plansI [OF Some that(1)]
    by (cases "plan_of req caps vp") (auto simp: wp_tryE wp_return)
  show ?thesis unfolding CreateVolume_def Some option.case plan_of_def [symmetric]
      wp_if wp_return wp_tryE [of ?parse]
    using refuse by (auto intro!: wp_mono [OF parse] body make split: sum.splits)
qed

text \<open>C5. A volume that \<open>CreateVolume\<close> returns has the ID and size of its plan: the path of a file or
  directory inside the backing share for file-backed and nested volumes, the path of the share named
  after the volume otherwise; and the plan is sound (its size passes the floor of its file system, a
  share of its own is never restored from a snapshot).\<close>

theorem created_volume_id:
  "wp (CreateVolume E req) (\<lambda>r _. case r of
      Inl e \<Rightarrow> True
    | Inr vol \<Rightarrow> \<exists>pl. plans E s req pl \<and> vol_VolumeId vol = planned_id pl \<and>
        vol_CapacityBytes vol = pl_size pl) s"
proof (rule wp_CreateVolume)
  fix caps vp pl and t :: "'a drv"
  assume pl: "plans E s req pl" and of_pl: "plan_of req caps vp = Inr pl"
  show "wp (create_planned E req caps vp pl) (\<lambda>r _. case r of Inl e \<Rightarrow> True | Inr vol \<Rightarrow>
      \<exists>pl. plans E s req pl \<and> vol_VolumeId vol = planned_id pl \<and> vol_CapacityBytes vol = pl_size pl) t"
    by (rule wp_mono [OF wp_gives [OF make_planned_volume [OF of_pl]]]) (use pl in \<open>auto split: sum.splits\<close>)
qed simp

text \<open>C24. \<open>CreateVolume\<close> checks its arguments first: a request whose parsed parameters and capabilities
  lead to no sound plan is refused with an error, and nothing is done outside but the lookup of the
  FQDN parameter.\<close>

theorem create_checks_first:
  "wp (CreateVolume E req)
     (\<lambda>r s'. adds lookup_only s s' \<and> (\<exists>e. r = Inl e) \<or> (\<exists>pl. plans E s req pl)) s"
  by (rule wp_CreateVolume) (auto simp: wp_iff)

section \<open>Delete delays\<close>

text \<open>The delete delay survives the service: the delay written into the extended info of a new share is
  the delay with which the share is deleted, and a negative one comes back as none.\<close>

theorem delete_delay_roundtrip:
  assumes "d \<le> MaxInt64" and "sh_ExtendedInfo share = share_extended_info E d"
  shows "share_delete_delay share = (if d \<ge> 0 then d else - 1)"
  using assms ParseInt_FormatInt [of d]
  by (auto simp: share_delete_delay_def share_extended_info_def GetCommonExtendedInfo_def MinInt64_def)

theorem delete_delay_roundtrip_witness:
  "share_delete_delay ((fst (env_DecShare sample_env []))\<lparr>sh_ExtendedInfo := share_extended_info sample_env 3600\<rparr>)
     = 3600"
  using delete_delay_roundtrip [of 3600 "(fst (env_DecShare sample_env []))\<lparr>sh_ExtendedInfo :=
    share_extended_info sample_env 3600\<rparr>" sample_env]
  by (simp add: MaxInt64_def)

section \<open>Waiting for a file to become visible\<close>

lemma request_or_panic_steady:
  "good_clock E \<Longrightarrow> builds_requests E \<Longrightarrow> state_io_rel (steady E) (request_or_panic E v u b)"
  using doRequest_steady [of E] by (simp add: request_or_panic_def generateRequest_def builds_requests_def)

lemma DoesFileExist_steady:
  "good_clock E \<Longrightarrow> builds_requests E \<Longrightarrow> state_io_rel (steady E) (DoesFileExist E p)"
  unfolding DoesFileExist_def GetFile_def by (intro frame_intros request_or_panic_steady)

text \<open>The smallest pause of the back-off library with no minimum set: 100 ms.\<close>

definition min_backoff :: int where "min_backoff = 100 * second div 1000"

lemma wp_Sleep: "wp (Sleep E d) Q s =
    Q () (s\<lparr>d_world := env_Sleep E d (d_world s), d_trace := Ev_Sleep d # d_trace s\<rparr>)"
  by (simp add: Sleep_def wp_rules)

lemma Sleep_steady: "good_clock E \<Longrightarrow> 0 \<le> d \<Longrightarrow> wp (Sleep E d)
  (\<lambda>_ t. env_Now E (d_world s) + d \<le> env_Now E (d_world t) \<and> d_panic t = d_panic s) s"
  by (simp add: Sleep_def wp_rules good_clock_def)

lemma wait_visible_returns:
  assumes clock: "good_clock E" and bld: "builds_requests E" and bo: "\<And>a w. min_backoff \<le> env_Backoff E a w"
    and "start + 600 * second \<le> env_Now E (d_world s) + int n * min_backoff"
  shows "wp (wait_visible (Suc n) E start p a err)
    (\<lambda>r s'. d_panic s' = d_panic s \<and> r \<noteq> None) s"
  using assms(4)
proof (induction n arbitrary: s a err)
  case 0
  then show ?case by (auto simp: wp_rules)
next
  case (Suc n)
  let ?d = "env_Backoff E a (d_world s)"
  let ?s1 = "s\<lparr>d_world := env_Sleep E ?d (d_world s), d_trace := Ev_Sleep ?d # d_trace s\<rparr>"
  have slept: "env_Now E (d_world s) + min_backoff \<le> env_Now E (d_world ?s1)"
    using clock bo [of a "d_world s"] by (auto simp: good_clock_def intro: order_trans [OF add_left_mono])
  have next_round: "wp (wait_visible (Suc n) E start p a' err') (\<lambda>r s'. d_panic s' = d_panic s \<and> r \<noteq> None) t"
    if "env_Now E (d_world ?s1) \<le> env_Now E (d_world t)" and "d_panic t = d_panic s" for t a' err'
  proof -
    have "start + 600 * second \<le> env_Now E (d_world t) + int n * min_backoff"
      using Suc.prems slept that(1) by (simp add: algebra_simps)
    from Suc.IH [OF this, of a' err'] that(2) show ?thesis by simp
  qed
  have sec: "0 \<le> second" by (simp add: second_def)
  have "wp (DoesFileExist E p) (\<lambda>r t. steady E ?s1 t) ?s1"
    using DoesFileExist_steady [OF clock bld] by (rule stdy.keep_wp)
  then have "wp (DoesFileExist E p) (\<lambda>r. wp (case r of
        Inl e \<Rightarrow> State_Monad.bind (Sleep E second) (\<lambda>_. wait_visible (Suc n) E start p (Suc a) (Some e))
      | Inr found \<Rightarrow> if found then ret (Some (True, None)) else wait_visible (Suc n) E start p (Suc a) None)
      (\<lambda>r s'. d_panic s' = d_panic s \<and> r \<noteq> None)) ?s1"
  proof (rule wp_mono)
    fix r t
    assume st: "steady E ?s1 t"
    have "wp (Sleep E second) (\<lambda>_. wp (wait_visible (Suc n) E start p (Suc a) (Some e))
        (\<lambda>r s'. d_panic s' = d_panic s \<and> r \<noteq> None)) t" for e
      by (rule wp_mono [OF Sleep_steady [OF clock sec]], rule next_round)
        (use st sec in \<open>auto simp: steady_def\<close>)
    then show "wp (case r of
        Inl e \<Rightarrow> State_Monad.bind (Sleep E second) (\<lambda>_. wait_visible (Suc n) E start p (Suc a) (Some e))
      | Inr found \<Rightarrow> if found then ret (Some (True, None)) else wait_visible (Suc n) E start p (Suc a) None)
      (\<lambda>r s'. d_panic s' = d_panic s \<and> r \<noteq> None) t"
      using st next_round [of t] by (auto simp: wp_return wp_bind steady_def split: sum.splits)
  qed
  then show ?case unfolding wait_visible.simps(2) [of "Suc n"]
    by (auto simp: wp_bind wp_now wp_State wp_if wp_return wp_Sleep simp del: wait_visible.simps)
qed

text \<open>Waiting for a new file to become visible to the service ends: under a clock that runs forward,
  with pauses of at least 100 ms, the loop returns within its bound and without a panic.\<close>

theorem visible_wait_ends:
  assumes "good_clock E" and "builds_requests E" and "\<And>a w. min_backoff \<le> env_Backoff E a w"
  shows "wp (wait_visible visible_fuel E (env_Now E (d_world s)) p 0 None)
    (\<lambda>r s'. d_panic s' = d_panic s \<and> r \<noteq> None) s"
proof -
  have "visible_fuel = Suc 6000" by (simp add: visible_fuel_def)
  then show ?thesis
    using wait_visible_returns [OF assms, of "env_Now E (d_world s)" s 6000 p 0 None]
    by (simp add: min_backoff_def second_def)
qed

theorem visible_wait_ends_witness:
  "wp (wait_visible visible_fuel sample_env 0 ''/share/f'' 0 None) (\<lambda>r s'. d_panic s' = None \<and> r \<noteq> None)
     (init_drv 0)"
proof -
  have "good_clock sample_env" by (simp add: good_clock_def sample_env_def)
  moreover have "builds_requests sample_env" by (simp add: builds_requests_def sample_env_def)
  moreover have "min_backoff \<le> env_Backoff sample_env a w" for a w
    by (simp add: min_backoff_def sample_env_def second_def)
  moreover have "env_Now sample_env (d_world (init_drv 0)) = 0"
    by (simp add: sample_env_def init_drv_def)
  ultimately show ?thesis
    using visible_wait_ends [of sample_env "init_drv 0" "''/share/f''"] by (simp add: init_drv_def)
qed

end
