(* ===== verification/Freezer.thy ===== *)
theory Freezer
  imports Locks
begin

text \<open>
  Freezing file systems around a snapshot (\<open>pkg/driver/freezer.go\<close>). The Kubernetes API and the
  remote execution are the environment's. The history records a successful freeze and every
  attempt to unfreeze as such, and a failed freeze as a command, so \<open>frozen_after\<close> is the set of mount paths a history leaves frozen with
  no attempt to unfreeze them.
\<close>

record FrozenTarget =
  ft_Namespace :: string
  ft_PodName :: string
  ft_Container :: string
  ft_MountPath :: string
  ft_UserPodNs :: string
  ft_UserPodName :: string

definition driverNamespace :: "'w env \<Rightarrow> string res \<Rightarrow> string" where
  "driverNamespace E namespaceFile =
     (let ns = trim_space (env_Getenv E ''POD_NAMESPACE'') in
      if ns \<noteq> [] then ns
      else (case namespaceFile of
        Inl _ \<Rightarrow> ''kube-system''
      | Inr content \<Rightarrow> let ns2 = trim_space content in if ns2 \<noteq> [] then ns2 else ''kube-system''))"

definition freeze_event :: "string \<Rightarrow> string \<Rightarrow> unit res \<Rightarrow> event" where
  "freeze_event op p r =
     (if op = ''--freeze'' \<and> (\<exists>e. r = Inl e) then Ev_Exec ''fsfreeze'' [op, p] else Ev_Freeze op p)"

definition execFsfreeze :: "'w env \<Rightarrow> FrozenTarget \<Rightarrow> string \<Rightarrow> ('w, unit res) go" where
  "execFsfreeze E t op = State (\<lambda>s.
     case env_KubeExec E (ft_Namespace t) (ft_PodName t) (ft_Container t)
            [''fsfreeze'', op, ft_MountPath t] (d_world s) of
       (r, w) \<Rightarrow> (r, s\<lparr>d_world := w, d_trace := freeze_event op (ft_MountPath t) r # d_trace s\<rparr>))"

definition findCsiNodePodOnNode :: "'w env \<Rightarrow> string \<Rightarrow> ('w, (kube_pod \<times> string) res) go" where
  "findCsiNodePodOnNode E nodeName =
     tryE (call (Ev_Query ''csi-node'' nodeName) (env_KubeCsiNodePods E nodeName)) id (\<lambda>pods.
     case filter pod_Running pods of
       [] \<Rightarrow> fail (new_error (''no running csi-node pod on '' @ nodeName))
     | p # _ \<Rightarrow> ok (p, ''hs-csi-plugin-node''))"

definition pv_matches :: "string \<Rightarrow> kube_pv \<Rightarrow> bool" where
  "pv_matches volumeHandle pv \<longleftrightarrow> pv_VolumeHandle pv = Some volumeHandle \<and> pv_ClaimRef pv \<noteq> None"

definition freeze_mount_path :: "string \<Rightarrow> string \<Rightarrow> string" where
  "freeze_mount_path uid pvName =
     ''/var/lib/kubelet/pods/'' @ uid @ ''/volumes/kubernetes.io~csi/'' @ pvName @ ''/mount''"

fun pod_targets :: "'w env \<Rightarrow> string \<Rightarrow> string \<Rightarrow> kube_pod list \<Rightarrow> ('w, FrozenTarget list) go" where
  "pod_targets E claimName pvName [] = ret []"
| "pod_targets E claimName pvName (userPod # pods) =
     (if \<not> pod_Running userPod \<or> claimName \<notin> set (pod_ClaimNames userPod) \<or> pod_NodeName userPod = []
      then pod_targets E claimName pvName pods
      else do {
        r \<leftarrow> findCsiNodePodOnNode E (pod_NodeName userPod);
        rest \<leftarrow> pod_targets E claimName pvName pods;
        ret (case r of
          Inl _ \<Rightarrow> rest
        | Inr (csiPod, container) \<Rightarrow>
            \<lparr>ft_Namespace = pod_Namespace csiPod, ft_PodName = pod_Name csiPod,
             ft_Container = container, ft_MountPath = freeze_mount_path (pod_UID userPod) pvName,
             ft_UserPodNs = pod_Namespace userPod, ft_UserPodName = pod_Name userPod\<rparr> # rest)
      })"

definition findMountsForVolumeHandle :: "'w env \<Rightarrow> string \<Rightarrow> ('w, FrozenTarget list res) go" where
  "findMountsForVolumeHandle E volumeHandle =
     tryE (call (Ev_Query ''pvs'' []) (env_KubePVs E))
       (\<lambda>e. wrap_error (''list PVs: '' @ err_text e) e) (\<lambda>pvs.
     case filter (pv_matches volumeHandle) pvs of
       [] \<Rightarrow> ok []
     | pv # _ \<Rightarrow>
         (let (claimNs, claimName) = the (pv_ClaimRef pv) in
          if claimName = [] then ok []
          else tryE (call (Ev_Query ''pods'' claimNs) (env_KubePods E claimNs))
            (\<lambda>e. wrap_error (''list pods in '' @ claimNs @ '': '' @ err_text e) e) (\<lambda>pods. do {
            ts \<leftarrow> pod_targets E claimName (pv_Name pv) pods;
            ok ts
          })))"

fun freeze_all :: "'w env \<Rightarrow> FrozenTarget list \<Rightarrow> ('w, FrozenTarget list) go" where
  "freeze_all E [] = ret []"
| "freeze_all E (t # ts) = do {
     r \<leftarrow> execFsfreeze E t ''--freeze'';
     rest \<leftarrow> freeze_all E ts;
     ret (case r of Inl _ \<Rightarrow> rest | Inr _ \<Rightarrow> t # rest)
   }"

definition FreezeForVolumeHandle :: "'w env \<Rightarrow> string \<Rightarrow> ('w, FrozenTarget list) go" where
  "FreezeForVolumeHandle E volumeHandle = do {
     r \<leftarrow> findMountsForVolumeHandle E volumeHandle;
     (case r of Inl _ \<Rightarrow> ret [] | Inr targets \<Rightarrow> freeze_all E targets)
   }"

fun unfreeze_seq :: "'w env \<Rightarrow> FrozenTarget list \<Rightarrow> ('w, unit) go" where
  "unfreeze_seq E [] = ret ()"
| "unfreeze_seq E (t # ts) = do {
     _ \<leftarrow> execFsfreeze E t ''--unfreeze'';
     unfreeze_seq E ts
   }"

definition Unfreeze :: "'w env \<Rightarrow> FrozenTarget list \<Rightarrow> ('w, unit) go" where
  "Unfreeze E frozen = unfreeze_seq E (rev frozen)"

section \<open>What a history leaves frozen\<close>

fun frozen_after :: "event list \<Rightarrow> string set" where
  "frozen_after [] = {}"
| "frozen_after (Ev_Freeze op p # evs) =
     (if op = ''--freeze'' then insert p (frozen_after evs) else frozen_after evs - {p})"
| "frozen_after (_ # evs) = frozen_after evs"

lemma frozen_after_calm:
  "(\<forall>ev \<in> set evs. \<not> is_freeze ev) \<Longrightarrow> frozen_after (evs @ tr) = frozen_after tr"
proof (induction evs)
  case Nil
  then show ?case by simp
next
  case (Cons ev evs)
  then show ?case by (cases ev) auto
qed

lemma extends_trace_frozen: "extends_trace s s' \<Longrightarrow> frozen_after (d_trace s') = frozen_after (d_trace s)"
  by (auto simp: extends_trace_def frozen_after_calm)

abbreviation still_frozen :: "'w drv \<Rightarrow> string set" where
  "still_frozen s \<equiv> frozen_after (d_trace s)"

lemma wp_execFsfreeze: "wp (execFsfreeze E t op) (\<lambda>r s'. still_frozen s' =
    (if op = ''--freeze'' then (case r of Inl _ \<Rightarrow> still_frozen s
       | Inr _ \<Rightarrow> insert (ft_MountPath t) (still_frozen s))
     else still_frozen s - {ft_MountPath t})) s"
  by (auto simp: execFsfreeze_def freeze_event_def wp_rules split: prod.splits sum.splits)

lemma wp_freeze_all:
  "wp (freeze_all E ts) (\<lambda>fs s'. still_frozen s' = still_frozen s \<union> ft_MountPath ` set fs) s"
proof (induction ts arbitrary: s)
  case Nil
  then show ?case by (simp add: wp_rules)
next
  case (Cons t ts)
  show ?case unfolding freeze_all.simps wp_bind wp_return
  proof (rule wp_mono [OF wp_execFsfreeze])
    fix r and s1 :: "'a drv"
    assume st: "still_frozen s1 = (if ''--freeze'' = ''--freeze''
      then (case r of Inl _ \<Rightarrow> still_frozen s | Inr _ \<Rightarrow> insert (ft_MountPath t) (still_frozen s))
      else still_frozen s - {ft_MountPath t})"
    show "wp (freeze_all E ts) (\<lambda>fs s'. still_frozen s' = still_frozen s \<union>
        ft_MountPath ` set (case r of Inl x \<Rightarrow> fs | Inr x \<Rightarrow> t # fs)) s1"
      by (rule wp_mono [OF Cons.IH]) (use st in \<open>auto split: sum.splits\<close>)
  qed
qed

lemma wp_unfreeze_seq:
  "wp (unfreeze_seq E ts) (\<lambda>_ s'. still_frozen s' = still_frozen s - ft_MountPath ` set ts) s"
proof (induction ts arbitrary: s)
  case Nil
  then show ?case by (simp add: wp_rules)
next
  case (Cons t ts)
  show ?case unfolding unfreeze_seq.simps wp_bind
    by (rule wp_mono [OF wp_execFsfreeze], rule wp_mono [OF Cons.IH]) auto
qed

section \<open>Frames\<close>

lemma execFsfreeze_keeps [frame_intros]:
  "state_io_rel same_locks (execFsfreeze E t op)"
  "state_io_rel same_refs (execFsfreeze E t op)"
  "state_io_rel same_slots (execFsfreeze E t op)"
  "state_io_rel same_snapshots (execFsfreeze E t op)"
  by (auto simp: keep_iff_wp execFsfreeze_def wp_rules frame_defs split: prod.splits)

lemma findCsiNodePodOnNode_quiet [frame_intros]: "state_io_rel quiet (findCsiNodePodOnNode E n)"
  unfolding findCsiNodePodOnNode_def by (intro frame_intros)

lemma pod_targets_quiet [frame_intros]: "state_io_rel quiet (pod_targets E c p pods)"
  by (induction pods) (auto intro!: frame_intros)

lemma findMounts_quiet [frame_intros]: "state_io_rel quiet (findMountsForVolumeHandle E h)"
  unfolding findMountsForVolumeHandle_def Let_def by (intro frame_intros)

lemmas findMounts_keeps [frame_intros] =
  findMounts_quiet [THEN quiet_keeps(1)] findMounts_quiet [THEN quiet_keeps(2)]
  findMounts_quiet [THEN quiet_keeps(3)] findMounts_quiet [THEN quiet_keeps(4)]

lemma freeze_all_keeps [frame_intros]:
  "state_io_rel same_locks (freeze_all E ts)"
  "state_io_rel same_refs (freeze_all E ts)"
  "state_io_rel same_slots (freeze_all E ts)"
  "state_io_rel same_snapshots (freeze_all E ts)"
  by (induction ts) (auto intro!: frame_intros)

lemma unfreeze_seq_keeps [frame_intros]:
  "state_io_rel same_locks (unfreeze_seq E ts)"
  "state_io_rel same_refs (unfreeze_seq E ts)"
  "state_io_rel same_slots (unfreeze_seq E ts)"
  "state_io_rel same_snapshots (unfreeze_seq E ts)"
  by (induction ts) (auto intro!: frame_intros)

lemma freezer_keeps [frame_intros]:
  "state_io_rel same_locks (FreezeForVolumeHandle E h)"
  "state_io_rel same_refs (FreezeForVolumeHandle E h)"
  "state_io_rel same_slots (FreezeForVolumeHandle E h)"
  "state_io_rel same_snapshots (FreezeForVolumeHandle E h)"
  "state_io_rel same_locks (Unfreeze E ts)"
  "state_io_rel same_refs (Unfreeze E ts)"
  "state_io_rel same_slots (Unfreeze E ts)"
  "state_io_rel same_snapshots (Unfreeze E ts)"
  unfolding FreezeForVolumeHandle_def Unfreeze_def by (intro frame_intros)+

lemma wp_FreezeForVolumeHandle:
  "wp (FreezeForVolumeHandle E h)
     (\<lambda>fs s'. still_frozen s' = still_frozen s \<union> ft_MountPath ` set fs) s"
proof -
  have "wp (findMountsForVolumeHandle E h) (\<lambda>_ s'. quiet s s') s"
    using findMounts_quiet by (rule q.keep_wp)
  then show ?thesis unfolding FreezeForVolumeHandle_def wp_bind
  proof (rule wp_mono)
    fix r and s1 :: "'a drv"
    assume "quiet s s1"
    then have eq: "still_frozen s1 = still_frozen s" by (simp add: quiet_def extends_trace_frozen)
    show "wp (case r of Inl x \<Rightarrow> ret [] | Inr targets \<Rightarrow> freeze_all E targets)
        (\<lambda>fs s'. still_frozen s' = still_frozen s \<union> ft_MountPath ` set fs) s1"
      using wp_freeze_all [of E _ s1] eq by (auto simp: wp_rules split: sum.splits)
  qed
qed

text \<open>A body that freezes nothing itself, run between a freeze and the deferred unfreeze, leaves
  nothing frozen that was not frozen before.\<close>

lemma freeze_body_unfreeze:
  assumes "state_io_rel extends_trace body"
  shows "wp (State_Monad.bind (FreezeForVolumeHandle E h) (\<lambda>fs. deferring (Unfreeze E fs) body))
    (\<lambda>_ s'. still_frozen s' \<subseteq> still_frozen s) s"
  unfolding wp_bind
proof (rule wp_mono [OF wp_FreezeForVolumeHandle])
  fix fs :: "FrozenTarget list" and s1 :: "'a drv"
  assume s1: "still_frozen s1 = still_frozen s \<union> ft_MountPath ` set fs"
  have "wp body (\<lambda>_ s2. extends_trace s1 s2) s1" using assms by (rule tr.keep_wp)
  then show "wp (deferring (Unfreeze E fs) body) (\<lambda>_ s'. still_frozen s' \<subseteq> still_frozen s) s1"
    unfolding wp_deferring Unfreeze_def
  proof (rule wp_mono)
    fix r and s2 :: "'a drv"
    assume "extends_trace s1 s2"
    then have s2: "still_frozen s2 = still_frozen s \<union> ft_MountPath ` set fs"
      using s1 by (simp add: extends_trace_frozen)
    show "wp (unfreeze_seq E (rev fs)) (\<lambda>_ s'. still_frozen s' \<subseteq> still_frozen s) s2"
      by (rule wp_mono [OF wp_unfreeze_seq]) (use s2 in auto)
  qed
qed

end
