(* ===== verification/Controller_Snapshots.thy ===== *)
theory Controller_Snapshots
  imports Controller_Volumes Freezer
begin

text \<open>
  The controller's snapshot operations (\<open>pkg/driver/controller.go\<close>): creating a snapshot with the
  source's file systems frozen, deleting one, listing, and finding one by its ID.
\<close>

section \<open>CreateSnapshot\<close>

definition take_snapshot :: "'w env \<Rightarrow> string \<Rightarrow> string \<Rightarrow> bool \<Rightarrow> ('w, Snapshot res) go" where
  "take_snapshot E name sourceVolumeID fileBackedSource =
     tryE (if \<not> fileBackedSource then SnapshotShare E (GetVolumeNameFromPath sourceVolumeID)
           else SnapshotFile E sourceVolumeID) internal (\<lambda>hsSnapName. do {
       t \<leftarrow> now E;
       let snapshot = \<lparr>snap_SizeBytes = 0,
         snap_SnapshotId = GetSnapshotIDFromSnapshotName hsSnapName sourceVolumeID,
         snap_SourceVolumeId = sourceVolumeID, snap_CreationTime = unix_timestamp t, snap_ReadyToUse = True\<rparr>;
       modify (\<lambda>s. s\<lparr>d_snapshots := (d_snapshots s)(name \<mapsto> snapshot)\<rparr>);
       ok snapshot
     })"

text \<open>Whether the source is a file: by its ID, or because no share has its name.\<close>

definition source_is_file :: "'w env \<Rightarrow> string \<Rightarrow> ('w, bool res) go" where
  "source_is_file E sourceVolumeID =
     (if isFileBackedVolumeID sourceVolumeID then ok True
      else tryE (GetShare E (GetVolumeNameFromPath sourceVolumeID)) internal (\<lambda>share. ok (share = None)))"

definition new_snapshot :: "'w env \<Rightarrow> string \<Rightarrow> string \<Rightarrow> ('w, Snapshot res) go" where
  "new_snapshot E name sourceVolumeID =
     tryE (source_is_file E sourceVolumeID) id (\<lambda>fileBackedSource.
     if env_Freezer E \<and> fileBackedSource then do {
       frozen \<leftarrow> FreezeForVolumeHandle E sourceVolumeID;
       deferring (Unfreeze E frozen) (take_snapshot E name sourceVolumeID fileBackedSource)
     } else take_snapshot E name sourceVolumeID fileBackedSource)"

definition CreateSnapshot :: "'w env \<Rightarrow> string \<Rightarrow> string \<Rightarrow> ('w, Snapshot res) go" where
  "CreateSnapshot E name sourceVolumeID =
     (if name = [] then fail (status_error InvalidArgument EmptySnapshotId)
      else if length name > MaxNameLength then
        fail (status_error InvalidArgument (SnapshotIdTooLong (int MaxNameLength)))
      else if sourceVolumeID = [] then
        fail (status_error InvalidArgument MissingSnapshotSourceVolumeId)
      else with_snapshot_lock E name (do {
        cached \<leftarrow> gets (\<lambda>s. d_snapshots s name);
        (case cached of
           None \<Rightarrow> new_snapshot E name sourceVolumeID
         | Some snapshot \<Rightarrow>
             if snap_SourceVolumeId snapshot \<noteq> sourceVolumeID then
               fail (status_error AlreadyExists ''snapshot already exists for a different volume'')
             else ok snapshot)
      }))"

section \<open>DeleteSnapshot\<close>

definition delete_snapshot_of :: "'w env \<Rightarrow> string \<Rightarrow> string \<Rightarrow> ('w, unit res res) go" where
  "delete_snapshot_of E sourceVolumeID snapshotName =
     (let shareName = GetVolumeNameFromPath sourceVolumeID in
      if isFileBackedVolumeID sourceVolumeID then do {
        r \<leftarrow> DeleteFileSnapshot E sourceVolumeID snapshotName;
        ok r
      } else tryE (GetShare E shareName) internal (\<lambda>share. do {
        r \<leftarrow> (if share \<noteq> None then DeleteShareSnapshot E shareName snapshotName
             else DeleteFileSnapshot E sourceVolumeID snapshotName);
        ok r
      }))"

definition DeleteSnapshot :: "'w env \<Rightarrow> string \<Rightarrow> ('w, unit res) go" where
  "DeleteSnapshot E snapshotId =
     (if snapshotId = [] then fail (status_error InvalidArgument EmptySnapshotId)
      else (case (GetSnapshotNameFromSnapshotId snapshotId, GetSnapshotSourceVolumeId snapshotId) of
        (Inr snapshotName, Inr sourceVolumeID) \<Rightarrow>
          tryE (delete_snapshot_of E sourceVolumeID snapshotName) id (\<lambda>r.
          case r of
            Inr _ \<Rightarrow> ok ()
          | Inl e \<Rightarrow> if contains (err_text e) ''not found'' then ok () else fail (internal e))
      | _ \<Rightarrow> ok ()))"

section \<open>ListSnapshots\<close>

fun child_named :: "string \<Rightarrow> FileChildren list \<Rightarrow> FileChildren option" where
  "child_named n [] = None"
| "child_named n (c # cs) = (if fc_Name c = n then Some c else child_named n cs)"

definition snapshotDirEntry :: "'w env \<Rightarrow> string \<Rightarrow> string \<Rightarrow> ('w, FileChildren option res) go" where
  "snapshotDirEntry E dir name =
     tryE (GetFile E dir) id (\<lambda>parent.
     ok (case parent of None \<Rightarrow> None | Some f \<Rightarrow> child_named name (fl_Children f)))"

definition snapshot_entry :: "string \<Rightarrow> string \<Rightarrow> int \<Rightarrow> int \<Rightarrow> Snapshot" where
  "snapshot_entry snapshotID sourceVolumeID sz created =
     \<lparr>snap_SizeBytes = sz, snap_SnapshotId = snapshotID, snap_SourceVolumeId = sourceVolumeID,
      snap_CreationTime = seconds_timestamp created, snap_ReadyToUse = True\<rparr>"

definition find_file_snapshot :: "'w env \<Rightarrow> string \<Rightarrow> string \<Rightarrow> string \<Rightarrow> ('w, Snapshot option res) go" where
  "find_file_snapshot E snapshotID snapshotName sourceVolumeID =
     tryE (snapshotDirEntry E (path_dir snapshotName) (path_base snapshotName))
       (\<lambda>e. status_error Internal (''could not look up snapshot '' @ snapshotID @ '': '' @ err_text e))
       (\<lambda>child. ok (map_option (\<lambda>c. snapshot_entry snapshotID sourceVolumeID (fc_Size c) (fc_CreateTime c)) child))"

definition find_share_snapshot :: "'w env \<Rightarrow> string \<Rightarrow> string \<Rightarrow> string \<Rightarrow> ('w, Snapshot option res) go" where
  "find_share_snapshot E snapshotID snapshotName sourceVolumeID =
     (let shareName = GetVolumeNameFromPath sourceVolumeID in
      tryE (GetShare E shareName)
        (\<lambda>e. status_error Internal (''could not look up source share '' @ shareName @ '': '' @ err_text e))
        (\<lambda>share. case share of
           None \<Rightarrow> ok None
         | Some sh \<Rightarrow>
             tryE (GetShareSnapshots E shareName)
               (\<lambda>e. status_error Internal (''could not list snapshots of share '' @ shareName @ '': '' @
                  err_text e)) (\<lambda>names.
             if \<not> env_ContainsString E names snapshotName then ok None
             else do {
               c \<leftarrow> snapshotDirEntry E (path_join [sh_ExportPath sh, ''.snapshot'']) snapshotName;
               ok (Some (case c of
                 Inr (Some child) \<Rightarrow>
                   snapshot_entry snapshotID sourceVolumeID (fc_Size child) (fc_CreateTime child)
               | _ \<Rightarrow> snapshot_entry snapshotID sourceVolumeID 0 0))
             })))"

definition findSnapshotByID :: "'w env \<Rightarrow> string \<Rightarrow> ('w, Snapshot option res) go" where
  "findSnapshotByID E snapshotID =
     (case (GetSnapshotNameFromSnapshotId snapshotID, GetSnapshotSourceVolumeId snapshotID) of
        (Inr snapshotName, Inr sourceVolumeID) \<Rightarrow>
          if isFileBackedVolumeID sourceVolumeID
          then find_file_snapshot E snapshotID snapshotName sourceVolumeID
          else find_share_snapshot E snapshotID snapshotName sourceVolumeID
      | _ \<Rightarrow> ok None)"

definition backend_entry :: "SnapshotResponse \<Rightarrow> Snapshot" where
  "backend_entry r =
     \<lparr>snap_SizeBytes = sn_Size r,
      snap_SnapshotId = GetSnapshotIDFromSnapshotName (sn_Id r) (sn_SourceVolumeId r),
      snap_SourceVolumeId = sn_SourceVolumeId r, snap_CreationTime = seconds_timestamp (sn_Created r),
      snap_ReadyToUse = sn_ReadyToUse r\<rparr>"

definition matches_source :: "string \<Rightarrow> string \<Rightarrow> bool" where
  "matches_source wanted v \<longleftrightarrow> wanted = [] \<or> v = wanted"

definition Controller_ListSnapshots :: "'w env \<Rightarrow> int \<Rightarrow> string \<Rightarrow> string \<Rightarrow> ('w, Snapshot list res) go" where
  "Controller_ListSnapshots E maxEntries snapshotId sourceVolumeId =
     (if maxEntries < 0 then fail (status_error InvalidArgument
        (''[ListSnapshots] Invalid max entries request '' @ FormatInt maxEntries @
         '', must not be negative ''))
      else if snapshotId \<noteq> [] then
        tryE (findSnapshotByID E snapshotId) id (\<lambda>entry.
        ok (case entry of
          None \<Rightarrow> []
        | Some sn \<Rightarrow> if matches_source sourceVolumeId (snap_SourceVolumeId sn) then [sn] else []))
      else
        tryE (ListSnapshots E [] sourceVolumeId) internal (\<lambda>backendSnapshots.
        ok (map backend_entry
          (filter (\<lambda>r. matches_source sourceVolumeId (sn_SourceVolumeId r)) backendSnapshots))))"

section \<open>Frames\<close>

lemma source_is_file_quiet [frame_intros]: "state_io_rel quiet (source_is_file E v)"
  unfolding source_is_file_def by (intro frame_intros)

lemmas source_is_file_keeps [frame_intros] =
  source_is_file_quiet [THEN quiet_keeps(1)] source_is_file_quiet [THEN quiet_keeps(2)]
  source_is_file_quiet [THEN quiet_keeps(3)] source_is_file_quiet [THEN quiet_keeps(5)]

lemma remember_keeps:
  "state_io_rel same_locks (modify (\<lambda>s. s\<lparr>d_snapshots := f (d_snapshots s)\<rparr>))"
  "state_io_rel same_refs (modify (\<lambda>s. s\<lparr>d_snapshots := f (d_snapshots s)\<rparr>))"
  "state_io_rel same_slots (modify (\<lambda>s. s\<lparr>d_snapshots := f (d_snapshots s)\<rparr>))"
  "state_io_rel extends_trace (modify (\<lambda>s. s\<lparr>d_snapshots := f (d_snapshots s)\<rparr>))"
  by (auto simp: keep_iff_wp wp_rules frame_defs)

lemma take_snapshot_keeps [frame_intros]:
  "state_io_rel same_locks (take_snapshot E n v b)"
  "state_io_rel same_refs (take_snapshot E n v b)"
  "state_io_rel same_slots (take_snapshot E n v b)"
  "state_io_rel extends_trace (take_snapshot E n v b)"
  unfolding take_snapshot_def Let_def
  by (intro frame_intros remember_keeps)+

lemma new_snapshot_keeps [frame_intros]:
  "state_io_rel same_locks (new_snapshot E n v)"
  "state_io_rel same_refs (new_snapshot E n v)"
  "state_io_rel same_slots (new_snapshot E n v)"
  unfolding new_snapshot_def by (intro frame_intros)+

lemma CreateSnapshot_keeps:
  "state_io_rel same_locks (CreateSnapshot E n v)"
  "state_io_rel same_refs (CreateSnapshot E n v)"
  "state_io_rel same_slots (CreateSnapshot E n v)"
  unfolding CreateSnapshot_def by (intro frame_intros)+

lemma delete_snapshot_of_quiet [frame_intros]: "state_io_rel quiet (delete_snapshot_of E v n)"
  unfolding delete_snapshot_of_def Let_def by (intro frame_intros)

lemma snapshotDirEntry_quiet [frame_intros]: "state_io_rel quiet (snapshotDirEntry E d n)"
  unfolding snapshotDirEntry_def by (intro frame_intros)

lemma find_quiet [frame_intros]:
  "state_io_rel quiet (find_file_snapshot E i n v)"
  "state_io_rel quiet (find_share_snapshot E i n v)"
  unfolding find_file_snapshot_def find_share_snapshot_def Let_def by (intro frame_intros)+

lemma findSnapshotByID_quiet [frame_intros]: "state_io_rel quiet (findSnapshotByID E i)"
  unfolding findSnapshotByID_def by (intro frame_intros)

lemma controller_snapshot_quiet:
  "state_io_rel quiet (DeleteSnapshot E i)"
  "state_io_rel quiet (Controller_ListSnapshots E n i v)"
  unfolding DeleteSnapshot_def Controller_ListSnapshots_def by (intro frame_intros)+

end
