(* ===== verification/Node.thy ===== *)
theory Node
  imports Node_Helper
begin

text \<open>
  The node service (\<open>pkg/driver/node.go\<close>): node information, volume statistics with a bounded path
  probe, staging and unstaging, publishing and unpublishing, and expansion on the node.
\<close>

section \<open>Node information\<close>

definition maxVolumesPerNode :: "'w env \<Rightarrow> int" where
  "maxVolumesPerNode E =
     (let v = env_Getenv E ''MAX_VOLUMES_PER_NODE'' in
      if v = [] then 0
      else (case ParseInt v of None \<Rightarrow> 0 | Some n \<Rightarrow> if n < 0 then 0 else n))"

record node_info =
  ni_NodeId :: string
  ni_MaxVolumes :: int
  ni_Topology :: smap

definition NodeGetInfo :: "'w env \<Rightarrow> ('w, node_info res) go" where
  "NodeGetInfo E =
     tryE (GetDataPortals E (env_NodeID E)) id (\<lambda>portals.
     let isDataPortal = (\<exists>p \<in> set portals. dp_NodeName p = env_NodeID E)
     in ok \<lparr>ni_NodeId = env_NodeID E, ni_MaxVolumes = maxVolumesPerNode E,
            ni_Topology = [TopologyKeyDataPortal \<mapsto> FormatBool isDataPortal]\<rparr>)"

section \<open>Volume statistics\<close>

type_synonym path_probe = "file_info res \<times> statfs_info res option"

text \<open>
  One stat, and one statfs unless the path is a block device, with a common timeout. \<open>None\<close> is the
  timeout, with the probe still running; a later call for the path waits for that probe instead of
  starting another, unless it ended meanwhile.
\<close>

definition probe_done :: "string \<Rightarrow> path_probe \<Rightarrow> ('w, path_probe option) go" where
  "probe_done path p = State (\<lambda>s. (Some p, s\<lparr>d_probes := d_probes s - {path}\<rparr>))"

definition start_probe :: "'w env \<Rightarrow> string \<Rightarrow> ('w, path_probe option) go" where
  "start_probe E path = do {
     modify (\<lambda>s. s\<lparr>d_probes := insert path (d_probes s)\<rparr>);
     st \<leftarrow> call (Ev_Query ''stat'' path) (env_StatTimed E path);
     (case st of
        None \<Rightarrow> ret None
      | Some (Inl e) \<Rightarrow> probe_done path (Inl e, None)
      | Some (Inr info) \<Rightarrow>
          if IsBlockDevice info then probe_done path (Inr info, None)
          else do {
            sf \<leftarrow> call (Ev_Query ''statfs'' path) (env_StatfsTimed E path);
            (case sf of None \<Rightarrow> ret None | Some r \<Rightarrow> probe_done path (Inr info, Some r))
          })
   }"

definition probeVolumePath :: "'w env \<Rightarrow> string \<Rightarrow> ('w, path_probe option) go" where
  "probeVolumePath E path = do {
     running \<leftarrow> gets (\<lambda>s. path \<in> d_probes s \<and> env_ProbeRunning E path (d_world s));
     if running then do {
       r \<leftarrow> call (Ev_Query ''probewait'' path) (env_ProbeWait E path);
       (case r of None \<Rightarrow> ret None | Some p \<Rightarrow> probe_done path p)
     } else start_probe E path
   }"

record volume_usage =
  vu_Available :: int
  vu_Total :: int
  vu_Used :: int

definition byte_usage :: "statfs_info \<Rightarrow> volume_usage" where
  "byte_usage st =
     \<lparr>vu_Available = int64 (int64 (st_Bsize st) * int64 (st_Bavail st)),
      vu_Total = int64 (int64 (st_Bsize st) * int64 (st_Blocks st)),
      vu_Used = int64 (int64 (st_Bsize st) * int64 (st_Blocks st - st_Bfree st))\<rparr>"

definition inode_usage :: "statfs_info \<Rightarrow> volume_usage" where
  "inode_usage st =
     \<lparr>vu_Available = int64 (st_Ffree st), vu_Total = int64 (st_Files st),
      vu_Used = int64 (int64 (st_Files st) - int64 (st_Ffree st))\<rparr>"

definition no_usage :: volume_usage where
  "no_usage = \<lparr>vu_Available = 0, vu_Total = 0, vu_Used = 0\<rparr>"

definition block_stats :: "'w env \<Rightarrow> string \<Rightarrow> ('w, (volume_usage \<times> volume_usage) res) go" where
  "block_stats E path = do {
     b \<leftarrow> call (Ev_Query ''blksize'' path) (env_BlockSize E path);
     (case b of
        Inl e \<Rightarrow> fail (status_error Internal (''failed to open block device: '' @ err_text e))
      | Inr (Inl e) \<Rightarrow> fail (status_error Internal (''failed to get block size: '' @ err_text e))
      | Inr (Inr n) \<Rightarrow> ok (no_usage\<lparr>vu_Total := n\<rparr>, no_usage))
   }"

definition volumeStatsTimeout :: int where "volumeStatsTimeout = 10 * second"

definition NodeGetVolumeStats :: "'w env \<Rightarrow> string \<Rightarrow> string \<Rightarrow> ('w, (volume_usage \<times> volume_usage) res) go" where
  "NodeGetVolumeStats E volumeId volumePath =
     (if volumeId = [] then fail (status_error InvalidArgument EmptyVolumeId)
      else if volumePath = [] then fail (status_error InvalidArgument EmptyVolumePath)
      else do {
        p \<leftarrow> probeVolumePath E volumePath;
        (case p of
           None \<Rightarrow> fail (status_error Unavailable (''volume path '' @ volumePath @
             '' did not answer within '' @ Duration_String volumeStatsTimeout @ ''; its NFS server may be unreachable''))
         | Some (Inl e, _) \<Rightarrow>
             if is_io_error e then fail (status_error Unavailable (''volume path '' @ volumePath @
               '' is inaccessible due to an I/O error; filesystem teardown and retry are required''))
             else fail (status_error NotFound VolumeNotFound)
         | Some (Inr info, sf) \<Rightarrow>
             if IsBlockDevice info then block_stats E volumePath
             else (case sf of
               Some (Inr st) \<Rightarrow> ok (byte_usage st, inode_usage st)
             | _ \<Rightarrow> fail (status_error Internal FileNotFound)))
      })"

section \<open>Staging\<close>

definition nodeVolumeFsType :: "VolumeCapability \<Rightarrow> smap \<Rightarrow> string" where
  "nodeVolumeFsType capability volumeContext =
     (case GetMount capability of
        None \<Rightarrow> []
      | Some (fs, _) \<Rightarrow>
          if fs \<noteq> [] then fs
          else if mget volumeContext ''fsType'' \<noteq> [] then mget volumeContext ''fsType''
          else ''nfs'')"

definition cap_mount_flags :: "VolumeCapability \<Rightarrow> string list" where
  "cap_mount_flags c = (case GetMount c of None \<Rightarrow> [] | Some (_, flags) \<Rightarrow> flags)"

definition NodeStageVolume :: "'w env \<Rightarrow> string \<Rightarrow> string \<Rightarrow> VolumeCapability option \<Rightarrow> smap
    \<Rightarrow> ('w, unit res) go" where
  "NodeStageVolume E volumeID stagingTarget cap volumeContext =
     (if volumeID = [] then fail (status_error InvalidArgument ''Volume ID missing'')
      else if stagingTarget = [] then fail (status_error InvalidArgument ''Staging target path missing'')
      else (case cap of
        None \<Rightarrow> fail (status_error InvalidArgument ''VolumeCapability must be provided'')
      | Some c \<Rightarrow>
          if nodeVolumeFsType c volumeContext = ''nfs'' then
            stageNFSVolume E volumeID stagingTarget (cap_mount_flags c) volumeContext
          else ok ()))"

definition releaseLegacyRootExport :: "'w env \<Rightarrow> string \<Rightarrow> ('w, unit res) go" where
  "releaseLegacyRootExport E volumeID = do {
     let marker = GetHashedMarkerPath E BaseVolumeMarkerSourcePath volumeID;
     st \<leftarrow> os_Stat E marker;
     if is_missing st then ok ()
     else with_volume_lock E BaseBackingShareMountPath (do {
       rm \<leftarrow> os_Remove E marker;
       (case rm of
          Inl e \<Rightarrow>
            if IsNotExist e then ok ()
            else fail (status_error Internal (''remove volume marker '' @ marker @ '': '' @ err_text e))
        | Inr _ \<Rightarrow> ok ()) \<bind> (\<lambda>r. case r of
          Inl e \<Rightarrow> fail e
        | Inr _ \<Rightarrow> do {
            still \<leftarrow> IsAnyVolumeStillMounted E BaseVolumeMarkerSourcePath;
            if still then ok ()
            else tryE (UnmountFilesystem E BaseBackingShareMountPath)
              (\<lambda>e. status_error Internal (''unmount root export: '' @ err_text e)) (\<lambda>_. ok ())
          })
     })
   }"

definition NodeUnstageVolume :: "'w env \<Rightarrow> string \<Rightarrow> string \<Rightarrow> ('w, unit res) go" where
  "NodeUnstageVolume E volumeID stagingTarget =
     (if volumeID = [] then fail (status_error InvalidArgument ''Volume ID missing'')
      else if stagingTarget = [] then fail (status_error InvalidArgument ''Staging target path missing'')
      else do {
        m \<leftarrow> SafeIsMountPoint E stagingTarget;
        tryE (case m of
                Inr mounted \<Rightarrow>
                  if mounted then tryE (UnmountFilesystem E stagingTarget)
                    (\<lambda>e. status_error Internal (''unmount NFS staging target: '' @ err_text e)) (\<lambda>_. ok ())
                  else ok ()
              | Inl me \<Rightarrow>
                  if is_io_error me then tryE (ForceUnmountFilesystem E stagingTarget)
                    (\<lambda>e. status_error Internal (''force-unmount stale NFS staging target: '' @ err_text e))
                    (\<lambda>_. ok ())
                  else ok ()) id (\<lambda>_.
        releaseLegacyRootExport E volumeID)
      })"

section \<open>Publishing\<close>

definition NodePublishVolume :: "'w env \<Rightarrow> string \<Rightarrow> string \<Rightarrow> string \<Rightarrow> VolumeCapability option
    \<Rightarrow> smap \<Rightarrow> bool \<Rightarrow> ('w, unit res) go" where
  "NodePublishVolume E volume_id stagingTarget targetPath cap volumeContext readOnly =
     (if volume_id = [] then fail (status_error InvalidArgument EmptyVolumeId)
      else if targetPath = [] then fail (status_error InvalidArgument EmptyTargetPath)
      else (case cap of
        None \<Rightarrow> fail (status_error InvalidArgument (NoCapabilitiesSupplied volume_id))
      | Some c \<Rightarrow> with_volume_lock E volume_id (
          case cap_AccessType c of
            None \<Rightarrow> fail (status_error InvalidArgument (NoCapabilitiesSupplied volume_id))
          | Some ac \<Rightarrow>
              let fsType = nodeVolumeFsType c volumeContext;
                  backingShareName = (if ac = Access_Block then mget volumeContext ''blockBackingShareName''
                                      else mget volumeContext ''mountBackingShareName'')
              in if fsType = ''nfs'' then
                   publishShareBackedVolume E volume_id stagingTarget targetPath (cap_mount_flags c)
                     readOnly volumeContext
                 else publishFileBackedVolume E backingShareName volume_id targetPath fsType
                   (cap_mount_flags c) readOnly (mget volumeContext ''fqdn''))))"

definition unpublish_target :: "'w env \<Rightarrow> string \<Rightarrow> string \<Rightarrow> file_info \<Rightarrow> ('w, unit res) go" where
  "unpublish_target E volumeId targetPath fi =
     (if IsBlockDevice fi then unpublishFileBackedVolume E volumeId targetPath
      else if fi_IsDir fi then tryE (UnmountFilesystem E targetPath) internal (\<lambda>_. ok ())
      else tryE (os_Remove E targetPath)
        (\<lambda>e. status_error Internal (''failed to remove unexpected target path: '' @ err_text e))
        (\<lambda>_. ok ()))"

definition unpublish_symlink :: "'w env \<Rightarrow> string \<Rightarrow> string \<Rightarrow> ('w, unit res) go" where
  "unpublish_symlink E volumeId targetPath = do {
     r \<leftarrow> call (Ev_Query ''readlink'' targetPath) (env_EvalSymlinks E targetPath);
     (case r of
        Inl _ \<Rightarrow> tryE (os_Remove E targetPath)
          (\<lambda>e. status_error Internal (''failed to remove broken symlink: '' @ err_text e)) (\<lambda>_. ok ())
      | Inr resolvedPath \<Rightarrow> tryE (os_Stat E resolvedPath)
          (\<lambda>e. status_error Internal (''failed to stat resolved path: '' @ err_text e)) (\<lambda>fi.
          unpublish_target E volumeId resolvedPath fi))
   }"

definition NodeUnpublishVolume :: "'w env \<Rightarrow> string \<Rightarrow> string \<Rightarrow> ('w, unit res) go" where
  "NodeUnpublishVolume E volumeId targetPath =
     (if volumeId = [] then fail (status_error InvalidArgument EmptyVolumeId)
      else if targetPath = [] then fail (status_error InvalidArgument EmptyTargetPath)
      else with_volume_lock E volumeId (do {
        st \<leftarrow> call (Ev_Query ''lstat'' targetPath) (env_Lstat E targetPath);
        (case st of
           Inl e \<Rightarrow>
             if IsNotExist e then ok ()
             else if is_io_error e then tryE (ForceUnmountFilesystem E targetPath)
               (\<lambda>ue. status_error Internal (''failed to clean up target path after I/O error: '' @ err_text ue))
               (\<lambda>_. ok ())
             else fail (status_error Internal (''error stating target path: '' @ err_text e))
         | Inr fi \<Rightarrow>
             if fi_Symlink fi then unpublish_symlink E volumeId targetPath
             else unpublish_target E volumeId targetPath fi)
      }))"

section \<open>Expansion on the node\<close>

definition NodeGetCapabilities :: "string list" where
  "NodeGetCapabilities = [''UNKNOWN'', ''STAGE_UNSTAGE_VOLUME'', ''GET_VOLUME_STATS'', ''EXPAND_VOLUME'']"

definition nodeExpansionFilesystemType :: "'w env \<Rightarrow> VolumeCapability option \<Rightarrow> string \<Rightarrow> string
    \<Rightarrow> ('w, string res) go" where
  "nodeExpansionFilesystemType E cap volumePath backingFile =
     (let mnt = (case cap of None \<Rightarrow> None | Some c \<Rightarrow> GetMount c);
          fs = (case mnt of None \<Rightarrow> [] | Some (f, _) \<Rightarrow> f);
          isBlock = (case cap of None \<Rightarrow> False | Some c \<Rightarrow> GetBlock c)
      in if mnt \<noteq> None \<and> volumePath = [] then fail (status_error InvalidArgument EmptyVolumePath)
         else if mnt \<noteq> None \<and> fs \<noteq> [] then ok fs
         else if isBlock then ok []
         else if volumePath = [] then fail (status_error InvalidArgument EmptyVolumePath)
         else tryE (GetFilesystemType E backingFile)
           (\<lambda>e. status_error Internal (''could not determine filesystem type at '' @ go_quote volumePath @
              '': '' @ err_text e)) (\<lambda>t. ok t))"

text \<open>\<open>None\<close> is the empty response of a share-backed volume, which needs no expansion here.\<close>

definition NodeExpandVolume :: "'w env \<Rightarrow> string \<Rightarrow> string \<Rightarrow> CapacityRange option
    \<Rightarrow> VolumeCapability option \<Rightarrow> ('w, int option res) go" where
  "NodeExpandVolume E volumeId volumePath cr cap = do {
     let requestedSize = (case cr of None \<Rightarrow> 0
       | Some r \<Rightarrow> if cr_LimitBytes r \<noteq> 0 then cr_LimitBytes r else cr_RequiredBytes r);
     (share, _) \<leftarrow> GetShare_pair E (GetVolumeNameFromPath volumeId);
     (case share of
        Some sh \<Rightarrow> do {
          isMounted \<leftarrow> IsShareMounted E (sh_ExportPath sh);
          if \<not> isMounted then fail (status_error FailedPrecondition ShareNotMounted) else ok None
        }
      | None \<Rightarrow> do {
          ex \<leftarrow> DoesFileExist E volumeId;
          if \<not> (case ex of Inl _ \<Rightarrow> False | Inr b \<Rightarrow> b) then
            fail (status_error InvalidArgument VolumeNotFound)
          else
            let backingFile = ShareStagingDir @ volumeId in
            tryE (ExpandDeviceFileSize E backingFile requestedSize) id (\<lambda>_.
            tryE (nodeExpansionFilesystemType E cap volumePath backingFile) id (\<lambda>fsType.
            tryE (if fsType \<noteq> [] then ExpandMountedFilesystem E volumePath backingFile fsType else ok ())
              id (\<lambda>_.
            ok (Some requestedSize))))
        })
   }"

section \<open>Frames\<close>

lemma probe_state_quiet [frame_intros]:
  "state_io_rel quiet (probe_done p r)"
  "state_io_rel quiet (modify (\<lambda>s. s\<lparr>d_probes := f (d_probes s)\<rparr>))"
  unfolding probe_done_def by (rule quiet_State, simp add: frame_defs)+

lemma start_probe_quiet [frame_intros]: "state_io_rel quiet (start_probe E p)"
  unfolding start_probe_def by (intro frame_intros)

lemma node_pieces_quiet [frame_intros]:
  "state_io_rel quiet (probeVolumePath E p)"
  "state_io_rel quiet (block_stats E p)"
  "state_io_rel quiet (releaseLegacyRootExport E v)"
  "state_io_rel quiet (unpublish_target E v t fi)"
  "state_io_rel quiet (nodeExpansionFilesystemType E cap vp b)"
  unfolding probeVolumePath_def block_stats_def releaseLegacyRootExport_def unpublish_target_def
    nodeExpansionFilesystemType_def Let_def
  by (intro frame_intros)+

lemma unpublish_symlink_quiet [frame_intros]: "state_io_rel quiet (unpublish_symlink E v t)"
  unfolding unpublish_symlink_def by (intro frame_intros)

lemma node_quiet:
  "state_io_rel quiet (NodeGetInfo E)"
  "state_io_rel quiet (NodeGetVolumeStats E v p)"
  "state_io_rel quiet (NodeStageVolume E v st cap c)"
  "state_io_rel quiet (NodeUnstageVolume E v st)"
  "state_io_rel quiet (NodePublishVolume E v st t cap c r)"
  "state_io_rel quiet (NodeUnpublishVolume E v t)"
  "state_io_rel quiet (NodeExpandVolume E v p cr cap)"
  unfolding NodeGetInfo_def NodeGetVolumeStats_def NodeStageVolume_def NodeUnstageVolume_def
    NodePublishVolume_def NodeUnpublishVolume_def NodeExpandVolume_def Let_def
  by (intro frame_intros)+

end
