(* ===== verification/Event_Frames.thy ===== *)
theory Event_Frames
  imports Controller_Snapshots Node
begin

text \<open>
  What the operations do to the outside world, as the events they add to the history. Three
  interfaces, each extending the one before, name the events a group of operations needs: reading
  calls (\<open>read_events\<close>), commands and NFS mounts (\<open>command_events\<close>), and detaching mounts
  (\<open>host_events\<close>). For every predicate on events that allows those, the operations add only events
  the predicate allows; the properties at the end interpret the interfaces at the predicates they
  speak of.
\<close>

section \<open>Operations that only read\<close>

locale read_events =
  fixes P :: "event \<Rightarrow> bool"
  assumes get: "P (Ev_Http ''GET'' u)"
    and login: "P (Ev_Http ''POST'' (e @ BasePath @ ''/login''))"
    and query: "P (Ev_Query k p)"
begin

lemma query_call [frame_intros]: "state_io_rel (adds P) (call (Ev_Query k p) f)"
  by (rule adds_call) (rule query)

lemma cache_adds [frame_intros]:
  "state_io_rel (adds P) (GetCacheData E k)"
  "state_io_rel (adds P) (SetCacheData E k v n)"
  "state_io_rel (adds P) (round_robin k l)"
  unfolding GetCacheData_def SetCacheData_def round_robin_def
  by (rule adds_State, simp add: Let_def split: prod.splits)+

lemma cached_or_adds [frame_intros]:
  "state_io_rel (adds P) fetch \<Longrightarrow> state_io_rel (adds P) (cached_or E k dec fetch)"
  unfolding cached_or_def by (intro frame_intros)

lemma login_adds [frame_intros]: "state_io_rel (adds P) (EnsureLogin E)"
  using login [of "env_Endpoint E"]
  unfolding EnsureLogin_def http_Do_def Let_def by (intro frame_intros adds_call) simp

lemma http_Do_adds: "P (Ev_Http (rq_Method rq) (rq_Url rq)) \<Longrightarrow> state_io_rel (adds P) (http_Do E rq)"
  unfolding http_Do_def by (rule adds_call)

lemma doRequest_adds:
  "P (Ev_Http (rq_Method rq) (rq_Url rq)) \<Longrightarrow> state_io_rel (adds P) (doRequest E rq)"
  unfolding doRequest_def by (intro frame_intros http_Do_adds)

lemma request_adds:
  assumes "\<And>u. P (Ev_Http v u)"
  shows "state_io_rel (adds P) (request E v p b)" and "state_io_rel (adds P) (request_or_panic E v p b)"
  unfolding request_def request_or_panic_def generateRequest_def Let_def
  using assms by (auto intro!: frame_intros doRequest_adds split: option.splits sum.splits)

lemma get_adds [frame_intros]:
  "state_io_rel (adds P) (request E ''GET'' p b)"
  "state_io_rel (adds P) (request_or_panic E ''GET'' p b)"
  "state_io_rel (adds P) (get_body E p)"
proof -
  show g: "state_io_rel (adds P) (request E ''GET'' p b)" for p b by (rule request_adds) (rule get)
  show "state_io_rel (adds P) (request_or_panic E ''GET'' p b)" by (rule request_adds) (rule get)
  show "state_io_rel (adds P) (get_body E p)" unfolding get_body_def by (intro frame_intros g)
qed

lemma reads_adds [frame_intros]:
  "state_io_rel (adds P) (clusterState E)"
  "state_io_rel (adds P) (dataPortals E)"
  "state_io_rel (adds P) (ListShares E)"
  "state_io_rel (adds P) (ListVolumes E)"
  "state_io_rel (adds P) (ListObjectives E)"
  "state_io_rel (adds P) (GetShare_pair E n)"
  "state_io_rel (adds P) (GetFile E q)"
  "state_io_rel (adds P) (GetShareRawFields E n)"
  "state_io_rel (adds P) (GetShareSnapshots E n)"
  "state_io_rel (adds P) (GetFileSnapshots E q)"
  "state_io_rel (adds P) (GetClusterAvailableCapacity E)"
  "state_io_rel (adds P) (ResolveFQDN E f)"
  unfolding clusterState_def dataPortals_def ListShares_def ListVolumes_def ListObjectives_def
    GetShare_pair_def GetFile_def GetShareRawFields_def GetShareSnapshots_def GetFileSnapshots_def
    GetClusterAvailableCapacity_def ResolveFQDN_def Let_def
  by (intro frame_intros)+

lemma reads_adds2 [frame_intros]:
  "state_io_rel (adds P) (upDataPortals E)"
  "state_io_rel (adds P) (NFSServerAddresses E)"
  "state_io_rel (adds P) (GetShare E n)"
  "state_io_rel (adds P) (DoesFileExist E q)"
  "state_io_rel (adds P) (resolve_param_fqdn E ps)"
  "state_io_rel (adds P) (snapshotDirEntry E d n)"
  "state_io_rel (adds P) (cachedClusterAvailableCapacity E)"
  unfolding upDataPortals_def NFSServerAddresses_def GetShare_def DoesFileExist_def
    resolve_param_fqdn_def snapshotDirEntry_def cachedClusterAvailableCapacity_def Let_def
  by (intro frame_intros)+

lemma snapshots_of_shares_adds [frame_intros]:
  "state_io_rel (adds P) (snapshots_of_shares E a b shares acc)"
  by (induction shares arbitrary: acc) (auto intro!: frame_intros)

lemma reads_adds3 [frame_intros]:
  "state_io_rel (adds P) (GetDataPortals E n)"
  "state_io_rel (adds P) (ListSnapshots E a b)"
  "state_io_rel (adds P) (parseVolParams E ps)"
  "state_io_rel (adds P) (cachedBackingShareAvailable E n)"
  "state_io_rel (adds P) (find_file_snapshot E i n v)"
  "state_io_rel (adds P) (find_share_snapshot E i n v)"
  unfolding GetDataPortals_def ListSnapshots_def parseVolParams_def cachedBackingShareAvailable_def
    find_file_snapshot_def find_share_snapshot_def Let_def
  by (intro frame_intros)+

lemma findSnapshotByID_adds [frame_intros]: "state_io_rel (adds P) (findSnapshotByID E i)"
  unfolding findSnapshotByID_def by (intro frame_intros)

lemma probe_adds [frame_intros]:
  "state_io_rel (adds P) (probe_done q r)"
  "state_io_rel (adds P) (modify (\<lambda>s. s\<lparr>d_probes := f (d_probes s)\<rparr>))"
  unfolding probe_done_def by (rule adds_State, simp)+

lemma start_probe_adds [frame_intros]: "state_io_rel (adds P) (start_probe E q)"
  unfolding start_probe_def by (intro frame_intros)

lemma probeVolumePath_adds [frame_intros]:
  "state_io_rel (adds P) (probeVolumePath E q)"
  "state_io_rel (adds P) (block_stats E q)"
  unfolding probeVolumePath_def block_stats_def by (intro frame_intros)+

lemma rpc_reads:
  "state_io_rel (adds P) (Controller_ListSnapshots E m i v)"
  "state_io_rel (adds P) (Controller_ListVolumes E m)"
  "state_io_rel (adds P) (GetCapacity E caps ps)"
  "state_io_rel (adds P) (ValidateVolumeCapabilities E i caps ps)"
  "state_io_rel (adds P) (NodeGetInfo E)"
  "state_io_rel (adds P) (NodeGetVolumeStats E i q)"
  unfolding Controller_ListSnapshots_def Controller_ListVolumes_def GetCapacity_def
    ValidateVolumeCapabilities_def NodeGetInfo_def NodeGetVolumeStats_def Let_def
  by (intro frame_intros)+

end

section \<open>Commands and NFS mounts\<close>

locale command_events = read_events +
  assumes exec: "c \<noteq> ''umount'' \<Longrightarrow> P (Ev_Exec c as)"
    and mkdir: "P (Ev_Mkdir d)"
    and create: "P (Ev_Create d)"
    and nfs_mount: "P (Ev_Mount src t ''nfs'' fl)"
    and sleep: "P (Ev_Sleep n)"
begin

lemma command_calls [frame_intros]:
  "state_io_rel (adds P) (call (Ev_Mkdir d) f)"
  "state_io_rel (adds P) (call (Ev_Create d) f)"
  "state_io_rel (adds P) (call (Ev_Mount src t ''nfs'' fl) f)"
  "state_io_rel (adds P) (call (Ev_Sleep n) f)"
  by (intro adds_call mkdir create nfs_mount sleep)+

lemma command_adds: "c \<noteq> ''umount'' \<Longrightarrow> state_io_rel (adds P) (execCommandHelper E c as)"
  unfolding execCommandHelper_def
  by (auto intro!: frame_intros adds_call exec split: exec_outcome.splits)

lemma timed_command_adds: "c \<noteq> ''umount'' \<Longrightarrow> state_io_rel (adds P) (timed_command E c as l)"
  unfolding timed_command_def
  by (auto intro!: frame_intros adds_call exec split: exec_outcome.splits)

lemma commands_adds [frame_intros]:
  "state_io_rel (adds P) (execCommandHelper E ''losetup'' as)"
  "state_io_rel (adds P) (execCommandHelper E ''dumpe2fs'' as)"
  "state_io_rel (adds P) (execCommandHelper E ''xfs_db'' as)"
  "state_io_rel (adds P) (timed_command E ''showmount'' as l)"
  "state_io_rel (adds P) (timed_command E ''rpcinfo'' as l)"
  by (rule command_adds timed_command_adds, simp)+

lemma os_adds [frame_intros]:
  "state_io_rel (adds P) (os_Stat E d)"
  "state_io_rel (adds P) (os_MkdirAll E d)"
  "state_io_rel (adds P) (os_CreateExcl E d)"
  "state_io_rel (adds P) (SafeIsMountPoint E d)"
  "state_io_rel (adds P) (GetNFSExports E a)"
  "state_io_rel (adds P) (CheckNFSExports E a)"
  "state_io_rel (adds P) (Sleep E n)"
  unfolding os_Stat_def os_MkdirAll_def os_CreateExcl_def SafeIsMountPoint_def GetNFSExports_def
    CheckNFSExports_def Sleep_def Let_def
  by (intro frame_intros)+

lemma in_flight_adds [frame_intros]:
  "state_io_rel (adds P) (mount_done t r)"
  "state_io_rel (adds P) (modify (\<lambda>s. s\<lparr>d_inFlight := g (d_inFlight s)\<rparr>))"
  unfolding mount_done_def by (rule adds_State, simp)+

lemma mounts_adds [frame_intros]:
  "state_io_rel (adds P) (IsShareMounted E d)"
  "state_io_rel (adds P) (beginMount E src t fl)"
  "state_io_rel (adds P) (determineLoopDeviceFromBackingFile E b)"
  unfolding IsShareMounted_def beginMount_def determineLoopDeviceFromBackingFile_def
  by (auto intro!: frame_intros split: scan.splits)

lemma host_ops_adds [frame_intros]:
  "state_io_rel (adds P) (MountShare E src t fl)"
  "state_io_rel (adds P) (FilesystemNeedsGrowth E b fs)"
  "state_io_rel (adds P) (ensure_dest_file E d)"
  unfolding MountShare_def FilesystemNeedsGrowth_def ensure_dest_file_def
  by (intro frame_intros)+

lemma first_healthy_adds [frame_intros]: "state_io_rel (adds P) (first_healthy E xs)"
  by (induction E xs rule: first_healthy.induct) (auto intro!: frame_intros)

lemma fip_adds [frame_intros]:
  "state_io_rel (adds P) (GetPortalFloatingIp E)"
  "state_io_rel (adds P) (cachedNFSExports E a fresh)"
  "state_io_rel (adds P) (mountedNFSServer E d)"
  "state_io_rel (adds P) (lookupIP E h)"
  "state_io_rel (adds P) (loopDevicesUnder E d)"
  "state_io_rel (adds P) (backingMountRefs d)"
  unfolding GetPortalFloatingIp_def cachedNFSExports_def mountedNFSServer_def lookupIP_def
    loopDevicesUnder_def backingMountRefs_def Let_def
  by (intro frame_intros)+

lemma portal_adds [frame_intros]:
  "state_io_rel (adds P) (select_fip E fqdn)"
  "state_io_rel (adds P) (find_export E a sp sub)"
  "state_io_rel (adds P) (serverIn E sv addrs)"
  "state_io_rel (adds P) (backingMountInUse d)"
  unfolding select_fip_def find_export_def serverIn_def backingMountInUse_def Let_def
  by (intro frame_intros)+

lemma portal_mount_adds [frame_intros]:
  "state_io_rel (adds P) (MountToDataPortal E fip sp sub t portal opts)"
  "state_io_rel (adds P) (foreignBackingMountServer E d fqdn)"
  unfolding MountToDataPortal_def foreignBackingMountServer_def Let_def by (intro frame_intros)+

lemma loops_adds [frame_intros]:
  "(\<And>p. state_io_rel (adds P) (f p)) \<Longrightarrow> state_io_rel (adds P) (try_portals f ps)"
  "(\<And>fl. state_io_rel (adds P) (g fl)) \<Longrightarrow> state_io_rel (adds P) (try_attempts g fls)"
  "(\<And>p. state_io_rel (adds P) (probe p)) \<Longrightarrow> state_io_rel (adds P) (classifyMount probe d n)"
proof -
  show "(\<And>p. state_io_rel (adds P) (f p)) \<Longrightarrow> state_io_rel (adds P) (try_portals f ps)"
    by (induction ps) (auto intro!: frame_intros)
  show "(\<And>fl. state_io_rel (adds P) (g fl)) \<Longrightarrow> state_io_rel (adds P) (try_attempts g fls)"
    by (induction fls) (auto intro!: frame_intros)
  show "(\<And>p. state_io_rel (adds P) (probe p)) \<Longrightarrow> state_io_rel (adds P) (classifyMount probe d n)"
    by (induction n) (auto intro!: frame_intros)
qed

lemma lock_adds [frame_intros]:
  "state_io_rel (adds P) (acquireVolumeLock E k)"
  "state_io_rel (adds P) (releaseVolumeLock k)"
  "state_io_rel (adds P) (mount_Lock k)"
  "state_io_rel (adds P) (mount_Unlock k)"
  "state_io_rel (adds P) (acquireMountSlot E)"
  "state_io_rel (adds P) (releaseMountSlot E)"
  unfolding acquireVolumeLock_def releaseVolumeLock_def mount_Lock_def mount_Unlock_def
    acquireMountSlot_def releaseMountSlot_def
  by (intro frame_intros adds_State, simp)+

lemma with_adds [frame_intros]:
  assumes "state_io_rel (adds P) body"
  shows "state_io_rel (adds P) (with_volume_lock E k body)"
    and "state_io_rel (adds P) (with_mount_lock k body)"
    and "state_io_rel (adds P) (with_mount_slot E body)"
  unfolding with_volume_lock_def with_mount_lock_def with_mount_slot_def
  by (intro frame_intros assms)+

lemma best_portal_adds [frame_intros]:
  "state_io_rel (adds P) (mountShareSubPathAtBestDataportal E sp sub t fl fqdn)"
  "state_io_rel (adds P) (MountShareAtBestDataportal E sp t fl fqdn)"
  unfolding MountShareAtBestDataportal_def mountShareSubPathAtBestDataportal_def Let_def
  by (intro frame_intros)+

lemma stage_adds [frame_intros]: "state_io_rel (adds P) (stageNFSVolume E v t fl c)"
  unfolding stageNFSVolume_def stageNestedNFSVolume_def Let_def by (intro frame_intros)

lemma ensure_staged_adds [frame_intros]: "state_io_rel (adds P) (ensure_staged E v t fl c)"
  unfolding ensure_staged_def by (intro frame_intros)

end

section \<open>Detaching mounts\<close>

locale host_events = command_events +
  assumes umount: "P (Ev_Exec ''umount'' as)"
    and unmount: "P (Ev_Unmount d)"
    and remove: "P (Ev_Remove d)"
begin

lemma host_calls [frame_intros]:
  "state_io_rel (adds P) (call (Ev_Remove d) f)"
  "state_io_rel (adds P) (call (Ev_Unmount d) f)"
  by (intro adds_call remove unmount)+

lemma all_exec: "P (Ev_Exec c as)"
  using exec [of c as] umount [of as] by (cases "c = ''umount''") simp_all

lemma any_command_adds [frame_intros]: "state_io_rel (adds P) (execCommandHelper E c as)"
  unfolding execCommandHelper_def
  by (auto intro!: frame_intros adds_call all_exec split: exec_outcome.splits)

lemma unmounts_adds [frame_intros]:
  "state_io_rel (adds P) (exec_unit E c as)"
  "state_io_rel (adds P) (os_Remove E d)"
  "state_io_rel (adds P) (mounter_Unmount E d)"
  "state_io_rel (adds P) (ForceUnmountStale E d)"
  unfolding exec_unit_def os_Remove_def mounter_Unmount_def ForceUnmountStale_def
  by (intro frame_intros)+

lemma unmount_ops_adds [frame_intros]:
  "state_io_rel (adds P) (UnmountFilesystem E d)"
  "state_io_rel (adds P) (ForceUnmountFilesystem E d)"
  unfolding UnmountFilesystem_def ForceUnmountFilesystem_def by (intro frame_intros)+

lemma prepare_adds [frame_intros]: "state_io_rel (adds P) (prepare_backing_dir E sh d v h)"
  unfolding prepare_backing_dir_def Let_def by (intro frame_intros)

lemma ensure_adds [frame_intros]:
  "state_io_rel (adds P) (EnsureBackingShareMounted E n v)"
  "state_io_rel (adds P) (UnmountBackingShareIfUnused E n)"
  unfolding EnsureBackingShareMounted_def ensureBackingShareMounted_def mount_backing_dir_def
    UnmountBackingShareIfUnused_def Let_def
  by (intro frame_intros)+

lemma targets_adds [frame_intros]:
  "state_io_rel (adds P) (make_target E t fs again a b)"
  "state_io_rel (adds P) (nfs_target_ready E t)"
  "state_io_rel (adds P) (unmount_unused E n)"
  unfolding make_target_def nfs_target_ready_def unmount_unused_def by (intro frame_intros)+

lemma file_target_adds [frame_intros]: "state_io_rel (adds P) (file_target_mounted E t fs)"
  unfolding file_target_mounted_def by (intro frame_intros)

end

section \<open>Reading calls\<close>

lemma has_suffix_append [simp]: "has_suffix (a @ b) b"
  by (simp add: has_suffix_def)

definition reads_only :: "event \<Rightarrow> bool" where
  "reads_only ev = (case ev of
     Ev_Http m u \<Rightarrow> m = ''GET'' \<or> has_suffix u (BasePath @ ''/login'')
   | Ev_Query k p \<Rightarrow> True
   | _ \<Rightarrow> False)"

interpretation reads: read_events reads_only
proof unfold_locales
  fix e u k p
  have "has_suffix (e @ BasePath @ ''/login'') (BasePath @ ''/login'')"
    using has_suffix_append [of e "BasePath @ ''/login''"] by simp
  then show "reads_only (Ev_Http ''POST'' (e @ BasePath @ ''/login''))" by (simp add: reads_only_def)
qed (simp_all add: reads_only_def)

text \<open>C35. The reading calls (listing snapshots and volumes, capacity, validation of capabilities, node
  information and volume statistics) only read: whatever the service and the host answer, the driver
  sends GET requests and logins, looks things up, and runs no command, mounts, creates and removes
  nothing.\<close>

theorem reading_calls_only_read:
  "state_io_rel (adds reads_only) (Controller_ListSnapshots E m i v) \<and>
   state_io_rel (adds reads_only) (Controller_ListVolumes E m) \<and>
   state_io_rel (adds reads_only) (GetCapacity E caps ps) \<and>
   state_io_rel (adds reads_only) (ValidateVolumeCapabilities E i caps ps) \<and>
   state_io_rel (adds reads_only) (NodeGetInfo E) \<and>
   state_io_rel (adds reads_only) (NodeGetVolumeStats E i q)"
  by (intro conjI reads.rpc_reads)

section \<open>Read-only publishing\<close>

definition no_writable_mount :: "event \<Rightarrow> bool" where
  "no_writable_mount ev = (case ev of
     Ev_Mount src t fs fl \<Rightarrow> fs = ''nfs'' \<or> ''ro'' \<in> set fl
   | _ \<Rightarrow> True)"

interpretation ro: host_events no_writable_mount
  by unfold_locales (simp_all add: no_writable_mount_def)

lemma ro_mount_adds [frame_intros]:
  "state_io_rel (adds no_writable_mount) (MountFilesystem E src d fs [''ro''])"
  unfolding MountFilesystem_def mounter_Mount_def
  by (intro frame_intros adds_call) (simp add: no_writable_mount_def)

lemma ro_publish_filesystem [frame_intros]:
  "state_io_rel (adds no_writable_mount) (publish_filesystem E n p t fs True)"
  unfolding publish_filesystem_def
proof (rule ad.keep_tryE_result [where Q = "\<lambda>fl. fl = [''ro'']"])
  show "state_io_rel (adds no_writable_mount) (publish_flags E n p fs True)"
    unfolding publish_flags_def by (intro frame_intros)
  show "wp (publish_flags E n p fs True)
      (\<lambda>r _. case r of Inl e \<Rightarrow> True | Inr x \<Rightarrow> x = [''ro'']) s" for s
    by (auto simp: publish_flags_def wp_rules wp_iff [of "FilesystemNeedsGrowth E p fs"]
        wp_iff [of "unmount_unused E n"] split: sum.splits)
qed (auto intro!: frame_intros)

lemma ro_publishFileBacked:
  "fs \<noteq> [] \<Longrightarrow>
    state_io_rel (adds no_writable_mount) (publishFileBackedVolume E n v t fs fl True fqdn)"
  unfolding publishFileBackedVolume_def Let_def by (auto intro!: frame_intros)

text \<open>C10. A read-only publish of a volume with a local file system never mounts that file system
  writable: on every path of \<open>NodePublishVolume\<close>, every mount that is not an NFS mount carries
  \<open>ro\<close>.\<close>

theorem read_only_publish:
  assumes "nodeVolumeFsType c ctx \<noteq> ''nfs''" and "nodeVolumeFsType c ctx \<noteq> []"
  shows "state_io_rel (adds no_writable_mount) (NodePublishVolume E v st t (Some c) ctx True)"
  unfolding NodePublishVolume_def using assms by (auto simp: Let_def intro!: frame_intros ro_publishFileBacked)

theorem read_only_publish_witness:
  "state_io_rel (adds no_writable_mount) (NodePublishVolume sample_env ''/share/f'' [] ''/pods/1/mount''
     (Some \<lparr>cap_AccessType = Some (Access_Mount ''xfs'' []), cap_AccessMode = SINGLE_NODE_WRITER\<rparr>)
     Map.empty True)"
  by (rule read_only_publish) (simp_all add: nodeVolumeFsType_def GetMount_def)

section \<open>Unstaged volumes\<close>

definition no_bind :: "event \<Rightarrow> bool" where
  "no_bind ev = (case ev of Ev_Mount src t fs fl \<Rightarrow> fs \<noteq> [] | _ \<Rightarrow> True)"

interpretation nb: host_events no_bind
  by unfold_locales (simp_all add: no_bind_def)

definition never_mounted :: "'w env \<Rightarrow> string \<Rightarrow> bool" where
  "never_mounted E p \<longleftrightarrow> (\<forall>w. fst (env_IsMountPoint E p w) \<noteq> Some (Inr True))"

lemma never_mounted_SafeIsMountPoint:
  "never_mounted E p \<Longrightarrow> wp (SafeIsMountPoint E p) (\<lambda>r _. r \<noteq> Inr True) s"
  unfolding never_mounted_def SafeIsMountPoint_def
  by (auto simp: wp_rules split: option.splits)

lemma never_mounted_staged:
  "never_mounted E p \<Longrightarrow> wp (ensure_staged E v p fl ctx) (\<lambda>r _. \<exists>e. r = Inl e) s"
proof -
  assume p: "never_mounted E p"
  have again: "wp (State_Monad.bind (SafeIsMountPoint E p) (\<lambda>again. case again of
      Inr b \<Rightarrow> if b then ok () else fail (not_staged v p) | Inl _ \<Rightarrow> fail (not_staged v p)))
      (\<lambda>r _. \<exists>e. r = Inl e) t" for t
    unfolding wp_bind using never_mounted_SafeIsMountPoint [OF p]
    by (rule wp_mono) (auto simp: wp_rules split: sum.splits)
  note again = again [unfolded wp_bind]
  show ?thesis unfolding ensure_staged_def wp_tryE using never_mounted_SafeIsMountPoint [OF p]
    by (rule wp_mono) (auto simp: wp_rules again wp_iff [of "stageNFSVolume E v p fl ctx"] split: sum.splits)
qed

text \<open>C17. An NFS volume is never published from a staging path that has nothing mounted: when the staging
  path never becomes a mount point, publishing makes no bind mount at all, and it succeeds only when
  the target was published before.\<close>

theorem unstaged_never_published:
  assumes "never_mounted E staging" and "staging \<noteq> []"
  shows "wp (publishShareBackedVolume E v staging target fl ro ctx) (\<lambda>r s'. adds no_bind s s' \<and>
    (r = Inr () \<longrightarrow> fst (run_state (nfs_target_ready E target) s) = Inr True)) s"
proof -
  let ?staged = "ensure_staged E v staging fl ctx"
  have staged: "wp ?staged (\<lambda>r t'. adds no_bind t t' \<and> (\<exists>e. r = Inl e)) t" for t
    using nb.ensure_staged_adds never_mounted_staged [OF assms(1)]
    by (intro wp_conj ad.keep_wp)
  have ready: "wp (nfs_target_ready E target) (\<lambda>r t. adds no_bind s t \<and>
      r = fst (run_state (nfs_target_ready E target) s)) s"
    by (intro wp_conj ad.keep_wp nb.targets_adds(2)) (simp add: wp_iff)
  have mkdir: "wp (os_MkdirAll E target) (\<lambda>r t'. adds no_bind t t') t" for t
    using nb.os_adds(2) by (rule ad.keep_wp)
  have tail: "wp (tryE (os_MkdirAll E target) h (\<lambda>_. tryE ?staged id K))
      (\<lambda>r t'. adds no_bind t t' \<and> (\<exists>e. r = Inl e)) t"
    for t h and K :: "unit \<Rightarrow> ('a, unit res) go"
    unfolding wp_tryE by (rule wp_mono [OF mkdir])
      (auto split: sum.splits intro!: wp_mono [OF staged] intro: adds_trans)
  show ?thesis
    unfolding publishShareBackedVolume_def wp_tryE [of "nfs_target_ready E target"]
    by (rule wp_mono [OF ready])
      (auto simp: assms(2) wp_return split: sum.splits
        intro!: wp_mono [OF tail] intro: adds_trans)
qed

theorem unstaged_never_published_witness:
  "wp (publishShareBackedVolume sample_env ''/v'' ''/stage'' ''/target'' [] False Map.empty)
     (\<lambda>r s'. adds no_bind (init_drv 0) s' \<and> r \<noteq> Inr ()) (init_drv 0)"
proof -
  have nm: "never_mounted sample_env ''/stage''" by (simp add: never_mounted_def sample_env_def)
  have "wp (nfs_target_ready sample_env ''/target'') (\<lambda>r _. r = Inr False) (init_drv 0)"
    by (simp add: nfs_target_ready_def SafeIsMountPoint_def sample_env_def wp_rules)
  then have "fst (run_state (nfs_target_ready sample_env ''/target'') (init_drv 0)) \<noteq> Inr True"
    by (simp add: wp_iff)
  with unstaged_never_published [OF nm, of "''/v''" "''/target''" "[]" False Map.empty "init_drv 0"]
  show ?thesis by (simp add: wp_iff)
qed

section \<open>Mounts in use\<close>

text \<open>An event that detaches the mount at a directory.\<close>

definition detaches :: "string \<Rightarrow> event \<Rightarrow> bool" where
  "detaches dir ev = (case ev of
     Ev_Unmount p \<Rightarrow> p = dir
   | Ev_Exec c args \<Rightarrow> c = ''umount'' \<and> dir \<in> set args
   | _ \<Rightarrow> False)"

interpretation det: command_events "\<lambda>ev. \<not> detaches dir ev" for dir
  by unfold_locales (simp_all add: detaches_def)

definition in_use :: "'w drv \<Rightarrow> string \<Rightarrow> bool" where
  "in_use s dir \<longleftrightarrow> 0 < refs_at (d_mountRefs s) dir"

lemma quiet_in_use: "refs_ok s \<Longrightarrow> quiet s t \<Longrightarrow> in_use t dir \<longleftrightarrow> in_use s dir"
  by (simp add: quiet_def same_refs_def in_use_def)

lemma read_step:
  assumes "state_io_rel quiet m" and "state_io_rel (adds P) m" and "refs_ok s"
  shows "wp m (\<lambda>_ t. adds P s t \<and> d_mountRefs t = d_mountRefs s) s"
  using q.keep_wp [OF assms(1)] ad.keep_wp [OF assms(2)] assms(3)
  by (auto simp: wp_iff quiet_def same_refs_def)

text \<open>C14. A run of \<open>UnmountBackingShareIfUnused\<close> spares the shares in use when it starts: called for any share, in a
  state in which an operation holds a reference on a directory, and with no other operation running in between, it
  makes no call that detaches that directory. (References taken while it runs are the matter of \<open>Mount_Protocol\<close>.)\<close>

theorem unmount_spares_users:
  assumes "refs_ok s" and "in_use s dir"
  shows "wp (UnmountBackingShareIfUnused E n) (\<lambda>_ s'. adds (\<lambda>ev. \<not> detaches dir ev) s s') s"
proof -
  let ?P = "\<lambda>ev. \<not> detaches dir ev"
  have share: "wp (GetShare E n) (\<lambda>_ t. adds ?P s t \<and> d_mountRefs t = d_mountRefs s) s"
    by (intro read_step shares_quiet det.reads_adds2 assms(1))
  have other: "state_io_rel (adds ?P) (UnmountFilesystem E p)" if "p \<noteq> dir" for p
    unfolding UnmountFilesystem_def mounter_Unmount_def os_Remove_def
    using that by (intro frame_intros adds_call) (simp_all add: detaches_def)
  have rest: "wp (State_Monad.bind (backingMountInUse p) (\<lambda>busy. if busy then ok False else do {
       isMounted \<leftarrow> IsShareMounted E p;
       if \<not> isMounted then ok True
       else tryE (loopDevicesUnder E p) id (\<lambda>inUse.
         if inUse then ok False
         else tryE (UnmountFilesystem E p) id (\<lambda>_. ok True))
     })) (\<lambda>_ t'. adds ?P t t') t" if "d_mountRefs t = d_mountRefs s" for t p
  proof (cases "p = dir")
    case True
    then show ?thesis using that assms(2)
      by (simp add: backingMountInUse_def backingMountRefs_def in_use_def wp_rules)
  next
    case False
    then show ?thesis by (intro ad.keep_wp frame_intros other)
  qed
  show ?thesis
    unfolding UnmountBackingShareIfUnused_def wp_tryE [of "GetShare E n"] Let_def
    by (rule wp_mono [OF share])
      (auto simp: wp_return split: sum.splits option.splits intro!: wp_mono [OF rest] intro: adds_trans)
qed

theorem unmount_spares_users_witness:
  "wp (UnmountBackingShareIfUnused sample_env ''share'') (\<lambda>_ s'. adds (\<lambda>ev. \<not> detaches ''/d'' ev)
     ((init_drv 0)\<lparr>d_mountRefs := [''/d'' \<mapsto> 1]\<rparr>) s') ((init_drv 0)\<lparr>d_mountRefs := [''/d'' \<mapsto> 1]\<rparr>)"
  by (rule unmount_spares_users) (simp_all add: refs_ok_def in_use_def refs_at_def)

text \<open>An event that detaches by force.\<close>

definition by_force :: "event \<Rightarrow> bool" where
  "by_force ev = (case ev of Ev_Exec c args \<Rightarrow> c = ''umount'' | _ \<Rightarrow> False)"

interpretation nf: command_events "\<lambda>ev. \<not> by_force ev"
  by unfold_locales (simp_all add: by_force_def)

lemma unmount_no_force: "state_io_rel (adds (\<lambda>ev. \<not> by_force ev)) (UnmountFilesystem E p)"
  unfolding UnmountFilesystem_def mounter_Unmount_def os_Remove_def
  by (intro frame_intros adds_call) (simp_all add: by_force_def)

text \<open>The answer to a mount that is healthy: kept, refused, or unmounted, and never by force.\<close>

definition healthy_backing_dir :: "'w env \<Rightarrow> ShareResponse \<Rightarrow> string \<Rightarrow> HSVolume \<Rightarrow> bool \<Rightarrow> ('w, bool res) go" where
  "healthy_backing_dir E sh dir v refHeld = do {
     server \<leftarrow> foreignBackingMountServer E dir (hv_FQDN v);
     if server = [] then ok True
     else do {
       n \<leftarrow> backingMountRefs dir;
       tryE (if (if refHeld then n - 1 else n) > 0 then ok True else loopDevicesUnder E dir) id (\<lambda>inUse.
         if inUse then fail (foreign_in_use (sh_ExportPath sh) dir server)
         else tryE (UnmountFilesystem E dir) id (\<lambda>_. ok False))
     }
   }"

lemma healthy_spared:
  assumes "refs_ok t" and "refs_at (d_mountRefs t) dir > (if refHeld then 1 else 0)"
  shows "wp (healthy_backing_dir E sh dir v refHeld) (\<lambda>_ u. adds (\<lambda>ev. \<not> detaches dir ev) t u) t"
proof -
  have "wp (foreignBackingMountServer E dir f)
      (\<lambda>_ u. adds (\<lambda>ev. \<not> detaches dir ev) t u \<and> d_mountRefs u = d_mountRefs t) t" for f
    using assms(1) by (intro read_step attach_quiet2 det.portal_mount_adds)
  then show ?thesis unfolding healthy_backing_dir_def wp_bind
    by (rule wp_mono) (use assms(2) in \<open>auto simp: backingMountRefs_def wp_rules\<close>)
qed

lemma healthy_no_force:
  "state_io_rel (adds (\<lambda>ev. \<not> by_force ev)) (healthy_backing_dir E sh dir v refHeld)"
  unfolding healthy_backing_dir_def
  by (intro frame_intros unmount_no_force nf.portal_mount_adds)

lemma stale_forced:
  "wp (State_Monad.bind (ForceUnmountStale E dir) (\<lambda>_. ok False))
     (\<lambda>r u. r = Inr False \<and> d_trace u = Ev_Exec ''umount'' [''-f'', ''-l'', dir] # d_trace t) t"
  by (auto simp: ForceUnmountStale_def execCommandHelper_def wp_rules split: exec_outcome.splits)

definition spares :: "string \<Rightarrow> event \<Rightarrow> bool" where
  "spares dir ev \<longleftrightarrow> \<not> detaches dir ev \<and> \<not> by_force ev"

interpretation sp: command_events "spares dir" for dir
  by unfold_locales (simp_all add: spares_def detaches_def by_force_def)

lemma adds_mono: "adds P s t \<Longrightarrow> (\<And>ev. P ev \<Longrightarrow> Q ev) \<Longrightarrow> adds Q s t"
  by (auto simp: adds_def list_all_iff)

lemma healthy_by_refs:
  assumes "refs_ok s" and t: "adds (spares dir) s t" "d_mountRefs t = d_mountRefs s"
  shows "wp (healthy_backing_dir E sh dir v refHeld) (\<lambda>_ u. adds (\<lambda>ev. \<not> by_force ev) s u \<and>
    (refs_at (d_mountRefs s) dir > (if refHeld then 1 else 0) \<longrightarrow> adds (\<lambda>ev. \<not> detaches dir ev) s u)) t"
proof (intro wp_conj)
  have "adds (\<lambda>ev. \<not> by_force ev) s t" using t(1) by (rule adds_mono) (simp add: spares_def)
  then show "wp (healthy_backing_dir E sh dir v refHeld) (\<lambda>_ u. adds (\<lambda>ev. \<not> by_force ev) s u) t"
    by (intro wp_mono [OF ad.keep_wp [OF healthy_no_force]]) (rule adds_trans)
  have "adds (\<lambda>ev. \<not> detaches dir ev) s t" using t(1) by (rule adds_mono) (simp add: spares_def)
  moreover have "refs_ok t" using t(2) assms(1) by (simp add: refs_ok_def)
  ultimately show "wp (healthy_backing_dir E sh dir v refHeld) (\<lambda>_ u.
      refs_at (d_mountRefs s) dir > (if refHeld then 1 else 0) \<longrightarrow> adds (\<lambda>ev. \<not> detaches dir ev) s u) t"
    using healthy_spared [where t = t and dir = dir and refHeld = refHeld and E = E and sh = sh and v = v] t(2)
      by (auto simp: wp_iff intro: adds_trans)
qed

text \<open>C22. What happens to the mount of a backing directory before the share is mounted there depends on the verdict of
  \<open>classifyMount\<close>, and on the references held. A mount that answers is never detached by force, and not at all while an
  operation other than the caller holds a reference on it, even when it comes from a foreign server. A mount that
  answered none of the probes is detached by force, whoever holds references, and that is the only such call. When
  nothing is mounted nothing is detached.\<close>

theorem foreign_mount_spared:
  assumes "refs_ok s"
  shows "wp (prepare_backing_dir E sh dir v refHeld) (\<lambda>r s'.
    case fst (run_state (classifyMount (SafeIsMountPoint E) dir mountStaleProbes) s) of
      mountStale \<Rightarrow> r = Inr False \<and> (\<exists>evs. d_trace s' = Ev_Exec ''umount'' [''-f'', ''-l'', dir] # evs @ d_trace s \<and>
        list_all (spares dir) evs)
    | mountAbsent \<Rightarrow> r = Inr False \<and> adds (spares dir) s s'
    | mountHealthy \<Rightarrow> adds (\<lambda>ev. \<not> by_force ev) s s' \<and>
        (refs_at (d_mountRefs s) dir > (if refHeld then 1 else 0) \<longrightarrow> adds (\<lambda>ev. \<not> detaches dir ev) s s')) s"
proof -
  let ?cl = "classifyMount (SafeIsMountPoint E) dir mountStaleProbes"
  have "wp ?cl (\<lambda>_ t. adds (spares dir) s t \<and> d_mountRefs t = d_mountRefs s) s"
    by (intro read_step classifyMount_quiet sp.loops_adds assms(1)) (intro frame_intros)+
  then have cl: "wp ?cl (\<lambda>r t. r = fst (run_state ?cl s) \<and> adds (spares dir) s t \<and> d_mountRefs t = d_mountRefs s) s"
    by (simp add: wp_iff)
  have body: "prepare_backing_dir E sh dir v refHeld = State_Monad.bind ?cl (\<lambda>st. case st of
      mountHealthy \<Rightarrow> healthy_backing_dir E sh dir v refHeld
    | mountStale \<Rightarrow> State_Monad.bind (ForceUnmountStale E dir) (\<lambda>_. ok False)
    | mountAbsent \<Rightarrow> ok False)"
    unfolding prepare_backing_dir_def healthy_backing_dir_def Let_def by (rule refl)
  have stale: "wp (State_Monad.bind (ForceUnmountStale E dir) (\<lambda>_. ok False))
     (\<lambda>r u. r = Inr False \<and> (\<exists>evs. d_trace u = Ev_Exec ''umount'' [''-f'', ''-l'', dir] # evs @ d_trace s \<and>
        list_all (spares dir) evs)) t" if "adds (spares dir) s t" for t
    using that by (intro wp_mono [OF stale_forced]) (auto simp: adds_def)
  show ?thesis unfolding body wp_bind [of ?cl]
  proof (rule wp_mono [OF cl])
    fix r t
    assume r: "r = fst (run_state ?cl s) \<and> adds (spares dir) s t \<and> d_mountRefs t = d_mountRefs s"
    then show "wp (case r of mountHealthy \<Rightarrow> healthy_backing_dir E sh dir v refHeld
        | mountStale \<Rightarrow> State_Monad.bind (ForceUnmountStale E dir) (\<lambda>_. ok False) | mountAbsent \<Rightarrow> ok False)
      (\<lambda>r s'. case fst (run_state ?cl s) of
        mountStale \<Rightarrow> r = Inr False \<and> (\<exists>evs. d_trace s' = Ev_Exec ''umount'' [''-f'', ''-l'', dir] # evs @ d_trace s \<and>
          list_all (spares dir) evs)
      | mountAbsent \<Rightarrow> r = Inr False \<and> adds (spares dir) s s'
      | mountHealthy \<Rightarrow> adds (\<lambda>ev. \<not> by_force ev) s s' \<and>
          (refs_at (d_mountRefs s) dir > (if refHeld then 1 else 0) \<longrightarrow> adds (\<lambda>ev. \<not> detaches dir ev) s s')) t"
      using healthy_by_refs [OF assms, of dir t E sh v refHeld] stale [of t] by (cases r) (auto simp: wp_return)
  qed
qed

theorem foreign_mount_spared_witness:
  "wp (prepare_backing_dir sample_env (fst (env_DecShare sample_env [])) ''/d'' zero_HSVolume False)
     (\<lambda>r s'. r = Inr False \<and> adds (spares ''/d'') ((init_drv 0)\<lparr>d_mountRefs := [''/d'' \<mapsto> 1]\<rparr>) s')
     ((init_drv 0)\<lparr>d_mountRefs := [''/d'' \<mapsto> 1]\<rparr>)"
proof -
  let ?s = "(init_drv 0)\<lparr>d_mountRefs := [''/d'' \<mapsto> 1]\<rparr>"
  have "wp (classifyMount (SafeIsMountPoint sample_env) ''/d'' mountStaleProbes) (\<lambda>r _. r = mountAbsent) ?s"
    by (simp add: mountStaleProbes_def numeral_eq_Suc SafeIsMountPoint_def sample_env_def wp_rules)
  then have "fst (run_state (classifyMount (SafeIsMountPoint sample_env) ''/d'' mountStaleProbes) ?s) = mountAbsent"
    by (simp add: wp_iff)
  with foreign_mount_spared [of ?s sample_env "fst (env_DecShare sample_env [])" "''/d''" zero_HSVolume False]
  show ?thesis by (simp add: refs_ok_def)
qed

end
