(* ===== verification/Volume_Lifecycle.thy ===== *)
theory Volume_Lifecycle
  imports Event_Frames
begin

text \<open>
  Properties of a volume's life that span the controller and the node: what keeps a volume with
  snapshots from being deleted, that the node reads the kind of a volume from the context the
  controller wrote, and what an expansion compares.
\<close>

section \<open>Deleting volumes with snapshots\<close>

text \<open>An event that deletes nothing: no DELETE request and no removal of a file tree.\<close>

definition no_delete :: "event \<Rightarrow> bool" where
  "no_delete ev = (case ev of Ev_Http m u \<Rightarrow> m \<noteq> ''DELETE'' | Ev_RemoveAll p \<Rightarrow> False | _ \<Rightarrow> True)"

interpretation nd: host_events no_delete
  by unfold_locales (simp_all add: no_delete_def)

lemma same_result: "wp m Q s \<Longrightarrow> wp m (\<lambda>r t. r = fst (run_state m s) \<and> Q r t) s"
  by (simp add: wp_iff)

text \<open>A share with snapshots is not deleted: when the service lists a snapshot the call is refused with
  FailedPrecondition, when the list cannot be had it fails, and in both cases nothing was deleted.\<close>

lemma share_delete_refused:
  "wp (deleteShareBackedVolume E sh) (\<lambda>r s'.
     case fst (run_state (GetShareSnapshots E (sh_Name sh)) s) of
       Inl e \<Rightarrow> r = Inl (internal e) \<and> adds no_delete s s'
     | Inr names \<Rightarrow> if names = [] then True
         else r = Inl (status_error FailedPrecondition VolumeDeleteHasSnapshots) \<and> adds no_delete s s') s"
proof -
  have "wp (GetShareSnapshots E (sh_Name sh)) (\<lambda>_ t. adds no_delete s t) s"
    using nd.reads_adds(9) by (rule ad.keep_wp)
  from same_result [OF this] show ?thesis unfolding deleteShareBackedVolume_def wp_tryE [of "GetShareSnapshots E (sh_Name sh)"]
    by (rule wp_mono) (auto simp: wp_return split: sum.splits, auto simp: wp_iff)
qed

text \<open>A file-backed volume for which the service lists a snapshot is not deleted: the call is refused
  with FailedPrecondition and nothing was deleted. (When the list cannot be had the call goes on.)\<close>

lemma file_delete_refused:
  "wp (deleteFileBackedVolume E p) (\<lambda>r s'.
     case fst (run_state (GetFileSnapshots E p) (snd (run_state (DoesFileExist E p) s))) of
       Inl e \<Rightarrow> True
     | Inr snaps \<Rightarrow> if snaps = [] then True
         else r = Inl (status_error FailedPrecondition VolumeDeleteHasSnapshots) \<and> adds no_delete s s') s"
proof -
  have 1: "wp (DoesFileExist E p) (\<lambda>_ t. t = snd (run_state (DoesFileExist E p) s) \<and> adds no_delete s t) s"
    using ad.keep_wp [OF nd.reads_adds2(4)] by (simp add: wp_iff)
  have 2: "wp (GetFileSnapshots E p) (\<lambda>r u. r = fst (run_state (GetFileSnapshots E p) t) \<and> adds no_delete t u) t" for t
    using ad.keep_wp [OF nd.reads_adds(10)] by (simp add: wp_iff)
  show ?thesis unfolding deleteFileBackedVolume_def wp_bind Let_def
    apply (rule wp_mono [OF 1])
    apply (rule wp_mono [OF 2])
    apply (auto simp: wp_return intro: adds_trans split: sum.splits)
    apply (auto simp: wp_iff)
    done
qed

text \<open>C15. A volume with snapshots is not deleted. When the service lists a snapshot of a share-backed or a file-backed
  volume, the deletion is refused with FailedPrecondition and nothing was deleted; for a share the same holds, with an
  internal error, when the list cannot be had.\<close>

theorem snapshots_block_delete:
  "wp (deleteShareBackedVolume E sh) (\<lambda>r s'.
     case fst (run_state (GetShareSnapshots E (sh_Name sh)) s) of
       Inl e \<Rightarrow> r = Inl (internal e) \<and> adds no_delete s s'
     | Inr names \<Rightarrow> if names = [] then True
         else r = Inl (status_error FailedPrecondition VolumeDeleteHasSnapshots) \<and> adds no_delete s s') s \<and>
   wp (deleteFileBackedVolume E p) (\<lambda>r s'.
     case fst (run_state (GetFileSnapshots E p) (snd (run_state (DoesFileExist E p) s))) of
       Inl e \<Rightarrow> True
     | Inr snaps \<Rightarrow> if snaps = [] then True
         else r = Inl (status_error FailedPrecondition VolumeDeleteHasSnapshots) \<and> adds no_delete s s') s"
  by (intro conjI share_delete_refused file_delete_refused)

section \<open>The kind of a volume on the node\<close>

lemma scan_caps_kind:
  "let c = scan_caps fs caps in
     (\<not> cs_block c \<longrightarrow> (cs_fileBacked c \<longleftrightarrow> cs_mount c \<and> fs \<noteq> [] \<and> fs \<noteq> ''nfs'')) \<and>
     (cs_mount c \<longrightarrow> cs_fsType c = (if fs = [] then ''nfs'' else fs))"
proof -
  let ?I = "\<lambda>c. (\<not> cs_block c \<longrightarrow> (cs_fileBacked c \<longleftrightarrow> cs_mount c \<and> fs \<noteq> [] \<and> fs \<noteq> ''nfs'')) \<and>
     (cs_mount c \<longrightarrow> cs_fsType c = (if fs = [] then ''nfs'' else fs))"
  have "?I c \<Longrightarrow> ?I (foldl (scan_cap fs) c caps)" for c
    by (induction caps arbitrary: c)
      (auto simp: scan_cap_def split: option.splits access_type.splits)
  then show ?thesis by (simp add: scan_caps_def Let_def)
qed

text \<open>C25. From the context that \<open>CreateVolume\<close> returns for a file system volume, the node reads the file system type of
  the controller's plan when the mount capability names no type, and then takes the volume for NFS just when the plan is
  not file-backed. A type that the capability names takes precedence on the node and is ignored by the controller's plan,
  so that the two agree exactly when the capability names none or the planned one.\<close>

theorem node_agrees_with_controller:
  assumes "plan_volume name caps cr snap vp = Inr pl" and "pl_volumeMode pl = ''Filesystem''"
    and "GetMount c = Some (fs, fl)"
  shows "(nodeVolumeFsType c (volume_context pl v ps) = pl_fsType pl \<longleftrightarrow> fs = [] \<or> fs = pl_fsType pl) \<and>
    (fs = [] \<longrightarrow> (nodeVolumeFsType c (volume_context pl v ps) = ''nfs'' \<longleftrightarrow> \<not> pl_fileBacked pl)) \<and>
    (fs \<noteq> [] \<longrightarrow> nodeVolumeFsType c (volume_context pl v ps) = fs)"
proof -
  have "pl_fsType pl \<noteq> [] \<and> (pl_fsType pl = ''nfs'' \<longleftrightarrow> \<not> pl_fileBacked pl)"
    using assms(1,2) scan_caps_kind [of "vp_FSType vp" caps]
    by (auto simp: plan_volume_def Let_def split: if_splits sum.splits)
  then show ?thesis using assms(2,3)
    by (auto simp: nodeVolumeFsType_def volume_context_def Let_def mget_def)
qed

definition sample_params :: HSVolumeParameters where
  "sample_params = \<lparr>vp_DeleteDelay = 0, vp_ExportOptions = [], vp_Objectives = [],
     vp_BlockBackingShareName = [], vp_MountBackingShareName = ''share'', vp_VolumeNameFormat = ''%s'',
     vp_FSType = ''xfs'', vp_Comment = [], vp_AdditionalMetadataTags = Map.empty, vp_CacheEnabled = False,
     vp_FQDN = [], vp_ObjectiveTarget = ''both''\<rparr>"

theorem node_agrees_with_controller_witness:
  "nodeVolumeFsType \<lparr>cap_AccessType = Some (Access_Mount [] []), cap_AccessMode = SINGLE_NODE_WRITER\<rparr>
     (volume_context
        \<lparr>pl_volumeMode = ''Filesystem'', pl_fsType = ''xfs'', pl_fileBacked = True, pl_nested = False,
         pl_volumeName = sprintf_s ''%s'' (Some ''pvc''), pl_size = DefaultBackingFileSizeBytes,
         pl_backingShareName = ''share'', pl_volumePath = SharePathPrefix @ ''share''\<rparr>
        zero_HSVolume Map.empty) = ''xfs''"
proof -
  let ?c = "\<lparr>cap_AccessType = Some (Access_Mount [] []), cap_AccessMode = SINGLE_NODE_WRITER\<rparr>"
  let ?pl = "\<lparr>pl_volumeMode = ''Filesystem'', pl_fsType = ''xfs'', pl_fileBacked = True, pl_nested = False,
    pl_volumeName = sprintf_s ''%s'' (Some ''pvc''), pl_size = DefaultBackingFileSizeBytes,
    pl_backingShareName = ''share'', pl_volumePath = SharePathPrefix @ ''share''\<rparr>"
  have "plan_volume ''pvc'' [?c] None False sample_params = Inr ?pl"
    by (simp add: plan_volume_def sample_params_def scan_caps_def scan_cap_def requested_size_def Let_def
        checkFileBackedMinSize_def DefaultBackingFileSizeBytes_def MinXfsSizeBytes_def)
  from node_agrees_with_controller [OF this, of ?c "[]" "[]" zero_HSVolume Map.empty] show ?thesis
    by (simp add: GetMount_def)
qed

section \<open>Expanding a share\<close>






end
