(* ===== verification/Node_Cleanup.thy ===== *)
theory Node_Cleanup
  imports Event_Frames
begin

text \<open>
  What the node service does when a volume is taken away from a path: the outside calls of
  \<open>NodeUnpublishVolume\<close> on a directory and of \<open>NodeUnstageVolume\<close>, in order, for every answer of the
  mount check. The check is bounded by a time-out, and \<open>IsShareMounted\<close> folds its failure into the
  answer that nothing is mounted.
\<close>

text \<open>The answers of the host that a run depends on, for every state of the world.\<close>

definition plain_directory :: "'w env \<Rightarrow> string \<Rightarrow> bool" where
  "plain_directory E p \<longleftrightarrow> (\<forall>w. \<exists>fi. fst (env_Lstat E p w) = Inr fi \<and>
     fi_IsDir fi \<and> \<not> fi_Symlink fi \<and> \<not> IsBlockDevice fi)"

definition check_answers :: "'w env \<Rightarrow> string \<Rightarrow> bool res option \<Rightarrow> bool" where
  "check_answers E p m \<longleftrightarrow> (\<forall>w. fst (env_IsMountPoint E p w) = m)"

definition no_legacy_marker :: "'w env \<Rightarrow> string \<Rightarrow> bool" where
  "no_legacy_marker E v \<longleftrightarrow> (\<forall>w. is_missing (fst (env_Stat E (GetHashedMarkerPath E BaseVolumeMarkerSourcePath v) w)))"

lemma SafeIsMountPoint_trace:
  assumes "check_answers E p m"
  shows "wp (SafeIsMountPoint E p) (\<lambda>r t. d_trace t = Ev_Query ''mountpoint'' p # d_trace s \<and>
     r = (case m of None \<Rightarrow> Inl deadline_exceeded | Some x \<Rightarrow> x)) s"
  using assms by (auto simp: check_answers_def SafeIsMountPoint_def wp_rules split: option.splits)

lemma UnmountFilesystem_trace:
  assumes "check_answers E p m"
  shows "wp (UnmountFilesystem E p) (\<lambda>r t. if m = Some (Inr True)
     then r = Inr () \<longrightarrow> d_trace t = [Ev_Remove p, Ev_Unmount p, Ev_Query ''mountpoint'' p] @ d_trace s
     else r = Inr () \<and> d_trace t = Ev_Query ''mountpoint'' p # d_trace s) s"
  using assms [unfolded check_answers_def, rule_format, of "d_world s"]
  by (auto simp: UnmountFilesystem_def IsShareMounted_def SafeIsMountPoint_def mounter_Unmount_def
    os_Remove_def wp_rules split: option.splits sum.splits)

lemma unpublish_directory_trace:
  assumes m: "check_answers E p m" and dir: "plain_directory E p"
    and lock: "\<forall>w. fst (env_LockWait E v w)" "v \<notin> d_volumeLocks s" and args: "v \<noteq> []" "p \<noteq> []"
  shows "wp (NodeUnpublishVolume E v p) (\<lambda>r t.
     let checks = [Ev_Query ''mountpoint'' p, Ev_Query ''lstat'' p, Ev_Query ''lock'' v] @ d_trace s
     in if m = Some (Inr True) then r = Inr () \<longrightarrow> d_trace t = [Ev_Remove p, Ev_Unmount p] @ checks
        else r = Inr () \<and> d_trace t = checks) s"
proof -
  have dirw: "\<exists>fi. fst (env_Lstat E p w) = Inr fi \<and> fi_IsDir fi \<and> \<not> fi_Symlink fi \<and> \<not> IsBlockDevice fi" for w
    using dir by (simp add: plain_directory_def)
  show ?thesis
    using lock args dirw [of "snd (env_LockWait E v (d_world s))"]
    by (auto simp: NodeUnpublishVolume_def with_volume_lock_def acquireVolumeLock_def unpublish_target_def
        releaseVolumeLock_def wp_rules split: sum.splits if_splits
        intro!: wp_mono [OF UnmountFilesystem_trace [OF m]])
qed

lemma exec_trace:
  "wp (ExecCommand E c args) (\<lambda>_ t. d_trace t = Ev_Exec c args # d_trace s) s"
  by (auto simp: execCommandHelper_def wp_rules split: exec_outcome.splits)

lemma ForceUnmountFilesystem_trace:
  "wp (ForceUnmountFilesystem E p) (\<lambda>r t. r = Inr () \<longrightarrow>
     d_trace t = [Ev_Remove p, Ev_Exec ''umount'' [''-f'', ''-l'', p]] @ d_trace s) s"
  unfolding ForceUnmountFilesystem_def wp_bind [of "ExecCommand E _ _"]
  by (rule wp_mono [OF exec_trace]) (auto simp: os_Remove_def wp_rules split: sum.splits)

lemma releaseLegacyRootExport_absent:
  assumes "no_legacy_marker E v"
  shows "wp (releaseLegacyRootExport E v) (\<lambda>r t. r = Inr () \<and>
     d_trace t = Ev_Query ''stat'' (GetHashedMarkerPath E BaseVolumeMarkerSourcePath v) # d_trace s) s"
  using assms by (simp add: no_legacy_marker_def releaseLegacyRootExport_def os_Stat_def wp_rules Let_def)

fun unstage_calls :: "string \<Rightarrow> bool res option \<Rightarrow> event list" where
  "unstage_calls p (Some (Inr True)) = [Ev_Remove p, Ev_Unmount p, Ev_Query ''mountpoint'' p]"
| "unstage_calls p (Some (Inl e)) =
     (if is_io_error e then [Ev_Remove p, Ev_Exec ''umount'' [''-f'', ''-l'', p]] else [])"
| "unstage_calls p m = []"

lemma unstage_trace:
  assumes m: "check_answers E p m" and marker: "no_legacy_marker E v" and args: "v \<noteq> []" "p \<noteq> []"
  shows "wp (NodeUnstageVolume E v p) (\<lambda>r t. (unstage_calls p m = [] \<longrightarrow> r = Inr ()) \<and>
     (r = Inr () \<longrightarrow> d_trace t = Ev_Query ''stat'' (GetHashedMarkerPath E BaseVolumeMarkerSourcePath v) #
        unstage_calls p m @ Ev_Query ''mountpoint'' p # d_trace s)) s"
proof -
  note legacy = releaseLegacyRootExport_absent [OF marker]
  have io: "\<not> is_io_error deadline_exceeded"
    by (simp add: is_io_error_def deadline_exceeded_def new_error_def)
  consider "m = Some (Inr True)" | e where "m = Some (Inl e)" "is_io_error e"
    | e where "m = Some (Inl e)" "\<not> is_io_error e" | "m = None" | "m = Some (Inr False)"
    by (cases m) (auto simp: all_bool_eq split: sum.splits, metis (full_types) old.sum.exhaust)
  then have "wp (case case m of None \<Rightarrow> Inl deadline_exceeded | Some x \<Rightarrow> x of
       Inr mounted \<Rightarrow> if mounted then tryE (UnmountFilesystem E p) g (\<lambda>_. ok ()) else ok ()
     | Inl me \<Rightarrow> if is_io_error me then tryE (ForceUnmountFilesystem E p) h (\<lambda>_. ok ()) else ok ())
     (\<lambda>r t'. case r of Inl e \<Rightarrow> unstage_calls p m \<noteq> [] | Inr _ \<Rightarrow> d_trace t' = unstage_calls p m @ d_trace t) t"
    for g h t
  proof cases
    case 1
    then show ?thesis
      by (simp add: wp_tryE) (rule wp_mono [OF UnmountFilesystem_trace [OF m]], auto simp: wp_rules split: sum.splits)
  next
    case 2
    then show ?thesis
      by (simp add: wp_tryE) (rule wp_mono [OF ForceUnmountFilesystem_trace], auto simp: wp_rules split: sum.splits)
  qed (use io in \<open>auto simp: wp_rules\<close>)
  note middle = this
  show ?thesis
    unfolding NodeUnstageVolume_def using args
    by (simp add: wp_bind) (rule wp_mono [OF SafeIsMountPoint_trace [OF m]], clarsimp,
      unfold wp_tryE [of _ id], rule wp_mono [OF middle], auto split: sum.splits intro!: wp_mono [OF legacy])
qed

text \<open>What taking a volume away does follows the mount check exactly. On a directory that the check
  says is mounted, \<open>NodeUnpublishVolume\<close> and \<open>NodeUnstageVolume\<close> report success only after they unmounted
  and removed it; a staging path whose check fails with an I/O error is detached by force. When the check
  fails in any other way or times out, both report success without any call that unmounts.\<close>

theorem cleanup_follows_check:
  assumes "check_answers E p m" and "plain_directory E p" and "no_legacy_marker E v"
    and "\<forall>w. fst (env_LockWait E v w)" "v \<notin> d_volumeLocks s" and "v \<noteq> []" "p \<noteq> []"
  shows "wp (NodeUnpublishVolume E v p) (\<lambda>r t.
       let checks = [Ev_Query ''mountpoint'' p, Ev_Query ''lstat'' p, Ev_Query ''lock'' v] @ d_trace s
       in if m = Some (Inr True) then r = Inr () \<longrightarrow> d_trace t = [Ev_Remove p, Ev_Unmount p] @ checks
          else r = Inr () \<and> d_trace t = checks) s \<and>
    wp (NodeUnstageVolume E v p) (\<lambda>r t. (unstage_calls p m = [] \<longrightarrow> r = Inr ()) \<and>
     (r = Inr () \<longrightarrow> d_trace t = Ev_Query ''stat'' (GetHashedMarkerPath E BaseVolumeMarkerSourcePath v) #
        unstage_calls p m @ Ev_Query ''mountpoint'' p # d_trace s)) s"
  using assms by (intro conjI unpublish_directory_trace unstage_trace)

text \<open>A host on which the mount check of every path times out.\<close>

definition stuck_env :: "int env" where
  "stuck_env = sample_env\<lparr>env_IsMountPoint := \<lambda>p w. (None, w),
     env_Lstat := \<lambda>p w. (Inr \<lparr>fi_Size = 0, fi_IsDir = True, fi_Symlink = False, fi_Device = False, fi_CharDevice = False\<rparr>, w),
     env_Stat := \<lambda>p w. (Inl ((new_error [])\<lparr>err_errno := Some ErrNotExist\<rparr>), w)\<rparr>"

theorem cleanup_follows_check_witness:
  "wp (NodeUnpublishVolume stuck_env ''/v'' ''/pods/1'') (\<lambda>r t. r = Inr () \<and>
     d_trace t = [Ev_Query ''mountpoint'' ''/pods/1'', Ev_Query ''lstat'' ''/pods/1'', Ev_Query ''lock'' ''/v'']) (init_drv 0)"
proof -
  have "check_answers stuck_env ''/pods/1'' None" "plain_directory stuck_env ''/pods/1''"
    "no_legacy_marker stuck_env ''/v''" "\<forall>w. fst (env_LockWait stuck_env ''/v'' w)"
    by (simp_all add: stuck_env_def sample_env_def check_answers_def plain_directory_def no_legacy_marker_def
      is_missing_def IsNotExist_def IsBlockDevice_def)
  from cleanup_follows_check [OF this, of "init_drv 0"] show ?thesis
    by (simp add: init_drv_def Let_def)
qed

end
