(* ===== verification/Mount_Protocol.thy ===== *)
theory Mount_Protocol
  imports Backing_Mount
begin

text \<open>
  The backing mounts under concurrency (\<open>pkg/driver/utils.go\<close>): a step relation over any number of
  threads, each running \<open>acquireBackingMount\<close> and \<open>releaseBackingMount\<close>, \<open>EnsureBackingShareMounted\<close>, or
  a direct \<open>UnmountBackingShareIfUnused\<close>, on any directories. A step is what one thread does between
  two points where another can run: taking or releasing the mutex of \<open>mountLockFor\<close>, one update of the
  reference counts (under \<open>mountRefsMu\<close>, by the same \<open>bump_refs\<close> and \<open>drop_refs\<close> as the sequential
  model), reading the count, mounting, unmounting.

  \<open>ms_mounted\<close> holds the directories with a mount. The relation has two sets of directories as its outside:
  \<open>mh_unlisted\<close>, those whose share the service may no longer list when \<open>ensureBackingShareMounted\<close> looks it
  up, which then succeeds without a mount; and \<open>mh_hangs\<close>, those whose mount may fail to answer the checks of
  \<open>classifyMount\<close>, which is then stale and detached by force. A mount or unmount may fail; a failed mount may
  have detached a mount of a foreign server, or a stale one, before. A share that is listed keeps its export
  path. The flag \<open>direct\<close> says whether the direct unmounts, which do not take the mutex, take part.
\<close>

section \<open>Threads\<close>

datatype pc =
    Idle
  | Acq_Locked string
  | Acq_Mounting string
  | Acq_Failed string
  | Acq_Done string
  | Acq_Error string
  | Holding string
  | Rel_Locked string
  | Rel_Last string
  | Rel_Unmounting string
  | Rel_Done string
  | Ens_Locked string
  | Ens_Stale string
  | Ens_Cleared string
  | Ens_Done string
  | Direct_Unmounting string

text \<open>The directory whose mutex the thread holds, whose count includes it, whose mount it relies on.\<close>

fun locked_on :: "pc \<Rightarrow> string option" where
  "locked_on (Acq_Locked d) = Some d"
| "locked_on (Acq_Mounting d) = Some d"
| "locked_on (Acq_Failed d) = Some d"
| "locked_on (Acq_Done d) = Some d"
| "locked_on (Acq_Error d) = Some d"
| "locked_on (Rel_Locked d) = Some d"
| "locked_on (Rel_Last d) = Some d"
| "locked_on (Rel_Unmounting d) = Some d"
| "locked_on (Rel_Done d) = Some d"
| "locked_on (Ens_Locked d) = Some d"
| "locked_on (Ens_Stale d) = Some d"
| "locked_on (Ens_Cleared d) = Some d"
| "locked_on (Ens_Done d) = Some d"
| "locked_on _ = None"

fun counted_on :: "pc \<Rightarrow> string option" where
  "counted_on (Acq_Mounting d) = Some d"
| "counted_on (Acq_Failed d) = Some d"
| "counted_on (Acq_Done d) = Some d"
| "counted_on (Holding d) = Some d"
| "counted_on (Rel_Locked d) = Some d"
| "counted_on _ = None"

fun uses :: "pc \<Rightarrow> string option" where
  "uses (Acq_Done d) = Some d"
| "uses (Holding d) = Some d"
| "uses (Rel_Locked d) = Some d"
| "uses _ = None"

record mstate =
  ms_pcs :: "pc list"
  ms_locks :: "string \<rightharpoonup> nat"
  ms_refs :: "string \<rightharpoonup> int"
  ms_mounted :: "string set"

record mhost =
  mh_unlisted :: "string set"
  mh_hangs :: "string set"

definition goto :: "nat \<Rightarrow> pc \<Rightarrow> mstate \<Rightarrow> mstate" where
  "goto t p s = s\<lparr>ms_pcs := (ms_pcs s)[t := p]\<rparr>"

abbreviation at :: "mstate \<Rightarrow> nat \<Rightarrow> pc \<Rightarrow> bool" where
  "at s t p \<equiv> t < length (ms_pcs s) \<and> ms_pcs s ! t = p"

section \<open>Steps\<close>

text \<open>
  The mounting step of an acquisition (\<open>acq_mounted\<close>, \<open>acq_failed\<close>, \<open>acq_unlisted\<close>) is \<open>ensureBackingShareMounted\<close>
  with the reference held: the caller has the only one. The calls without a reference, which the node makes, are the
  \<open>ens\<close> steps; their detaching of a stale mount and the mount after it are steps of their own, since another thread
  may hold a reference then.
\<close>

inductive mstep :: "bool \<Rightarrow> mhost \<Rightarrow> mstate \<Rightarrow> mstate \<Rightarrow> bool" for direct :: bool and h :: mhost where
  acq_lock: "at s t Idle \<Longrightarrow> ms_locks s d = None \<Longrightarrow>
    mstep direct h s (goto t (Acq_Locked d) (s\<lparr>ms_locks := (ms_locks s)(d \<mapsto> t)\<rparr>))"
| acq_bump: "at s t (Acq_Locked d) \<Longrightarrow> bump_refs d (ms_refs s) = (first, m) \<Longrightarrow>
    mstep direct h s (goto t (if first then Acq_Mounting d else Acq_Done d) (s\<lparr>ms_refs := m\<rparr>))"
| acq_mounted: "at s t (Acq_Mounting d) \<Longrightarrow>
    mstep direct h s (goto t (Acq_Done d) (s\<lparr>ms_mounted := insert d (ms_mounted s)\<rparr>))"
| acq_unlisted: "at s t (Acq_Mounting d) \<Longrightarrow> d \<in> mh_unlisted h \<Longrightarrow>
    mstep direct h s (goto t (Acq_Done d) s)"
| acq_failed: "at s t (Acq_Mounting d) \<Longrightarrow> M \<in> {ms_mounted s, ms_mounted s - {d}} \<Longrightarrow>
    mstep direct h s (goto t (Acq_Failed d) (s\<lparr>ms_mounted := M\<rparr>))"
| acq_drop: "at s t (Acq_Failed d) \<Longrightarrow> drop_refs d (ms_refs s) = (final, m) \<Longrightarrow>
    mstep direct h s (goto t (Acq_Error d) (s\<lparr>ms_refs := m\<rparr>))"
| acq_return: "at s t (Acq_Done d) \<Longrightarrow>
    mstep direct h s (goto t (Holding d) (s\<lparr>ms_locks := (ms_locks s)(d := None)\<rparr>))"
| acq_error: "at s t (Acq_Error d) \<Longrightarrow>
    mstep direct h s (goto t Idle (s\<lparr>ms_locks := (ms_locks s)(d := None)\<rparr>))"
| rel_lock: "at s t (Holding d) \<Longrightarrow> ms_locks s d = None \<Longrightarrow>
    mstep direct h s (goto t (Rel_Locked d) (s\<lparr>ms_locks := (ms_locks s)(d \<mapsto> t)\<rparr>))"
| rel_drop: "at s t (Rel_Locked d) \<Longrightarrow> drop_refs d (ms_refs s) = (final, m) \<Longrightarrow>
    mstep direct h s (goto t (if final then Rel_Last d else Rel_Done d) (s\<lparr>ms_refs := m\<rparr>))"
| rel_check: "at s t (Rel_Last d) \<Longrightarrow>
    mstep direct h s (goto t (if refs_at (ms_refs s) d > 0 then Rel_Done d else Rel_Unmounting d) s)"
| rel_unmount: "at s t (Rel_Unmounting d) \<Longrightarrow> M \<in> {ms_mounted s, ms_mounted s - {d}} \<Longrightarrow>
    mstep direct h s (goto t (Rel_Done d) (s\<lparr>ms_mounted := M\<rparr>))"
| rel_return: "at s t (Rel_Done d) \<Longrightarrow>
    mstep direct h s (goto t Idle (s\<lparr>ms_locks := (ms_locks s)(d := None)\<rparr>))"
| ens_lock: "at s t Idle \<Longrightarrow> ms_locks s d = None \<Longrightarrow>
    mstep direct h s (goto t (Ens_Locked d) (s\<lparr>ms_locks := (ms_locks s)(d \<mapsto> t)\<rparr>))"
| ens_mount: "at s t (Ens_Locked d) \<Longrightarrow>
    M \<in> {ms_mounted s, insert d (ms_mounted s)} \<or> refs_at (ms_refs s) d \<le> 0 \<and> M = ms_mounted s - {d} \<Longrightarrow>
    mstep direct h s (goto t (Ens_Done d) (s\<lparr>ms_mounted := M\<rparr>))"
| ens_stale: "at s t (Ens_Locked d) \<Longrightarrow> d \<in> mh_hangs h \<Longrightarrow>
    mstep direct h s (goto t (Ens_Stale d) s)"
| ens_clear: "at s t (Ens_Stale d) \<Longrightarrow> M \<in> {ms_mounted s, ms_mounted s - {d}} \<Longrightarrow>
    mstep direct h s (goto t (Ens_Cleared d) (s\<lparr>ms_mounted := M\<rparr>))"
| ens_remount: "at s t (Ens_Cleared d) \<Longrightarrow> M \<in> {ms_mounted s, insert d (ms_mounted s)} \<Longrightarrow>
    mstep direct h s (goto t (Ens_Done d) (s\<lparr>ms_mounted := M\<rparr>))"
| ens_return: "at s t (Ens_Done d) \<Longrightarrow>
    mstep direct h s (goto t Idle (s\<lparr>ms_locks := (ms_locks s)(d := None)\<rparr>))"
| dir_check: "direct \<Longrightarrow> at s t Idle \<Longrightarrow> refs_at (ms_refs s) d \<le> 0 \<Longrightarrow>
    mstep direct h s (goto t (Direct_Unmounting d) s)"
| dir_unmount: "at s t (Direct_Unmounting d) \<Longrightarrow> M \<in> {ms_mounted s, ms_mounted s - {d}} \<Longrightarrow>
    mstep direct h s (goto t Idle (s\<lparr>ms_mounted := M\<rparr>))"

inductive_cases mstepE: "mstep direct h s s'"

definition minit :: "nat \<Rightarrow> mstate" where
  "minit n = \<lparr>ms_pcs = replicate n Idle, ms_locks = Map.empty, ms_refs = Map.empty, ms_mounted = {}\<rparr>"

inductive mreach :: "bool \<Rightarrow> mhost \<Rightarrow> nat \<Rightarrow> mstate \<Rightarrow> bool" for direct h n where
  mreach_init: "mreach direct h n (minit n)"
| mreach_step: "mreach direct h n s \<Longrightarrow> mstep direct h s s' \<Longrightarrow> mreach direct h n s'"

section \<open>Invariant\<close>

definition users :: "mstate \<Rightarrow> string \<Rightarrow> nat" where
  "users s d = length (filter (\<lambda>p. counted_on p = Some d) (ms_pcs s))"

text \<open>A directory is safe when its share stays listed and its mount answers.\<close>

definition steady_dir :: "mhost \<Rightarrow> string \<Rightarrow> bool" where
  "steady_dir h d \<longleftrightarrow> d \<notin> mh_unlisted h \<and> d \<notin> mh_hangs h"

fun pc_inv :: "mhost \<Rightarrow> mstate \<Rightarrow> pc \<Rightarrow> bool" where
  "pc_inv h s (Acq_Mounting d) = (refs_at (ms_refs s) d = 1)"
| "pc_inv h s (Acq_Failed d) = (refs_at (ms_refs s) d = 1)"
| "pc_inv h s (Rel_Last d) = (refs_at (ms_refs s) d = 0)"
| "pc_inv h s (Rel_Unmounting d) = (refs_at (ms_refs s) d = 0)"
| "pc_inv h s (Ens_Stale d) = (d \<in> mh_hangs h)"
| "pc_inv h s (Direct_Unmounting d) = False"
| "pc_inv h s p = (case uses p of Some d \<Rightarrow> steady_dir h d \<longrightarrow> d \<in> ms_mounted s | None \<Rightarrow> True)"

definition minv :: "mhost \<Rightarrow> mstate \<Rightarrow> bool" where
  "minv h s \<longleftrightarrow>
     (\<forall>t < length (ms_pcs s). \<forall>d. locked_on (ms_pcs s ! t) = Some d \<longrightarrow> ms_locks s d = Some t) \<and>
     refs_positive (ms_refs s) \<and>
     (\<forall>d. refs_at (ms_refs s) d = int (users s d)) \<and>
     (\<forall>t < length (ms_pcs s). pc_inv h s (ms_pcs s ! t))"

lemma users_goto:
  assumes "t < length (ms_pcs s)"
  shows "int (users (goto t p s) d) = int (users s d)
    - (if counted_on (ms_pcs s ! t) = Some d then 1 else 0) + (if counted_on p = Some d then 1 else 0)"
proof -
  let ?f = "filter (\<lambda>p. counted_on p = Some d)"
  have "ms_pcs s = take t (ms_pcs s) @ ms_pcs s ! t # drop (Suc t) (ms_pcs s)"
    using assms by (rule id_take_nth_drop)
  then have "length (?f (ms_pcs s)) = length (?f (take t (ms_pcs s) @ ms_pcs s ! t # drop (Suc t) (ms_pcs s)))"
    by simp
  then show ?thesis using assms by (simp add: users_def goto_def upd_conv_take_nth_drop)
qed

lemma goto_sel [simp]:
  "ms_pcs (goto t p s) = (ms_pcs s)[t := p]" "ms_locks (goto t p s) = ms_locks s"
  "ms_refs (goto t p s) = ms_refs s" "ms_mounted (goto t p s) = ms_mounted s"
  by (simp_all add: goto_def)
lemma pc_inv_cong: "ms_refs s' = ms_refs s \<Longrightarrow> ms_mounted s' = ms_mounted s \<Longrightarrow> pc_inv h s' p = pc_inv h s p"
  by (cases p) auto

lemma users_pos: "at s t p \<Longrightarrow> counted_on p = Some d \<Longrightarrow> 1 \<le> users s d"
  unfolding users_def by (auto simp: Suc_le_eq filter_empty_conv intro: nth_mem bexI)

lemma users_two:
  assumes "at s t p" and "counted_on p = Some d" and "at s t' p'" and "counted_on p' = Some d" and "t \<noteq> t'"
  shows "2 \<le> users s d"
proof -
  have "1 \<le> users (goto t Idle s) d" using assms by (intro users_pos [where t = t' and p = p']) auto
  with users_goto [of t s Idle d] assms show ?thesis by simp
qed

lemma uses_counted: "uses p = Some d \<Longrightarrow> counted_on p = Some d"
  by (cases p) auto

lemma locked_once:
  assumes "minv h s" and "at s t p" and "locked_on p = Some d" and "at s t' p'" and "locked_on p' = Some d"
  shows "t' = t"
  using assms unfolding minv_def by (metis option.inject)

text \<open>The other threads of a step: their condition holds again when the references it speaks of and
  the mount it relies on are the same.\<close>

lemma pc_inv_other:
  assumes "pc_inv h s p"
    and "\<And>d. locked_on p = Some d \<Longrightarrow> refs_at (ms_refs s') d = refs_at (ms_refs s) d"
    and "\<And>d. uses p = Some d \<Longrightarrow> steady_dir h d \<Longrightarrow> d \<in> ms_mounted s \<Longrightarrow> d \<in> ms_mounted s'"
  shows "pc_inv h s' p"
  using assms by (cases p) auto

lemma minv_goto:
  assumes inv: "minv h s" and at: "at s t p" and pcs: "ms_pcs s1 = ms_pcs s"
    and lock: "\<And>t' p' d. at s t' p' \<Longrightarrow> t' \<noteq> t \<Longrightarrow> locked_on p' = Some d \<Longrightarrow> ms_locks s1 d = ms_locks s d"
    and lockq: "\<And>d. locked_on q = Some d \<Longrightarrow> ms_locks s1 d = Some t"
    and pos: "refs_positive (ms_refs s1)"
    and cnt: "\<And>d. refs_at (ms_refs s1) d = refs_at (ms_refs s) d
      - (if counted_on p = Some d then 1 else 0) + (if counted_on q = Some d then 1 else 0)"
    and mnt: "\<And>t' p' d. at s t' p' \<Longrightarrow> t' \<noteq> t \<Longrightarrow> uses p' = Some d \<Longrightarrow> steady_dir h d \<Longrightarrow> d \<in> ms_mounted s \<Longrightarrow> d \<in> ms_mounted s1"
    and new: "pc_inv h s1 q"
    and own: "\<And>d. counted_on p \<noteq> counted_on q \<Longrightarrow> counted_on p = Some d \<or> counted_on q = Some d \<Longrightarrow> locked_on p = Some d"
  shows "minv h (goto t q s1)"
proof -
  let ?s = "goto t q s1"
  have len: "length (ms_pcs ?s) = length (ms_pcs s)" using pcs by simp
  have nth: "ms_pcs ?s ! t' = (if t' = t then q else ms_pcs s ! t')" if "t' < length (ms_pcs s)" for t'
    using that pcs at by simp
  have 1: "ms_locks ?s d = Some t'" if "t' < length (ms_pcs s)" "locked_on (ms_pcs ?s ! t') = Some d" for t' d
    using that nth [of t'] lock [of t' "ms_pcs s ! t'" d] lockq [of d] inv
    by (auto simp: minv_def split: if_splits)
  have refs: "refs_at (ms_refs s1) d = refs_at (ms_refs s) d"
    if "at s t' p'" and "t' \<noteq> t" and "locked_on p' = Some d" for t' p' d
  proof -
    have "locked_on p \<noteq> Some d" using locked_once [OF inv at _ that(1) that(3)] that(2) by blast
    with own [of d] cnt [of d] show ?thesis by (cases "counted_on p = counted_on q") auto
  qed
  have 2: "pc_inv h ?s (ms_pcs ?s ! t')" if "t' < length (ms_pcs s)" for t'
  proof (cases "t' = t")
    case True
    then show ?thesis using new nth [OF that] pc_inv_cong [of ?s s1 h q] by simp
  next
    case False
    have "pc_inv h s (ms_pcs s ! t')" using inv that by (simp add: minv_def)
    then have "pc_inv h ?s (ms_pcs s ! t')"
      by (rule pc_inv_other) (use that False refs mnt in auto)
    then show ?thesis using nth [OF that] False by simp
  qed
  have 3: "refs_at (ms_refs ?s) d = int (users ?s d)" for d
    using users_goto [of t s1 q d] at pcs cnt [of d] inv by (simp add: minv_def users_def)
  show ?thesis unfolding minv_def using 1 2 3 pos pcs by (simp add: len)
qed

lemma bump_refs_eq:
  assumes "bump_refs d m = (first, m')"
  shows "refs_at m' e = (if e = d then refs_at m d + 1 else refs_at m e)"
    and "first \<longleftrightarrow> refs_at m d = 0" and "refs_positive m \<Longrightarrow> refs_positive m'"
  using backing_refs.bump_count [of d m e] backing_refs.bump_first [of d m]
    backing_refs.bump_positive [of m d] assms by simp_all

lemma drop_refs_eq:
  assumes "drop_refs d m = (final, m')" and "refs_positive m"
  shows "refs_at m' e = (if e = d then max 0 (refs_at m d - 1) else refs_at m e)"
    and "final \<longleftrightarrow> refs_at m d \<le> 1" and "refs_positive m'"
  using backing_refs.drop_count [of m d e] backing_refs.drop_last [of m d]
    backing_refs.drop_positive [of m d] assms by simp_all

lemma minv_refs: "minv h s \<Longrightarrow> refs_positive (ms_refs s)" "minv h s \<Longrightarrow> refs_at (ms_refs s) d = int (users s d)"
  "minv h s \<Longrightarrow> at s t p \<Longrightarrow> pc_inv h s p"
  "minv h s \<Longrightarrow> at s t p \<Longrightarrow> locked_on p = Some d \<Longrightarrow> ms_locks s d = Some t"
  by (auto simp: minv_def)

lemma free_lock: "minv h s \<Longrightarrow> ms_locks s d = None \<Longrightarrow> at s t p \<Longrightarrow> locked_on p \<noteq> Some d"
  by (auto simp: minv_def)

lemma counted_mounted:
  assumes inv: "minv h s" and at: "at s t p" and lock: "locked_on p = Some d" and "counted_on p \<noteq> Some d"
    and "0 < users s d" and "steady_dir h d"
  shows "d \<in> ms_mounted s"
proof -
  obtain t' p' where p': "at s t' p'" "counted_on p' = Some d"
    using assms(5) by (auto simp: users_def filter_empty_conv in_set_conv_nth)
  have "locked_on p' \<noteq> Some d" using locked_once [OF inv at lock p'(1)] at p' assms(4) by auto
  then have "uses p' = Some d" using p'(2) by (cases p') auto
  with minv_refs(3) [OF inv p'(1)] assms(6) show ?thesis by (cases p') auto
qed

lemma sole_user:
  assumes "minv h s" and "at s t p" and "refs_at (ms_refs s) d \<le> (if counted_on p = Some d then 1 else 0)"
    and "at s t' p'" and "t' \<noteq> t"
  shows "uses p' \<noteq> Some d"
  using users_two [OF assms(2) _ assms(4)] users_pos [OF assms(4)] uses_counted [of p' d] assms minv_refs(2) [of h s d]
  by (auto split: if_splits)

text \<open>Taking and releasing the mutex of a directory.\<close>

lemma minv_lock:
  assumes "minv h s" and "at s t p" and "ms_locks s d = None" and "locked_on q = Some d"
    and "counted_on q = counted_on p" and "pc_inv h s q"
  shows "minv h (goto t q (s\<lparr>ms_locks := (ms_locks s)(d \<mapsto> t)\<rparr>))"
  using assms free_lock [OF assms(1,3)] pc_inv_cong [of "s\<lparr>ms_locks := (ms_locks s)(d \<mapsto> t)\<rparr>" s h q]
  by (intro minv_goto [of h s t p]) (auto simp: minv_refs)

lemma minv_unlock:
  assumes "minv h s" and "at s t p" and "locked_on p = Some d" and "locked_on q = None"
    and "counted_on q = counted_on p" and "pc_inv h s q"
  shows "minv h (goto t q (s\<lparr>ms_locks := (ms_locks s)(d := None)\<rparr>))"
proof (rule minv_goto [OF assms(1,2)])
  fix t' p' e
  assume o: "at s t' p'" "t' \<noteq> t" "locked_on p' = Some e"
  then have "e \<noteq> d" using locked_once [OF assms(1,2,3) o(1)] by auto
  then show "ms_locks (s\<lparr>ms_locks := (ms_locks s)(d := None)\<rparr>) e = ms_locks s e" by simp
qed (use assms pc_inv_cong [of "s\<lparr>ms_locks := (ms_locks s)(d := None)\<rparr>" s h q] in \<open>auto simp: minv_refs\<close>)

lemma minv_step:
  assumes "mstep False h s s'" and inv: "minv h s"
  shows "minv h s'"
  using assms
proof (cases rule: mstep.cases)
  case (acq_lock t d)
  then show ?thesis using inv by (simp add: minv_lock)
next
  case (acq_bump t d first m)
  then show ?thesis using inv bump_refs_eq [OF acq_bump(3)] counted_mounted [OF inv acq_bump(2), of d]
    by (auto intro!: minv_goto [of h s t "Acq_Locked d"] simp: minv_refs)
next
  case (acq_mounted t d)
  then show ?thesis using inv
    by (auto intro!: minv_goto [of h s t "Acq_Mounting d"] simp: minv_refs)
next
  case (acq_unlisted t d)
  then show ?thesis using inv
    by (auto intro!: minv_goto [of h s t "Acq_Mounting d"] simp: minv_refs steady_dir_def)
next
  case (acq_failed t d M)
  then show ?thesis using inv minv_refs(3) [OF inv acq_failed(2)] sole_user [OF inv acq_failed(2), of d]
    by (auto intro!: minv_goto [of h s t "Acq_Mounting d"] simp: minv_refs)
next
  case (acq_drop t d final m)
  then show ?thesis using inv minv_refs(3) [OF inv acq_drop(2)] drop_refs_eq [OF acq_drop(3) minv_refs(1) [OF inv]]
    by (auto intro!: minv_goto [of h s t "Acq_Failed d"] simp: minv_refs)
next
  case (acq_return t d)
  then show ?thesis using minv_unlock [OF inv acq_return(2), of d] minv_refs(3) [OF inv acq_return(2)] by simp
next
  case (acq_error t d)
  then show ?thesis using minv_unlock [OF inv acq_error(2), of d] minv_refs(3) [OF inv acq_error(2)] by simp
next
  case (rel_lock t d)
  then show ?thesis using inv minv_refs(3) [OF inv rel_lock(2)] by (simp add: minv_lock)
next
  case (rel_drop t d final m)
  then show ?thesis using inv drop_refs_eq [OF rel_drop(3) minv_refs(1) [OF inv]] users_pos [OF rel_drop(2), of d]
    by (auto intro!: minv_goto [of h s t "Rel_Locked d"] simp: minv_refs)
next
  case (rel_check t d)
  then show ?thesis using inv minv_refs(3) [OF inv rel_check(2)]
    by (auto intro!: minv_goto [of h s t "Rel_Last d"] simp: minv_refs)
next
  case (rel_unmount t d M)
  then show ?thesis using inv minv_refs(3) [OF inv rel_unmount(2)] sole_user [OF inv rel_unmount(2), of d]
    by (auto intro!: minv_goto [of h s t "Rel_Unmounting d"] simp: minv_refs)
next
  case (rel_return t d)
  then show ?thesis using minv_unlock [OF inv rel_return(2), of d] minv_refs(3) [OF inv rel_return(2)] by simp
next
  case (ens_lock t d)
  then show ?thesis using inv by (simp add: minv_lock)
next
  case (ens_mount t d M)
  then show ?thesis using inv sole_user [OF inv ens_mount(2), of d]
    by (auto intro!: minv_goto [of h s t "Ens_Locked d"] simp: minv_refs)
next
  case (ens_stale t d)
  then show ?thesis using inv
    by (auto intro!: minv_goto [of h s t "Ens_Locked d"] simp: minv_refs)
next
  case (ens_clear t d M)
  then show ?thesis using inv minv_refs(3) [OF inv ens_clear(2)]
    by (auto intro!: minv_goto [of h s t "Ens_Stale d"] simp: minv_refs steady_dir_def)
next
  case (ens_remount t d M)
  then show ?thesis using inv minv_refs(3) [OF inv ens_remount(2)]
    by (auto intro!: minv_goto [of h s t "Ens_Cleared d"] simp: minv_refs steady_dir_def)
next
  case (ens_return t d)
  then show ?thesis using minv_unlock [OF inv ens_return(2), of d] minv_refs(3) [OF inv ens_return(2)] by simp
next
  case (dir_check t d)
  then show ?thesis by simp
next
  case (dir_unmount t d M)
  then show ?thesis using minv_refs(3) [OF inv dir_unmount(2)] by simp
qed

lemma minv_init: "minv h (minit n)"
  by (auto simp: minv_def minit_def refs_positive_def refs_at_def users_def)

lemma mreach_inv: "mreach False h n s \<Longrightarrow> minv h s"
  by (induction rule: mreach.induct) (auto intro: minv_init minv_step)

text \<open>An undisturbed acquisition of a directory nobody uses.\<close>

lemma acquire_run:
  assumes "mreach direct h n s" and at: "at s t Idle" and free: "ms_locks s d = None"
    and unused: "refs_at (ms_refs s) d = 0"
  shows "mreach direct h n (goto t (Holding d)
    (s\<lparr>ms_refs := (ms_refs s)(d \<mapsto> 1), ms_mounted := insert d (ms_mounted s)\<rparr>))"
proof -
  let ?s1 = "goto t (Acq_Locked d) (s\<lparr>ms_locks := (ms_locks s)(d \<mapsto> t)\<rparr>)"
  let ?s2 = "goto t (if True then Acq_Mounting d else Acq_Done d) (?s1\<lparr>ms_refs := (ms_refs s)(d \<mapsto> 1)\<rparr>)"
  let ?s3 = "goto t (Acq_Done d) (?s2\<lparr>ms_mounted := insert d (ms_mounted ?s2)\<rparr>)"
  let ?s4 = "goto t (Holding d) (?s3\<lparr>ms_locks := (ms_locks ?s3)(d := None)\<rparr>)"
  have "mreach direct h n ?s1" using assms by (intro mreach_step [OF assms(1)] acq_lock)
  then have "mreach direct h n ?s2"
    by (rule mreach_step) (rule acq_bump, use at unused in \<open>simp_all add: goto_def bump_refs_def\<close>)
  then have "mreach direct h n ?s3"
    by (rule mreach_step) (rule acq_mounted, use at in \<open>simp add: goto_def\<close>)
  then have "mreach direct h n ?s4"
    by (rule mreach_step) (rule acq_return, use at in \<open>simp add: goto_def\<close>)
  moreover have "?s4 = goto t (Holding d)
      (s\<lparr>ms_refs := (ms_refs s)(d \<mapsto> 1), ms_mounted := insert d (ms_mounted s)\<rparr>)"
    using free by (simp add: goto_def fun_upd_idem)
  ultimately show ?thesis by simp
qed

section \<open>Properties\<close>

text \<open>The only step of a thread that takes the mount of a directory away from a holder is the forced detaching of a
  mount that was found stale.\<close>

lemma detached_stale:
  assumes step: "mstep False h s s'" and inv: "minv h s" and at: "at s t (Holding d)"
    and "d \<in> ms_mounted s" and "d \<notin> ms_mounted s'"
  shows "\<exists>t'. at s t' (Ens_Stale d)"
  using step
proof (cases rule: mstep.cases)
  case (acq_failed u e M)
  then have "e = d" using assms(4,5) by auto
  with acq_failed minv_refs(3) [OF inv acq_failed(2)] sole_user [OF inv acq_failed(2), of d t "Holding d"] at
  show ?thesis by (cases "t = u") auto
next
  case (rel_unmount u e M)
  then have "e = d" using assms(4,5) by auto
  with rel_unmount minv_refs(3) [OF inv rel_unmount(2)] sole_user [OF inv rel_unmount(2), of d t "Holding d"] at
  show ?thesis by (cases "t = u") auto
next
  case (ens_mount u e M)
  then have "e = d" "refs_at (ms_refs s) d \<le> 0" using assms(4,5) by auto
  with ens_mount sole_user [OF inv ens_mount(2), of d t "Holding d"] at show ?thesis by (cases "t = u") auto
next
  case (ens_clear u e M)
  then have "e = d" using assms(4,5) by auto
  with ens_clear show ?thesis by auto
next
  case (dir_unmount u e M)
  then show ?thesis using minv_refs(3) [OF inv dir_unmount(2)] by simp
qed (use assms(4,5) in auto)

text \<open>C2. While an operation holds a reference on a backing share, the driver does not take the mount away: in every
  interleaving of any number of operations that acquire and release backing mounts and of node calls that make sure a
  share is mounted, a thread that returned from \<open>acquireBackingMount\<close> and has not entered \<open>releaseBackingMount\<close> is
  counted; it finds the directory mounted when the service keeps listing the share and the mount keeps answering; and in
  any case the one step that takes a mount away from it is the forced detaching of a mount that failed every check of
  \<open>classifyMount\<close>. When the service does not list the share at the first acquisition, the acquisition succeeds without
  a mount, and nothing is said of one. Direct callers of \<open>UnmountBackingShareIfUnused\<close> are left out.\<close>

theorem held_share_mounted:
  assumes "mreach False h n s" and "t < length (ms_pcs s)" and "ms_pcs s ! t = Holding d"
  shows "0 < refs_at (ms_refs s) d \<and> (steady_dir h d \<longrightarrow> d \<in> ms_mounted s) \<and>
    (\<forall>s'. mstep False h s s' \<and> d \<in> ms_mounted s \<and> d \<notin> ms_mounted s' \<longrightarrow>
       d \<in> mh_hangs h \<and> (\<exists>t' < length (ms_pcs s). ms_pcs s ! t' = Ens_Stale d))"
proof -
  have inv: "minv h s" using assms(1) by (rule mreach_inv)
  have at: "at s t (Holding d)" using assms by simp
  have "d \<in> mh_hangs h \<and> (\<exists>t' < length (ms_pcs s). ms_pcs s ! t' = Ens_Stale d)"
    if "mstep False h s s'" "d \<in> ms_mounted s" "d \<notin> ms_mounted s'" for s'
    using detached_stale [OF that(1) inv at that(2,3)] minv_refs(3) [OF inv, of _ "Ens_Stale d"] by auto
  with minv_refs(3) [OF inv at] users_pos [OF at, of d] minv_refs(2) [OF inv, of d]
  show ?thesis by (auto simp del: ex_simps)
qed

theorem held_share_mounted_witness:
  "''/d'' \<in> ms_mounted (goto 0 (Holding ''/d'')
     ((minit 2)\<lparr>ms_refs := [''/d'' \<mapsto> 1], ms_mounted := {''/d''}\<rparr>))"
proof -
  let ?h = "\<lparr>mh_unlisted = {''/gone''}, mh_hangs = {''/slow''}\<rparr>"
  have "mreach False ?h 2 (goto 0 (Holding ''/d'') ((minit 2)\<lparr>ms_refs := [''/d'' \<mapsto> 1], ms_mounted := {''/d''}\<rparr>))"
    using acquire_run [OF mreach_init [of False ?h 2], of 0 "''/d''"] by (simp add: minit_def refs_at_def)
  from held_share_mounted [OF this, of 0 "''/d''"] show ?thesis by (simp add: minit_def steady_dir_def)
qed

definition race_state :: mstate where
  "race_state = \<lparr>ms_pcs = [Holding ''/d'', Idle], ms_locks = Map.empty, ms_refs = [''/d'' \<mapsto> 1],
     ms_mounted = {}\<rparr>"

text \<open>C39. The callers of \<open>UnmountBackingShareIfUnused\<close> that do not hold the mutex of the directory
  break that guarantee: such a caller reads a zero count, another operation then acquires the mount,
  and the unmount takes it away; the holder is left with a counted reference on a directory that is
  not mounted.\<close>

theorem unlocked_unmount_race:
  "mreach True h 2 race_state \<and> ms_pcs race_state ! 0 = Holding ''/d'' \<and>
   refs_at (ms_refs race_state) ''/d'' = 1 \<and> ''/d'' \<notin> ms_mounted race_state"
proof -
  let ?s1 = "goto 1 (Direct_Unmounting ''/d'') (minit 2)"
  let ?s2 = "goto 0 (Holding ''/d'')
    (?s1\<lparr>ms_refs := (ms_refs ?s1)(''/d'' \<mapsto> 1), ms_mounted := insert ''/d'' (ms_mounted ?s1)\<rparr>)"
  have "mreach True h 2 ?s1"
    by (rule mreach_step [OF mreach_init]) (rule dir_check, simp_all add: minit_def refs_at_def)
  then have "mreach True h 2 ?s2" by (rule acquire_run) (simp_all add: minit_def refs_at_def)
  then have "mreach True h 2 (goto 1 Idle (?s2\<lparr>ms_mounted := {}\<rparr>))"
    by (rule mreach_step) (rule dir_unmount, simp_all add: minit_def goto_def)
  also have "goto 1 Idle (?s2\<lparr>ms_mounted := {}\<rparr>) = race_state"
    by (simp add: race_state_def minit_def goto_def numeral_2_eq_2)
  finally show ?thesis by (simp add: race_state_def refs_at_def)
qed

end
