(* ===== verification/Mount_Liveness.thy ===== *)
theory Mount_Liveness
  imports Mount_Protocol
begin

text \<open>
  Progress of the backing-mount protocol: once no new call arrives, the calls under way come to an end, in a
  bounded number of steps and in whatever order they are scheduled, and leave no mutex taken and no reference
  counted. The bound is the number of steps a call has left, added up over the threads.
\<close>

section \<open>Steps left\<close>

fun steps_left :: "pc \<Rightarrow> nat" where
  "steps_left Idle = 0"
| "steps_left (Acq_Locked d) = 8"
| "steps_left (Acq_Mounting d) = 7"
| "steps_left (Acq_Failed d) = 2"
| "steps_left (Acq_Done d) = 6"
| "steps_left (Acq_Error d) = 1"
| "steps_left (Holding d) = 5"
| "steps_left (Rel_Locked d) = 4"
| "steps_left (Rel_Last d) = 3"
| "steps_left (Rel_Unmounting d) = 2"
| "steps_left (Rel_Done d) = 1"
| "steps_left (Ens_Locked d) = 4"
| "steps_left (Ens_Stale d) = 3"
| "steps_left (Ens_Cleared d) = 2"
| "steps_left (Ens_Done d) = 1"
| "steps_left (Direct_Unmounting d) = 1"

definition work_left :: "mstate \<Rightarrow> nat" where
  "work_left s = sum_list (map steps_left (ms_pcs s))"

text \<open>A step that starts no new call.\<close>

definition settles :: "mhost \<Rightarrow> mstate \<Rightarrow> mstate \<Rightarrow> bool" where
  "settles h s s' \<longleftrightarrow> mstep False h s s' \<and> (\<forall>t < length (ms_pcs s). ms_pcs s ! t = Idle \<longrightarrow> ms_pcs s' ! t = Idle)"

lemma steps_le_work: "t < length (ms_pcs s) \<Longrightarrow> steps_left (ms_pcs s ! t) \<le> work_left s"
  using elem_le_sum_list [of t "map steps_left (ms_pcs s)"] by (simp add: work_left_def)

lemma work_left_goto:
  "t < length (ms_pcs s) \<Longrightarrow> work_left (goto t p s) = work_left s - steps_left (ms_pcs s ! t) + steps_left p"
  using steps_le_work [of t s] by (simp add: work_left_def map_update sum_list_update)

lemma work_left_decreases: "at s t q \<Longrightarrow> ms_pcs s1 = ms_pcs s \<Longrightarrow> steps_left p < steps_left q \<Longrightarrow> work_left (goto t p s1) < work_left s"
  using steps_le_work [of t s] work_left_goto [of t s1 p] by (simp add: work_left_def)

lemma settles_decreases: "settles h s s' \<Longrightarrow> work_left s' < work_left s"
  unfolding settles_def
  by (elim conjE mstepE) (auto intro!: work_left_decreases)

lemma work_left_bound: "work_left s \<le> 8 * length (ms_pcs s)"
proof -
  have "steps_left p \<le> 8" for p by (cases p) auto
  then have "sum_list (map steps_left ps) \<le> 8 * length ps" for ps by (induction ps) (auto simp: add_mono)
  then show ?thesis by (simp add: work_left_def)
qed

section \<open>Locks have owners\<close>

definition owned_locks :: "mstate \<Rightarrow> bool" where
  "owned_locks s \<longleftrightarrow> (\<forall>d t. ms_locks s d = Some t \<longrightarrow> t < length (ms_pcs s) \<and> locked_on (ms_pcs s ! t) = Some d)"

lemma owned_goto:
  assumes "owned_locks s" and "at s t p" and "ms_pcs s1 = ms_pcs s"
    and "\<And>d. ms_locks s1 d = ms_locks s d \<or> ms_locks s1 d = None \<or> ms_locks s1 d = Some t \<and> locked_on q = Some d"
    and "\<And>d. ms_locks s1 d = Some t \<Longrightarrow> locked_on q = Some d"
  shows "owned_locks (goto t q s1)"
  unfolding owned_locks_def
proof (intro allI impI)
  fix d u
  assume "ms_locks (goto t q s1) d = Some u"
  then have l: "ms_locks s1 d = Some u" by simp
  show "u < length (ms_pcs (goto t q s1)) \<and> locked_on (ms_pcs (goto t q s1) ! u) = Some d"
  proof (cases "u = t")
    case True
    then show ?thesis using assms(2,3,5) l by simp
  next
    case False
    then have "ms_locks s d = Some u" using assms(4) [of d] l by auto
    then show ?thesis using assms(1,2,3) False by (simp add: owned_locks_def)
  qed
qed

lemma owned_step:
  assumes "mstep direct h s s'" and "owned_locks s"
  shows "owned_locks s'"
proof -
  have own: "locked_on (ms_pcs s ! t) = Some d" if "ms_locks s d = Some t" for t d
    using assms(2) that by (auto simp: owned_locks_def)
  show ?thesis
    using assms(1)
    by (elim mstepE) (auto intro!: owned_goto [OF assms(2)] dest!: own split: if_splits)
qed

lemma mreach_owned: "mreach direct h n s \<Longrightarrow> owned_locks s \<and> length (ms_pcs s) = n"
proof (induction rule: mreach.induct)
  case mreach_init
  then show ?case by (simp add: owned_locks_def minit_def)
next
  case (mreach_step s s')
  from mreach_step.hyps(2) have "length (ms_pcs s') = length (ms_pcs s)" by cases simp_all
  with mreach_step owned_step show ?case by blast
qed

section \<open>Progress\<close>

lemma locked_can_step:
  assumes "at s t p" and "locked_on p = Some d"
  shows "\<exists>s'. settles h s s'"
proof -
  obtain a m where b: "bump_refs d (ms_refs s) = (a, m)" by (cases "bump_refs d (ms_refs s)")
  obtain f m' where r: "drop_refs d (ms_refs s) = (f, m')" by (cases "drop_refs d (ms_refs s)")
  have go: "\<exists>s'. settles h s s'" if "mstep False h s (goto t q s1)" "ms_pcs s1 = ms_pcs s" for q s1
    using that assms by (auto simp: settles_def nth_list_update intro!: exI [of _ "goto t q s1"])
  show ?thesis
  proof (cases p)
    case (Acq_Locked e)
    then show ?thesis using assms by (intro go [OF acq_bump [OF _ b]]) auto
  next
    case (Acq_Mounting e)
    then show ?thesis using assms by (intro go [OF acq_mounted]) auto
  next
    case (Acq_Failed e)
    then show ?thesis using assms by (intro go [OF acq_drop [OF _ r]]) auto
  next
    case (Acq_Done e)
    then show ?thesis using assms by (intro go [OF acq_return]) auto
  next
    case (Acq_Error e)
    then show ?thesis using assms by (intro go [OF acq_error]) auto
  next
    case (Rel_Locked e)
    then show ?thesis using assms by (intro go [OF rel_drop [OF _ r]]) auto
  next
    case (Rel_Last e)
    then show ?thesis using assms by (intro go [OF rel_check]) auto
  next
    case (Rel_Unmounting e)
    then show ?thesis using assms by (intro go [OF rel_unmount [where M = "ms_mounted s"]]) auto
  next
    case (Rel_Done e)
    then show ?thesis using assms by (intro go [OF rel_return]) auto
  next
    case (Ens_Locked e)
    then show ?thesis using assms by (intro go [OF ens_mount [where M = "ms_mounted s"]]) auto
  next
    case (Ens_Stale e)
  then show ?thesis using assms by (intro go [OF ens_clear [where M = "ms_mounted s"]]) auto
next
  case (Ens_Cleared e)
  then show ?thesis using assms by (intro go [OF ens_remount [where M = "ms_mounted s"]]) auto
next
  case (Ens_Done e)
    then show ?thesis using assms by (intro go [OF ens_return]) auto
  qed (use assms in auto)
qed

lemma busy_can_step:
  assumes "mreach False h n s" and "at s t p" and "p \<noteq> Idle"
  shows "\<exists>s'. settles h s s'"
proof (cases "locked_on p")
  case (Some d)
  then show ?thesis using assms(2) locked_can_step by blast
next
  case None
  have "p \<noteq> Direct_Unmounting d" for d using minv_refs(3) [OF mreach_inv [OF assms(1)] assms(2)] by auto
  with None assms(3) obtain d where p: "p = Holding d" by (cases p) auto
  show ?thesis
  proof (cases "ms_locks s d")
    case None
    with assms(2) p have "mstep False h s (goto t (Rel_Locked d) (s\<lparr>ms_locks := (ms_locks s)(d \<mapsto> t)\<rparr>))"
      by (intro rel_lock) auto
    then show ?thesis using assms(2) p
      by (auto simp: settles_def nth_list_update intro!: exI [of _ "goto t (Rel_Locked d) (s\<lparr>ms_locks := (ms_locks s)(d \<mapsto> t)\<rparr>)"])
  next
    case (Some u)
    then show ?thesis using mreach_owned [OF assms(1)] locked_can_step [where t = u and d = d] by (auto simp: owned_locks_def)
  qed
qed

definition drained :: "mstate \<Rightarrow> bool" where
  "drained s \<longleftrightarrow> set (ms_pcs s) \<subseteq> {Idle} \<and> ms_locks s = Map.empty \<and> ms_refs s = Map.empty"

lemma idle_drained:
  assumes "mreach False h n s" and "set (ms_pcs s) \<subseteq> {Idle}"
  shows "drained s"
proof -
  have idle: "ms_pcs s ! t = Idle" if "t < length (ms_pcs s)" for t using assms(2) nth_mem [OF that] by auto
  have "filter (\<lambda>p. counted_on p = Some d) (ms_pcs s) = []" for d using assms(2) by (auto simp: filter_empty_conv)
  then have "refs_at (ms_refs s) d = 0" for d using minv_refs(2) [OF mreach_inv [OF assms(1)], of d] by (simp add: users_def)
  then have refs: "ms_refs s d = None" for d
    using minv_refs(1) [OF mreach_inv [OF assms(1)]] unfolding refs_positive_def refs_at_def
    by (metis less_irrefl not_None_eq option.simps(5))
  have "ms_locks s d = None" for d
    using mreach_owned [OF assms(1)] idle unfolding owned_locks_def
    by (metis locked_on.simps(14) not_None_eq)
  then show ?thesis using refs assms(2) by (auto simp: drained_def)
qed

interpretation st: runs_down "settles h" "mreach False h n" work_left "\<lambda>s. set (ms_pcs s) \<subseteq> {Idle}" for h n
proof
  show "settles h s s' \<Longrightarrow> mreach False h n s \<Longrightarrow> mreach False h n s'" for s s' by (auto simp: settles_def intro: mreach_step)
  show "settles h s s' \<Longrightarrow> mreach False h n s \<Longrightarrow> work_left s' < work_left s" for s s' by (rule settles_decreases)
  show "set (ms_pcs s) \<subseteq> {Idle} \<or> (\<exists>s'. settles h s s')" if "mreach False h n s" for s
  proof (cases "\<exists>s'. settles h s s'")
    case False
    then have "ms_pcs s ! t = Idle" if "t < length (ms_pcs s)" for t
      using busy_can_step [OF \<open>mreach False h n s\<close>, of t] that by blast
    then show ?thesis by (auto simp: in_set_conv_nth)
  qed blast
qed

section \<open>Properties\<close>

text \<open>C8. The calls under way on backing mounts come to an end. From every reachable state, with \<open>n\<close> threads, at most
  \<open>8 * n\<close> steps can be taken that start no new call, in whatever order the threads are scheduled; and when no such
  step is left, no thread is stuck: all are idle, no mutex is taken and no reference is counted.\<close>

theorem mounts_settle:
  assumes "mreach False h n s"
  shows "(\<forall>k s'. (settles h ^^ k) s s' \<longrightarrow> k \<le> 8 * n) \<and>
    (\<forall>s'. (settles h)\<^sup>*\<^sup>* s s' \<and> (\<nexists>u. settles h s' u) \<longrightarrow> drained s')"
proof (intro conjI allI impI)
  fix k s'
  assume "(settles h ^^ k) s s'"
  then show "k \<le> 8 * n" using st.steps_bounded [OF _ assms] work_left_bound [of s] mreach_owned [OF assms] by fastforce
next
  fix s'
  assume "(settles h)\<^sup>*\<^sup>* s s' \<and> (\<nexists>u. settles h s' u)"
  then show "drained s'" using idle_drained st.run_keeps [OF _ assms] st.stuck_ended [OF _ assms] by blast
qed

theorem mounts_settle_witness:
  "drained (minit 2) \<and>
   \<not> (settles \<lparr>mh_unlisted = {''/gone''}, mh_hangs = {''/d''}\<rparr> ^^ 17) (goto 0 (Holding ''/d'') ((minit 2)\<lparr>ms_refs := [''/d'' \<mapsto> 1], ms_mounted := {''/d''}\<rparr>)) (minit 2)"
proof
  have "work_left (minit 2) = 0" by (simp add: work_left_def minit_def numeral_2_eq_2)
  then have "\<nexists>u. settles \<lparr>mh_unlisted = {''/gone''}, mh_hangs = {''/d''}\<rparr> (minit 2) u" using settles_decreases by fastforce
  then show "drained (minit 2)" using mounts_settle [OF mreach_init, of "\<lparr>mh_unlisted = {''/gone''}, mh_hangs = {''/d''}\<rparr>" 2] by blast
next
  have "mreach False \<lparr>mh_unlisted = {''/gone''}, mh_hangs = {''/d''}\<rparr> 2 (goto 0 (Holding ''/d'') ((minit 2)\<lparr>ms_refs := [''/d'' \<mapsto> 1], ms_mounted := {''/d''}\<rparr>))"
    using acquire_run [OF mreach_init [of False "\<lparr>mh_unlisted = {''/gone''}, mh_hangs = {''/d''}\<rparr>" 2], of 0 "''/d''"] by (simp add: minit_def refs_at_def)
  from mounts_settle [OF this]
  show "\<not> (settles \<lparr>mh_unlisted = {''/gone''}, mh_hangs = {''/d''}\<rparr> ^^ 17) (goto 0 (Holding ''/d'') ((minit 2)\<lparr>ms_refs := [''/d'' \<mapsto> 1], ms_mounted := {''/d''}\<rparr>)) (minit 2)"
    by fastforce
qed

end
