(* ===== verification/Lock_Protocol.thy ===== *)
theory Lock_Protocol
  imports Locks
begin

text \<open>
  The keyed locks and the mount slots under concurrency (\<open>pkg/driver/driver.go\<close>): a step relation over any
  number of threads, each running one call at a time that acquires volume locks, snapshot locks and mount slots
  in any order and nesting and releases them in the reverse order, as deferred releases do.

  The lock tables map a key to a semaphore; the semaphores are a heap of objects, so that two calls exclude
  each other only because they find the same object under their key. A step is what one thread does between
  two points where another can run: looking up or creating the semaphore of a key (under \<open>locksMu\<close>), acquiring
  it when it has room, giving up after the timeout or the end of the request, releasing. A semaphore may be
  granted in any order. Object 0 is the semaphore of the mount slots.

  Three groups of results: at most as many holders as a semaphore has room, so that no two calls hold one lock;
  every call ends; and each call on its own sees exactly what the sequential model of \<open>Locks\<close> describes.
\<close>

section \<open>Semaphores\<close>

record sem =
  sm_size :: nat
  sm_cur :: nat

definition newKeyLock :: sem where
  "newKeyLock = \<lparr>sm_size = 1, sm_cur = 0\<rparr>"

definition sem_free :: "sem \<Rightarrow> bool" where
  "sem_free m \<longleftrightarrow> sm_cur m < sm_size m"

definition keyLock_lock :: "sem \<Rightarrow> sem" where
  "keyLock_lock m = m\<lparr>sm_cur := sm_cur m + 1\<rparr>"

definition keyLock_unlock :: "sem \<Rightarrow> sem" where
  "keyLock_unlock m = m\<lparr>sm_cur := sm_cur m - 1\<rparr>"

section \<open>Threads\<close>

datatype lkind = Volume_Lock | Snapshot_Lock

datatype lres = Lock lkind string | Slot

text \<open>A thread is idle, runs with the resources it holds (the newest first), or waits for one more.\<close>

datatype lpc =
    Resting
  | Busy "(lres \<times> nat) list"
  | Waiting lres nat "(lres \<times> nat) list"

fun held_by :: "lpc \<Rightarrow> (lres \<times> nat) list" where
  "held_by Resting = []"
| "held_by (Busy hs) = hs"
| "held_by (Waiting r i hs) = hs"

record lstate =
  ls_pcs :: "lpc list"
  ls_volumeLocks :: "string \<rightharpoonup> nat"
  ls_snapshotLocks :: "string \<rightharpoonup> nat"
  ls_sems :: "sem list"

definition table_of :: "lkind \<Rightarrow> lstate \<Rightarrow> string \<rightharpoonup> nat" where
  "table_of kind s = (case kind of Volume_Lock \<Rightarrow> ls_volumeLocks s | Snapshot_Lock \<Rightarrow> ls_snapshotLocks s)"

definition set_table :: "lkind \<Rightarrow> (string \<rightharpoonup> nat) \<Rightarrow> lstate \<Rightarrow> lstate" where
  "set_table kind m s = (case kind of
     Volume_Lock \<Rightarrow> s\<lparr>ls_volumeLocks := m\<rparr> | Snapshot_Lock \<Rightarrow> s\<lparr>ls_snapshotLocks := m\<rparr>)"

text \<open>\<open>lk, ok := locks[id]; if !ok { lk = newKeyLock(); locks[id] = lk }\<close>\<close>

definition find_lock :: "lkind \<Rightarrow> string \<Rightarrow> lstate \<Rightarrow> nat \<times> lstate" where
  "find_lock kind k s =
     (case table_of kind s k of
        Some i \<Rightarrow> (i, s)
      | None \<Rightarrow> let i = length (ls_sems s) in
          (i, set_table kind ((table_of kind s)(k \<mapsto> i)) (s\<lparr>ls_sems := ls_sems s @ [newKeyLock]\<rparr>)))"

definition lgoto :: "nat \<Rightarrow> lpc \<Rightarrow> lstate \<Rightarrow> lstate" where
  "lgoto t p s = s\<lparr>ls_pcs := (ls_pcs s)[t := p]\<rparr>"

definition on_sem :: "nat \<Rightarrow> (sem \<Rightarrow> sem) \<Rightarrow> lstate \<Rightarrow> lstate" where
  "on_sem i f s = s\<lparr>ls_sems := (ls_sems s)[i := f (ls_sems s ! i)]\<rparr>"

abbreviation runs :: "lstate \<Rightarrow> nat \<Rightarrow> lpc \<Rightarrow> bool" where
  "runs s t p \<equiv> t < length (ls_pcs s) \<and> ls_pcs s ! t = p"

section \<open>Steps\<close>

inductive lstep :: "nat \<Rightarrow> lstate \<Rightarrow> lstate \<Rightarrow> bool" for t :: nat where
  call_starts: "runs s t Resting \<Longrightarrow> lstep t s (lgoto t (Busy []) s)"
| lock_looked_up: "runs s t (Busy hs) \<Longrightarrow> find_lock kind k s = (i, s1) \<Longrightarrow>
    lstep t s (lgoto t (Waiting (Lock kind k) i hs) s1)"
| slot_wanted: "runs s t (Busy hs) \<Longrightarrow> lstep t s (lgoto t (Waiting Slot 0 hs) s)"
| acquired: "runs s t (Waiting r i hs) \<Longrightarrow> sem_free (ls_sems s ! i) \<Longrightarrow>
    lstep t s (lgoto t (Busy ((r, i) # hs)) (on_sem i keyLock_lock s))"
| gave_up: "runs s t (Waiting r i hs) \<Longrightarrow> lstep t s (lgoto t (Busy hs) s)"
| released: "runs s t (Busy ((r, i) # hs)) \<Longrightarrow>
    lstep t s (lgoto t (Busy hs) (on_sem i keyLock_unlock s))"
| call_ends: "runs s t (Busy []) \<Longrightarrow> lstep t s (lgoto t Resting s)"

inductive_cases lstepE: "lstep t s s'"

definition linit :: "nat \<Rightarrow> nat \<Rightarrow> lstate" where
  "linit n slots = \<lparr>ls_pcs = replicate n Resting, ls_volumeLocks = Map.empty, ls_snapshotLocks = Map.empty,
     ls_sems = [\<lparr>sm_size = slots, sm_cur = 0\<rparr>]\<rparr>"

inductive lreach :: "nat \<Rightarrow> nat \<Rightarrow> lstate \<Rightarrow> bool" for n slots where
  lreach_init: "lreach n slots (linit n slots)"
| lreach_step: "lreach n slots s \<Longrightarrow> lstep t s s' \<Longrightarrow> lreach n slots s'"

section \<open>Invariant\<close>

text \<open>How often a thread holds a semaphore, and all threads together.\<close>

definition holds :: "nat \<Rightarrow> lpc \<Rightarrow> nat" where
  "holds i p = length (filter (\<lambda>h. snd h = i) (held_by p))"

definition holders :: "lstate \<Rightarrow> nat \<Rightarrow> nat" where
  "holders s i = sum_list (map (holds i) (ls_pcs s))"

definition sem_of :: "lstate \<Rightarrow> lres \<Rightarrow> nat option" where
  "sem_of s r = (case r of Lock kind k \<Rightarrow> table_of kind s k | Slot \<Rightarrow> Some 0)"

text \<open>The resource a thread waits for and those it holds.\<close>

fun wants :: "lpc \<Rightarrow> (lres \<times> nat) list" where
  "wants Resting = []"
| "wants (Busy hs) = hs"
| "wants (Waiting r i hs) = (r, i) # hs"

definition tables_ok :: "nat \<Rightarrow> lstate \<Rightarrow> bool" where
  "tables_ok slots s \<longleftrightarrow>
     (\<forall>kind k i. table_of kind s k = Some i \<longrightarrow> 0 < i \<and> i < length (ls_sems s)) \<and>
     ls_sems s \<noteq> [] \<and> sm_size (ls_sems s ! 0) = slots \<and>
     (\<forall>i. 0 < i \<longrightarrow> i < length (ls_sems s) \<longrightarrow> sm_size (ls_sems s ! i) = 1)"

definition wants_ok :: "lstate \<Rightarrow> bool" where
  "wants_ok s \<longleftrightarrow> (\<forall>p \<in> set (ls_pcs s). \<forall>(r, i) \<in> set (wants p). sem_of s r = Some i)"

definition counts_ok :: "lstate \<Rightarrow> bool" where
  "counts_ok s \<longleftrightarrow> (\<forall>i < length (ls_sems s).
     sm_cur (ls_sems s ! i) = holders s i \<and> holders s i \<le> sm_size (ls_sems s ! i))"

definition linv :: "nat \<Rightarrow> lstate \<Rightarrow> bool" where
  "linv slots s \<longleftrightarrow> tables_ok slots s \<and> wants_ok s \<and> counts_ok s"

lemma lgoto_sel [simp]:
  "ls_pcs (lgoto t p s) = (ls_pcs s)[t := p]" "ls_sems (lgoto t p s) = ls_sems s"
  "table_of kind (lgoto t p s) = table_of kind s" "sem_of (lgoto t p s) r = sem_of s r"
  by (auto simp: lgoto_def table_of_def sem_of_def split: lkind.splits lres.splits)

lemma on_sem_sel [simp]:
  "ls_pcs (on_sem i f s) = ls_pcs s" "ls_sems (on_sem i f s) = (ls_sems s)[i := f (ls_sems s ! i)]"
  "table_of kind (on_sem i f s) = table_of kind s" "sem_of (on_sem i f s) r = sem_of s r"
  by (auto simp: on_sem_def table_of_def sem_of_def split: lkind.splits lres.splits)

lemma tables_lgoto [simp]: "tables_ok slots (lgoto t p s) = tables_ok slots s"
  by (simp add: tables_ok_def)

lemma holders_le: "t < length (ls_pcs s) \<Longrightarrow> holds i (ls_pcs s ! t) \<le> holders s i"
  using elem_le_sum_list [of t "map (holds i) (ls_pcs s)"] by (simp add: holders_def)

lemma holders_lgoto:
  "t < length (ls_pcs s) \<Longrightarrow>
     holders (lgoto t p s) i = holders s i - holds i (ls_pcs s ! t) + holds i p"
  using holders_le [of t s i] by (simp add: holders_def map_update sum_list_update)

lemma holders_two:
  assumes "t < length (ls_pcs s)" and "t' < length (ls_pcs s)" and "t \<noteq> t'"
  shows "holds i (ls_pcs s ! t) + holds i (ls_pcs s ! t') \<le> holders s i"
  using holders_lgoto [of t s Resting i] holders_le [of t' "lgoto t Resting s" i] holders_le [of t s i] assms
  by (simp add: holds_def)

lemma find_lock_pcs: "find_lock kind k s = (i, s1) \<Longrightarrow> ls_pcs s1 = ls_pcs s"
  by (auto simp: find_lock_def set_table_def Let_def split: option.splits lkind.splits)

lemma find_lock_table:
  assumes "find_lock kind k s = (i, s1)"
  shows "table_of kind' s1 = (if kind' = kind then (table_of kind s)(k \<mapsto> i) else table_of kind' s)"
  using assms
  by (auto simp: find_lock_def set_table_def table_of_def Let_def fun_upd_idem split: option.splits lkind.splits)

text \<open>An index a key already has, or the index of a new semaphore at the end.\<close>

lemma find_lock_cases:
  assumes "find_lock kind k s = (i, s1)"
  obtains "table_of kind s k = Some i" and "s1 = s"
  | "table_of kind s k = None" and "i = length (ls_sems s)" and "ls_sems s1 = ls_sems s @ [newKeyLock]"
  using assms that
  by (auto simp: find_lock_def set_table_def Let_def split: option.splits lkind.splits)

lemma tables_find:
  assumes "find_lock kind k s = (i, s1)" and "tables_ok slots s"
  shows "tables_ok slots s1"
  using assms(1)
proof (cases rule: find_lock_cases)
  case 2
  show ?thesis using assms(2) 2 unfolding tables_ok_def find_lock_table [OF assms(1)]
    by (auto simp: nth_append newKeyLock_def less_Suc_eq split: if_splits)
qed (use assms in simp)

lemma sem_of_find:
  assumes "find_lock kind k s = (i, s1)" and "sem_of s r = Some j"
  shows "sem_of s1 r = Some j"
  using assms(1)
proof (cases rule: find_lock_cases)
  case 2
  then show ?thesis using assms(2) find_lock_table [OF assms(1)]
    by (auto simp: sem_of_def split: lres.splits)
qed (use assms in simp)

lemma held_wants: "set (held_by p) \<subseteq> set (wants p)"
  by (cases p) auto

lemma sem_of_range: "tables_ok slots s \<Longrightarrow> sem_of s r = Some i \<Longrightarrow> i < length (ls_sems s)"
  by (auto simp: tables_ok_def sem_of_def split: lres.splits)

lemma held_sem: "wants_ok s \<Longrightarrow> p \<in> set (ls_pcs s) \<Longrightarrow> (r, j) \<in> set (held_by p) \<Longrightarrow> sem_of s r = Some j"
  using held_wants [of p] unfolding wants_ok_def by blast

lemma holders_new:
  assumes "tables_ok slots s" and "wants_ok s" and "length (ls_sems s) \<le> i"
  shows "holders s i = 0"
proof -
  have "holds i p = 0" if "p \<in> set (ls_pcs s)" for p
  proof -
    have "j \<noteq> i" if "(r, j) \<in> set (held_by p)" for r j
    proof -
      have "sem_of s r = Some j" using held_sem [OF assms(2) \<open>p \<in> set (ls_pcs s)\<close> that] .
      from sem_of_range [OF assms(1) this] show ?thesis using assms(3) by simp
    qed
    then show ?thesis by (force simp: holds_def filter_empty_conv)
  qed
  then show ?thesis by (simp add: holders_def sum_list_eq_0_iff)
qed

lemma wants_goto:
  assumes "wants_ok s" and "ls_pcs s1 = ls_pcs s" and "\<And>r j. sem_of s r = Some j \<Longrightarrow> sem_of s1 r = Some j"
    and "\<And>r j. (r, j) \<in> set (wants q) \<Longrightarrow> sem_of s1 r = Some j"
  shows "wants_ok (lgoto t q s1)"
  using assms set_update_subset_insert [of "ls_pcs s" t q] unfolding wants_ok_def by fastforce

lemma counts_same:
  assumes "counts_ok s" and "ls_sems s1 = ls_sems s" and "ls_pcs s1 = ls_pcs s" and "t < length (ls_pcs s)"
    and "held_by q = held_by (ls_pcs s ! t)"
  shows "counts_ok (lgoto t q s1)"
proof -
  have "holders (lgoto t q s1) i = holders s i" for i
    using holders_lgoto [of t s1 q i] holders_le [of t s i] assms(3-5) by (simp add: holds_def holders_def)
  then show ?thesis using assms(1,2) by (simp add: counts_ok_def)
qed

lemma wants_runs: "wants_ok s \<Longrightarrow> runs s t p \<Longrightarrow> (r, i) \<in> set (wants p) \<Longrightarrow> sem_of s r = Some i"
  by (fastforce simp: wants_ok_def)

lemma linv_find:
  assumes "linv slots s" and "runs s t (Busy hs)" and f: "find_lock kind k s = (i, s1)"
  shows "linv slots (lgoto t (Waiting (Lock kind k) i hs) s1)"
proof -
  note inv = assms(1) [unfolded linv_def]
  note pcs = find_lock_pcs [OF f]
  have "sem_of s1 r = Some j" if "(r, j) \<in> set (wants (Waiting (Lock kind k) i hs))" for r j
    using that wants_runs [OF _ assms(2), of r j] inv sem_of_find [OF f] find_lock_table [OF f, of kind]
    by (auto simp: sem_of_def [of s1 "Lock kind k"])
  then have "wants_ok (lgoto t (Waiting (Lock kind k) i hs) s1)"
    using inv pcs sem_of_find [OF f] by (intro wants_goto [of s s1]) auto
  moreover have "counts_ok (lgoto t (Waiting (Lock kind k) i hs) s1)"
    using f
  proof (cases rule: find_lock_cases)
    case 1
    then show ?thesis using inv assms(2) by (intro counts_same [of s s1]) auto
  next
    case 2
    let ?s = "lgoto t (Waiting (Lock kind k) i hs) s"
    have "counts_ok ?s" using inv assms(2) by (intro counts_same [of s s]) auto
    moreover have "holders ?s (length (ls_sems s)) = 0"
      using holders_new [of slots s] holders_lgoto [of t s] inv assms(2) holders_le [of t s] by (simp add: holds_def)
    moreover have "holders (lgoto t (Waiting (Lock kind k) i hs) s1) j = holders ?s j" for j
      using pcs by (simp add: holders_def)
    ultimately show ?thesis using 2 by (auto simp: counts_ok_def nth_append less_Suc_eq newKeyLock_def)
  qed
  ultimately show ?thesis using tables_find [OF f] inv by (simp add: linv_def)
qed

lemma tables_on_sem:
  "tables_ok slots s \<Longrightarrow> sm_size (f (ls_sems s ! i)) = sm_size (ls_sems s ! i) \<Longrightarrow> tables_ok slots (on_sem i f s)"
  by (cases "i < length (ls_sems s)") (auto simp: tables_ok_def nth_list_update list_update_beyond)

lemma linv_acquired:
  assumes "linv slots s" and r: "runs s t (Waiting r i hs)" and "sem_free (ls_sems s ! i)"
  shows "linv slots (lgoto t (Busy ((r, i) # hs)) (on_sem i keyLock_lock s))"
proof -
  note inv = assms(1) [unfolded linv_def]
  have i: "i < length (ls_sems s)" using sem_of_range wants_runs [OF _ r, of r i] inv by auto
  have "counts_ok (lgoto t (Busy ((r, i) # hs)) (on_sem i keyLock_lock s))"
    using inv assms(3) r holders_lgoto [of t "on_sem i keyLock_lock s" "Busy ((r, i) # hs)"] holders_le [of t s] i
    by (auto simp: counts_ok_def nth_list_update keyLock_lock_def sem_free_def holds_def holders_def)
  moreover have "wants_ok (lgoto t (Busy ((r, i) # hs)) (on_sem i keyLock_lock s))"
    using inv wants_runs [OF _ r] by (intro wants_goto [of s]) auto
  ultimately show ?thesis using inv by (simp add: linv_def tables_on_sem keyLock_lock_def)
qed

lemma linv_released:
  assumes "linv slots s" and r: "runs s t (Busy ((r, i) # hs))"
  shows "linv slots (lgoto t (Busy hs) (on_sem i keyLock_unlock s))"
proof -
  note inv = assms(1) [unfolded linv_def]
  have i: "i < length (ls_sems s)" using sem_of_range wants_runs [OF _ r, of r i] inv by auto
  have "counts_ok (lgoto t (Busy hs) (on_sem i keyLock_unlock s))"
    using inv r holders_lgoto [of t "on_sem i keyLock_unlock s" "Busy hs"] holders_le [of t s] i
    by (fastforce simp: counts_ok_def nth_list_update keyLock_unlock_def holds_def holders_def)
  moreover have "wants_ok (lgoto t (Busy hs) (on_sem i keyLock_unlock s))"
    using inv wants_runs [OF _ r] by (intro wants_goto [of s]) auto
  ultimately show ?thesis using inv by (simp add: linv_def tables_on_sem keyLock_unlock_def)
qed

lemma linv_quiet:
  assumes "linv slots s" and r: "runs s t p" and "held_by q = held_by p" and "\<And>r i. (r, i) \<in> set (wants q) \<Longrightarrow> sem_of s r = Some i"
  shows "linv slots (lgoto t q s)"
  using assms wants_goto [of s s q t] counts_same [of s s t q] by (simp add: linv_def)

lemma linv_step:
  assumes "lstep t s s'" and inv: "linv slots s"
  shows "linv slots s'"
proof -
  have w: "wants_ok s" using inv by (simp add: linv_def)
  show ?thesis using assms(1)
  proof cases
    case call_starts
    then show ?thesis using linv_quiet [OF inv call_starts(2), of "Busy []"] by simp
  next
    case (lock_looked_up hs kind k i s1)
    then show ?thesis using linv_find [OF inv] by simp
  next
    case (slot_wanted hs)
    have "sem_of s r = Some i" if "(r, i) \<in> set (wants (Waiting Slot 0 hs))" for r i
      using that wants_runs [OF w slot_wanted(2)] by (auto simp: sem_of_def [of s Slot])
    then show ?thesis using linv_quiet [OF inv slot_wanted(2), of "Waiting Slot 0 hs"] slot_wanted by simp
  next
    case (acquired r i hs)
    then show ?thesis using linv_acquired [OF inv] by simp
  next
    case (gave_up r i hs)
    then show ?thesis using linv_quiet [OF inv gave_up(2), of "Busy hs"] wants_runs [OF w gave_up(2)] by auto
  next
    case (released r i hs)
    then show ?thesis using linv_released [OF inv] by simp
  next
    case call_ends
    then show ?thesis using linv_quiet [OF inv call_ends(2), of Resting] by simp
  qed
qed

lemma linv_init: "linv slots (linit n slots)"
  by (auto simp: linv_def tables_ok_def wants_ok_def counts_ok_def linit_def table_of_def holders_def holds_def
      sum_list_replicate map_replicate_const split: lkind.splits)

lemma lreach_inv: "lreach n slots s \<Longrightarrow> linv slots s"
  by (induction rule: lreach.induct) (auto intro: linv_init linv_step)

section \<open>Ends of calls\<close>

text \<open>The steps a thread has left when it starts no new acquisition, and such a step.\<close>

fun steps_to_rest :: "lpc \<Rightarrow> nat" where
  "steps_to_rest Resting = 0"
| "steps_to_rest (Busy hs) = 1 + length hs"
| "steps_to_rest (Waiting r i hs) = 3 + length hs"

definition finishes :: "nat \<Rightarrow> lstate \<Rightarrow> lstate \<Rightarrow> bool" where
  "finishes t s s' \<longleftrightarrow> lstep t s s' \<and> ls_pcs s ! t \<noteq> Resting \<and> (\<forall>r i hs. ls_pcs s' ! t \<noteq> Waiting r i hs)"

lemma finishes_decreases: "finishes t s s' \<Longrightarrow> steps_to_rest (ls_pcs s' ! t) < steps_to_rest (ls_pcs s ! t)"
  unfolding finishes_def by (elim conjE lstepE) (auto dest: find_lock_pcs)

lemma others_stay: "lstep t' s s' \<Longrightarrow> t' \<noteq> t \<Longrightarrow> ls_pcs s' ! t = ls_pcs s ! t"
  by (elim lstepE) (auto dest: find_lock_pcs)

lemma can_finish:
  assumes "runs s t p" and "p \<noteq> Resting"
  shows "\<exists>s'. finishes t s s'"
proof (cases p)
  case (Busy hs)
  show ?thesis
  proof (cases hs)
    case Nil
    have "finishes t s (lgoto t Resting s)" using assms Busy Nil by (auto simp: finishes_def intro: call_ends)
    then show ?thesis by blast
  next
    case (Cons h hs')
    have "finishes t s (lgoto t (Busy hs') (on_sem (snd h) keyLock_unlock s))"
      using assms Busy Cons by (cases h) (auto simp: finishes_def intro: released)
    then show ?thesis by blast
  qed
next
  case (Waiting r i hs)
  have "finishes t s (lgoto t (Busy hs) s)" using assms Waiting by (auto simp: finishes_def intro: gave_up)
  then show ?thesis by blast
qed (use assms in simp)

lemma finishes_length: "finishes t s s' \<Longrightarrow> length (ls_pcs s') = length (ls_pcs s)"
  unfolding finishes_def by (elim conjE lstepE) (auto dest: find_lock_pcs)

interpretation fin: runs_down "finishes t" "\<lambda>s. lreach n slots s \<and> t < length (ls_pcs s)"
  "\<lambda>s. steps_to_rest (ls_pcs s ! t)" "\<lambda>s. ls_pcs s ! t = Resting" for t n slots
proof
  show "lreach n slots s' \<and> t < length (ls_pcs s')" if "finishes t s s'" "lreach n slots s \<and> t < length (ls_pcs s)" for s s'
    using that finishes_length [OF that(1)] by (auto simp: finishes_def intro: lreach_step)
  show "steps_to_rest (ls_pcs s' ! t) < steps_to_rest (ls_pcs s ! t)" if "finishes t s s'" for s s'
    using that by (rule finishes_decreases)
  show "ls_pcs s ! t = Resting \<or> (\<exists>s'. finishes t s s')" if "lreach n slots s \<and> t < length (ls_pcs s)" for s
    using that can_finish by blast
qed

lemma rested_free:
  assumes "linv slots s" and "\<forall>p \<in> set (ls_pcs s). p = Resting" and "i < length (ls_sems s)"
  shows "sm_cur (ls_sems s ! i) = 0"
proof -
  have "holders s i = 0" using assms(2) by (auto simp: holders_def holds_def sum_list_eq_0_iff)
  then show ?thesis using assms by (simp add: linv_def counts_ok_def)
qed

section \<open>What one call sees\<close>

definition holds_lock :: "lkind \<Rightarrow> lpc \<Rightarrow> string set" where
  "holds_lock kind p = {k. \<exists>i. (Lock kind k, i) \<in> set (held_by p)}"

definition holds_slots :: "lpc \<Rightarrow> nat" where
  "holds_slots p = length (filter (\<lambda>h. fst h = Slot) (held_by p))"

text \<open>The state of the sequential model that goes with what a thread holds.\<close>

definition sees :: "lpc \<Rightarrow> 'w drv \<Rightarrow> bool" where
  "sees p d \<longleftrightarrow> d_volumeLocks d = holds_lock Volume_Lock p \<and> d_snapshotLocks d = holds_lock Snapshot_Lock p \<and>
     d_mountSlots d = holds_slots p"

definition acquire_res :: "'w env \<Rightarrow> lres \<Rightarrow> ('w, unit res) go" where
  "acquire_res E r = (case r of
     Lock Volume_Lock k \<Rightarrow> acquireVolumeLock E k
   | Lock Snapshot_Lock k \<Rightarrow> acquireSnapshotLock E k
   | Slot \<Rightarrow> acquireMountSlot E)"

definition release_res :: "'w env \<Rightarrow> lres \<Rightarrow> ('w, unit) go" where
  "release_res E r = (case r of
     Lock Volume_Lock k \<Rightarrow> releaseVolumeLock k
   | Lock Snapshot_Lock k \<Rightarrow> releaseSnapshotLock k
   | Slot \<Rightarrow> releaseMountSlot E)"

text \<open>The environment in which a wait comes to this end.\<close>

definition answering :: "'w env \<Rightarrow> nat \<Rightarrow> bool \<Rightarrow> 'w env" where
  "answering E slots b = E\<lparr>env_MountSlots := Some slots, env_LockWait := \<lambda>_ w. (b, w), env_SlotWait := \<lambda>w. (b, w)\<rparr>"

lemma holds_pos: "(r, i) \<in> set (held_by p) \<Longrightarrow> 0 < holds i p"
  by (force simp: holds_def filter_empty_conv)

lemma slots_at_zero:
  assumes "tables_ok slots s" and "wants_ok s" and "p \<in> set (ls_pcs s)"
  shows "holds_slots p = holds 0 p"
proof -
  have "fst h = Slot \<longleftrightarrow> snd h = 0" if "h \<in> set (held_by p)" for h
  proof -
    have "sem_of s (fst h) = Some (snd h)" using held_sem [OF assms(2,3), of "fst h" "snd h"] that by simp
    then show ?thesis using assms(1) by (auto simp: sem_of_def tables_ok_def split: lres.splits)
  qed
  then show ?thesis unfolding holds_slots_def holds_def by (metis (mono_tags, lifting) filter_cong)
qed

text \<open>A key lock that is free is not held; one that is held is held once.\<close>

lemma size_of_lock: "tables_ok slots s \<Longrightarrow> sem_of s (Lock kind k) = Some i \<Longrightarrow> sm_size (ls_sems s ! i) = 1"
  by (auto simp: tables_ok_def sem_of_def)

lemma linv_runs:
  assumes "linv slots s" and "runs s t p"
  shows "tables_ok slots s" and "p \<in> set (ls_pcs s)"
    and "(r, j) \<in> set (held_by p) \<Longrightarrow> sem_of s r = Some j"
    and "sem_of s r = Some i \<Longrightarrow> sm_cur (ls_sems s ! i) = holders s i \<and> holders s i \<le> sm_size (ls_sems s ! i) \<and> holds i p \<le> holders s i"
proof -
  show t: "tables_ok slots s" and p: "p \<in> set (ls_pcs s)" using assms by (auto simp: linv_def)
  show "(r, j) \<in> set (held_by p) \<Longrightarrow> sem_of s r = Some j" using held_sem [OF _ p] assms(1) by (simp add: linv_def)
  show "sem_of s r = Some i \<Longrightarrow> sm_cur (ls_sems s ! i) = holders s i \<and> holders s i \<le> sm_size (ls_sems s ! i) \<and> holds i p \<le> holders s i"
    using sem_of_range [OF t, of r i] holders_le [of t s i] assms by (auto simp: linv_def counts_ok_def)
qed

lemma free_not_held:
  assumes inv: "linv slots s" and r: "runs s t p" and "sem_of s (Lock kind k) = Some i" and "sem_free (ls_sems s ! i)"
  shows "k \<notin> holds_lock kind p"
proof
  assume "k \<in> holds_lock kind p"
  then obtain j where j: "(Lock kind k, j) \<in> set (held_by p)" by (auto simp: holds_lock_def)
  then have "j = i" using linv_runs(3) [OF inv r j] assms(3) by simp
  then have "0 < holds i p" using holds_pos [OF j] by simp
  with linv_runs(4) [OF inv r assms(3)] size_of_lock [OF linv_runs(1) [OF inv r] assms(3)] assms(4)
  show False by (simp add: sem_free_def)
qed

lemma held_once:
  assumes inv: "linv slots s" and r: "runs s t (Busy ((Lock kind k, i) # hs))"
  shows "k \<notin> holds_lock kind (Busy hs)"
proof
  assume "k \<in> holds_lock kind (Busy hs)"
  then obtain j where j: "(Lock kind k, j) \<in> set (held_by (Busy hs))" by (auto simp: holds_lock_def)
  have s: "sem_of s (Lock kind k) = Some i" using linv_runs(3) [OF inv r] by simp
  moreover have "sem_of s (Lock kind k) = Some j" using linv_runs(3) [OF inv r] j by simp
  ultimately have "0 < holds i (Busy hs)" using holds_pos [OF j] by simp
  then have "2 \<le> holds i (Busy ((Lock kind k, i) # hs))" by (simp add: holds_def Suc_le_eq)
  with linv_runs(4) [OF inv r s] size_of_lock [OF linv_runs(1) [OF inv r] s] show False by simp
qed

lemma sees_same: "held_by q = held_by p \<Longrightarrow> sees q d = sees p d"
  by (simp add: sees_def holds_lock_def holds_slots_def)

lemmas seq_defs = acquire_res_def release_res_def acquireVolumeLock_def acquireSnapshotLock_def acquireMountSlot_def
  releaseVolumeLock_def releaseSnapshotLock_def releaseMountSlot_def answering_def sees_def holds_lock_def
  holds_slots_def wp_rules

lemma held_distinct:
  assumes inv: "linv slots s" and r: "runs s t p"
  shows "distinct (filter (\<lambda>r. r \<noteq> Slot) (map fst (held_by p)))"
proof -
  have one: "holds i p \<le> 1" if "sem_of s (Lock kind k) = Some i" for kind k i
    using linv_runs(4) [OF inv r that] size_of_lock [OF linv_runs(1) [OF inv r] that] by simp
  have "distinct (filter (\<lambda>r. r \<noteq> Slot) (map fst hs))"
    if "\<forall>(r, i) \<in> set hs. sem_of s r = Some i" and "\<And>kind k i. sem_of s (Lock kind k) = Some i \<Longrightarrow> length (filter (\<lambda>h. snd h = i) hs) \<le> 1" for hs
    using that
  proof (induction hs)
    case (Cons h hs)
    have "length (filter (\<lambda>h. snd h = i) hs) \<le> 1" if "sem_of s (Lock kind k) = Some i" for kind k i
      using Cons.prems(2) [OF that] by (simp split: if_splits)
    then have IH: "distinct (filter (\<lambda>r. r \<noteq> Slot) (map fst hs))" using Cons.IH Cons.prems(1) by auto
    show ?case
    proof (cases "fst h")
      case (Lock kind k)
      have "snd x \<noteq> snd h" if "x \<in> set hs" for x
        using Cons.prems(1) Cons.prems(2) [of kind k "snd h"] Lock that by (cases h) (auto simp: filter_empty_conv)
      then have "(Lock kind k, j) \<notin> set hs" for j using Cons.prems(1) Lock by (cases h) fastforce
      then show ?thesis using IH Lock by force
    qed (use IH in simp)
  qed simp
  then show ?thesis using linv_runs(3) [OF inv r] one by (auto simp: holds_def)
qed

lemma slots_bounded:
  assumes "linv slots s"
  shows "sum_list (map holds_slots (ls_pcs s)) \<le> slots"
proof -
  have "sum_list (map holds_slots (ls_pcs s)) = holders s 0"
    unfolding holders_def using slots_at_zero [of slots s] assms
    by (intro arg_cong [where f = sum_list] map_cong) (auto simp: linv_def)
  then show ?thesis using assms by (auto simp: linv_def tables_ok_def counts_ok_def)
qed

lemma sees_acquired:
  assumes inv: "linv slots s" and r: "runs s t (Waiting r i hs)" and free: "sem_free (ls_sems s ! i)"
    and d: "sees (Waiting r i hs) d"
  shows "wp (acquire_res (answering E slots True) r) (\<lambda>x d'. x = Inr () \<and> sees (Busy ((r, i) # hs)) d') d"
proof (cases r)
  case (Lock kind k)
  have s: "sem_of s (Lock kind k) = Some i" using wants_runs [OF _ r] inv Lock by (auto simp: linv_def)
  have "k \<notin> holds_lock kind (Waiting r i hs)" by (rule free_not_held [OF inv r s free])
  with d Lock show ?thesis by (cases kind) (auto simp: seq_defs)
next
  case Slot
  have "sem_of s Slot = Some i" using wants_runs [OF _ r] inv Slot by (auto simp: linv_def)
  then have i: "i = 0" and s: "sem_of s Slot = Some 0" by (simp_all add: sem_of_def)
  have "holds_slots (Waiting r i hs) < slots"
    using slots_at_zero [OF linv_runs(1) [OF inv r] _ linv_runs(2) [OF inv r]] linv_runs(4) [OF inv r s]
      linv_runs(1) [OF inv r] free i inv by (simp add: sem_free_def linv_def tables_ok_def)
  with d Slot show ?thesis by (auto simp: seq_defs)
qed

lemma sees_gave_up:
  assumes "sees (Waiting r i hs) d"
  shows "wp (acquire_res (answering E slots False) r) (\<lambda>x d'. x \<noteq> Inr () \<and> sees (Busy hs) d') d"
  using assms by (cases r; cases "case r of Lock kind k \<Rightarrow> kind | Slot \<Rightarrow> Volume_Lock") (auto simp: seq_defs)

lemma sees_released:
  assumes inv: "linv slots s" and r: "runs s t (Busy ((r, i) # hs))" and d: "sees (Busy ((r, i) # hs)) d"
  shows "wp (release_res (answering E slots True) r) (\<lambda>_ d'. sees (Busy hs) d') d"
proof (cases r)
  case (Lock kind k)
  then have "k \<notin> holds_lock kind (Busy hs)" using held_once [OF inv] r by simp
  with d Lock show ?thesis by (cases kind) (auto simp: seq_defs)
next
  case Slot
  with d show ?thesis by (auto simp: seq_defs)
qed

text \<open>One operation of the sequential model, with an acquisition that succeeds just when the wait does.\<close>

definition seq_run :: "'w env \<Rightarrow> nat \<Rightarrow> 'w drv \<Rightarrow> 'w drv \<Rightarrow> bool" where
  "seq_run E slots d d' \<longleftrightarrow> d' = d \<or>
     (\<exists>r b. wp (acquire_res (answering E slots b) r) (\<lambda>x e. e = d' \<and> (x = Inr () \<longleftrightarrow> b)) d) \<or>
     (\<exists>r. wp (release_res (answering E slots True) r) (\<lambda>_ e. e = d') d)"

lemma seq_runI:
  "sees q d \<Longrightarrow> \<exists>d'. seq_run E slots d d' \<and> sees q d'"
  "wp (acquire_res (answering E slots b) r) (\<lambda>x d'. (x = Inr ()) = b \<and> sees q d') d \<Longrightarrow> \<exists>d'. seq_run E slots d d' \<and> sees q d'"
  "wp (release_res (answering E slots True) r) (\<lambda>_ d'. sees q d') d \<Longrightarrow> \<exists>d'. seq_run E slots d d' \<and> sees q d'"
  unfolding seq_run_def wp_iff by blast+

lemma own_step_seen:
  assumes inv: "linv slots s" and st: "lstep t s s'" and t: "t < length (ls_pcs s)" and d: "sees (ls_pcs s ! t) d"
  shows "\<exists>d'. seq_run E slots d d' \<and> sees (ls_pcs s' ! t) d'"
  using st
proof cases
  case (acquired r i hs)
  then have "wp (acquire_res (answering E slots True) r) (\<lambda>x d'. (x = Inr ()) = True \<and> sees (ls_pcs s' ! t) d') d"
    using sees_acquired [OF inv acquired(2,3), of d E] d by simp
  then show ?thesis by (rule seq_runI(2))
next
  case (gave_up r i hs)
  then have "wp (acquire_res (answering E slots False) r) (\<lambda>x d'. (x = Inr ()) = False \<and> sees (ls_pcs s' ! t) d') d"
    using sees_gave_up [of r i hs d E slots] d by simp
  then show ?thesis by (rule seq_runI(2))
next
  case (released r i hs)
  then have "wp (release_res (answering E slots True) r) (\<lambda>_ d'. sees (ls_pcs s' ! t) d') d"
    using sees_released [OF inv released(2), of d E] d by simp
  then show ?thesis by (rule seq_runI(3))
next
  case (lock_looked_up hs kind k i s1)
  have "ls_pcs s' ! t = Waiting (Lock kind k) i hs"
    using lock_looked_up(1,2) find_lock_pcs [OF lock_looked_up(3)] by simp
  then show ?thesis using sees_same [of "Waiting (Lock kind k) i hs" "Busy hs" d] lock_looked_up(2) d
    by (intro seq_runI(1)) simp
next
  case (slot_wanted hs)
  then show ?thesis using sees_same [of "Waiting Slot 0 hs" "Busy hs" d] d by (intro seq_runI(1)) simp
next
  case call_starts
  then show ?thesis using sees_same [of "Busy []" Resting d] d by (intro seq_runI(1)) simp
next
  case call_ends
  then show ?thesis using sees_same [of Resting "Busy []" d] d by (intro seq_runI(1)) simp
qed

section \<open>Properties\<close>

text \<open>C4. In every interleaving of any number of calls, no two calls hold the same volume or snapshot lock, no
  call holds one twice, no more mount slots are in use than \<open>NewCSIDriver\<close> made, and no semaphore is released that
  is not held.\<close>

theorem locks_exclude:
  assumes "lreach n slots s" and "t < length (ls_pcs s)" and "u < length (ls_pcs s)" and "t \<noteq> u"
  shows "holds_lock kind (ls_pcs s ! t) \<inter> holds_lock kind (ls_pcs s ! u) = {} \<and>
    distinct (filter (\<lambda>r. r \<noteq> Slot) (map fst (held_by (ls_pcs s ! t)))) \<and>
    sum_list (map holds_slots (ls_pcs s)) \<le> slots \<and>
    (\<forall>(r, i) \<in> set (held_by (ls_pcs s ! t)). 0 < sm_cur (ls_sems s ! i))"
proof -
  have inv: "linv slots s" using assms(1) by (rule lreach_inv)
  have r: "runs s v (ls_pcs s ! v)" if "v \<in> {t, u}" for v using that assms(2,3) by auto
  have "False" if "(Lock kind k, i) \<in> set (held_by (ls_pcs s ! t))" and "(Lock kind k, j) \<in> set (held_by (ls_pcs s ! u))" for k i j
    using that linv_runs(3) [OF inv r, of t "Lock kind k" i] linv_runs(3) [OF inv r, of u "Lock kind k" j]
      holds_pos [OF that(1)] holds_pos [OF that(2)] holders_two [OF assms(2-4), of i]
      linv_runs(4) [OF inv r, of t "Lock kind k" i] size_of_lock [OF linv_runs(1) [OF inv r], of t kind k i] by simp
  then have "holds_lock kind (ls_pcs s ! t) \<inter> holds_lock kind (ls_pcs s ! u) = {}" by (auto simp: holds_lock_def)
  moreover have "distinct (filter (\<lambda>r. r \<noteq> Slot) (map fst (held_by (ls_pcs s ! t))))"
    using held_distinct [OF inv r] by simp
  moreover have "sum_list (map holds_slots (ls_pcs s)) \<le> slots" by (rule slots_bounded [OF inv])
  moreover have "0 < sm_cur (ls_sems s ! i)" if "(q, i) \<in> set (held_by (ls_pcs s ! t))" for q i
    using holds_pos [OF that] linv_runs(3,4) [OF inv r, of t q i] that by simp
  ultimately show ?thesis by blast
qed

text \<open>Two calls on different volumes of one share: the first holds the share's lock, the second waits for it.\<close>

definition busy_locks :: lstate where
  "busy_locks = \<lparr>ls_pcs = [Busy [(Lock Volume_Lock ''share'', 2), (Lock Volume_Lock ''pvc-1'', 1)],
       Waiting (Lock Volume_Lock ''share'') 2 [(Lock Volume_Lock ''pvc-2'', 3)]],
     ls_volumeLocks = [''pvc-1'' \<mapsto> 1, ''share'' \<mapsto> 2, ''pvc-2'' \<mapsto> 3], ls_snapshotLocks = Map.empty,
     ls_sems = [\<lparr>sm_size = 10, sm_cur = 0\<rparr>, \<lparr>sm_size = 1, sm_cur = 1\<rparr>, \<lparr>sm_size = 1, sm_cur = 1\<rparr>,
       \<lparr>sm_size = 1, sm_cur = 1\<rparr>]\<rparr>"

text \<open>Acquiring a volume lock nobody has asked for before.\<close>

definition locked_new :: "nat \<Rightarrow> string \<Rightarrow> lstate \<Rightarrow> lstate" where
  "locked_new t k s = (let i = length (ls_sems s) in
     s\<lparr>ls_pcs := (ls_pcs s)[t := Busy ((Lock Volume_Lock k, i) # held_by (ls_pcs s ! t))],
       ls_volumeLocks := (ls_volumeLocks s)(k \<mapsto> i),
       ls_sems := ls_sems s @ [\<lparr>sm_size = 1, sm_cur = 1\<rparr>]\<rparr>)"

lemma locked_new_reach:
  assumes "lreach n slots s" and "runs s t (Busy hs)" and "ls_volumeLocks s k = None"
  shows "lreach n slots (locked_new t k s)"
proof -
  let ?i = "length (ls_sems s)"
  let ?s1 = "s\<lparr>ls_sems := ls_sems s @ [newKeyLock], ls_volumeLocks := (ls_volumeLocks s)(k \<mapsto> ?i)\<rparr>"
  let ?s2 = "lgoto t (Waiting (Lock Volume_Lock k) ?i hs) ?s1"
  have "find_lock Volume_Lock k s = (?i, ?s1)"
    using assms(3) by (simp add: find_lock_def table_of_def set_table_def Let_def)
  then have r: "lreach n slots ?s2" by (rule lreach_step [OF assms(1) lock_looked_up [OF assms(2)]])
  have "lreach n slots (lgoto t (Busy ((Lock Volume_Lock k, ?i) # hs)) (on_sem ?i keyLock_lock ?s2))"
    by (rule lreach_step [OF r acquired]) (use assms(2) in \<open>simp_all add: sem_free_def newKeyLock_def\<close>)
  also have "lgoto t (Busy ((Lock Volume_Lock k, ?i) # hs)) (on_sem ?i keyLock_lock ?s2) = locked_new t k s"
    using assms(2) by (cases s) (simp add: locked_new_def lgoto_def on_sem_def keyLock_lock_def newKeyLock_def Let_def)
  finally show ?thesis .
qed

lemma busy_locks_reach: "lreach 2 10 busy_locks"
proof -
  let ?s0 = "lgoto 1 (Busy []) (lgoto 0 (Busy []) (linit 2 10))"
  have "lreach 2 10 (lgoto 0 (Busy []) (linit 2 10))"
    by (rule lreach_step [OF lreach_init call_starts]) (simp add: linit_def)
  then have "lreach 2 10 ?s0" by (rule lreach_step [OF _ call_starts]) (simp add: linit_def)
  then have "lreach 2 10 (locked_new 1 ''pvc-2'' (locked_new 0 ''share'' (locked_new 0 ''pvc-1'' ?s0)))"
    by (intro locked_new_reach) (simp_all add: linit_def locked_new_def Let_def lgoto_def)
  then have "lreach 2 10 (lgoto 1 (Waiting (Lock Volume_Lock ''share'') 2 [(Lock Volume_Lock ''pvc-2'', 3)])
      (locked_new 1 ''pvc-2'' (locked_new 0 ''share'' (locked_new 0 ''pvc-1'' ?s0))))"
    by (rule lreach_step [OF _ lock_looked_up])
      (simp_all add: linit_def locked_new_def Let_def lgoto_def find_lock_def table_of_def)
  then show ?thesis by (simp add: busy_locks_def linit_def locked_new_def Let_def lgoto_def numeral_2_eq_2 numeral_3_eq_3)
qed

theorem locks_exclude_witness:
  "holds_lock Volume_Lock (ls_pcs busy_locks ! 0) \<inter> holds_lock Volume_Lock (ls_pcs busy_locks ! 1) = {} \<and>
   ''share'' \<in> holds_lock Volume_Lock (ls_pcs busy_locks ! 0)"
  using locks_exclude [OF busy_locks_reach, of 0 1 Volume_Lock] by (simp add: busy_locks_def holds_lock_def)

text \<open>C9. A call always comes to an end, whatever the others do: from every reachable state a thread can run on its own
  until it rests, and at most so many steps as it holds and waits for, and one or two more, that begin no new wait; no
  step of another thread changes how many it has left; and when all threads rest every semaphore is free.\<close>

theorem calls_end:
  assumes "lreach n slots s" and "t < length (ls_pcs s)"
  shows "(\<exists>s'. (finishes t)\<^sup>*\<^sup>* s s' \<and> ls_pcs s' ! t = Resting) \<and>
    (\<forall>k s'. (finishes t ^^ k) s s' \<longrightarrow> k + steps_to_rest (ls_pcs s' ! t) \<le> steps_to_rest (ls_pcs s ! t)) \<and>
    (\<forall>u s'. u \<noteq> t \<longrightarrow> lstep u s s' \<longrightarrow> steps_to_rest (ls_pcs s' ! t) = steps_to_rest (ls_pcs s ! t)) \<and>
    ((\<forall>p \<in> set (ls_pcs s). p = Resting) \<longrightarrow> (\<forall>m \<in> set (ls_sems s). sm_cur m = 0))"
proof (intro conjI allI impI)
  show "\<exists>s'. (finishes t)\<^sup>*\<^sup>* s s' \<and> ls_pcs s' ! t = Resting" using fin.run_ends assms by blast
next
  fix k s' assume "(finishes t ^^ k) s s'"
  then show "k + steps_to_rest (ls_pcs s' ! t) \<le> steps_to_rest (ls_pcs s ! t)" using fin.steps_bounded assms by blast
next
  fix u s' assume "u \<noteq> t" and "lstep u s s'"
  then show "steps_to_rest (ls_pcs s' ! t) = steps_to_rest (ls_pcs s ! t)" using others_stay by metis
next
  assume "\<forall>p \<in> set (ls_pcs s). p = Resting"
  then show "\<forall>m \<in> set (ls_sems s). sm_cur m = 0"
    using rested_free [OF lreach_inv [OF assms(1)]] by (auto simp: in_set_conv_nth)
qed

theorem calls_end_witness: "\<exists>s'. (finishes 1)\<^sup>*\<^sup>* busy_locks s' \<and> ls_pcs s' ! 1 = Resting"
  using calls_end [OF busy_locks_reach, of 1] by (simp add: busy_locks_def)

text \<open>C12. Each call on its own runs as the sequential model says: whatever step any thread takes, what a call
  holds changes only by one operation of the sequential model on that call's state, an acquisition that
  succeeds just when the wait for it does.\<close>

theorem call_sees_sequential:
  assumes "lreach n slots s" and "lstep u s s'" and "t < length (ls_pcs s)" and "sees (ls_pcs s ! t) d"
  shows "\<exists>d'. seq_run E slots d d' \<and> sees (ls_pcs s' ! t) d'"
proof (cases "u = t")
  case True
  then show ?thesis using own_step_seen [OF lreach_inv [OF assms(1)]] assms(2-4) by simp
next
  case False
  then show ?thesis using others_stay [OF assms(2)] assms(4) by (intro seq_runI(1)) simp
qed

theorem call_sees_sequential_witness:
  "\<exists>d'. seq_run sample_env 10 ((init_drv 0)\<lparr>d_volumeLocks := {''pvc-2''}\<rparr>) d' \<and> d_volumeLocks d' = {''pvc-2''}"
proof -
  let ?s' = "lgoto 1 (Busy [(Lock Volume_Lock ''pvc-2'', 3)]) busy_locks"
  have "lstep 1 busy_locks ?s'" by (rule gave_up) (simp add: busy_locks_def)
  from call_sees_sequential [OF busy_locks_reach this, of 1 "(init_drv 0)\<lparr>d_volumeLocks := {''pvc-2''}\<rparr>" sample_env]
  show ?thesis by (simp add: busy_locks_def lgoto_def sees_def holds_lock_def holds_slots_def init_drv_def) blast
qed

end
