(* ===== verification/Inflight_Protocol.thy ===== *)
theory Inflight_Protocol
  imports Host
begin

text \<open>
  System calls that cannot be interrupted: \<open>beginMount\<close> (\<open>pkg/common/host_utils.go\<close>) and \<open>probeVolumePath\<close>
  (\<open>pkg/driver/node.go\<close>) run them in a goroutine of their own and register it under the path, so that a later
  call for the same path waits for the one under way. A step relation over any number of callers and
  goroutines; \<open>'r\<close> is what the system call returns, the error of a mount or the answers of a probe.

  A goroutine makes its system call, then leaves the registry, then closes its channel: three steps, between
  which callers run. A system call may never return, and a caller may give up at any time.
\<close>

section \<open>Attempts\<close>

datatype 'r phase =
    In_Syscall
  | Returned 'r
  | Unregistered 'r
  | Closed 'r

record 'r attempt =
  at_target :: string
  at_phase :: "'r phase"

datatype 'r caller =
    Outside
  | Waits string nat
  | Told string 'r

record 'r istate =
  is_callers :: "'r caller list"
  is_registry :: "string \<rightharpoonup> nat"
  is_attempts :: "'r attempt list"

definition set_phase :: "nat \<Rightarrow> 'r phase \<Rightarrow> 'r istate \<Rightarrow> 'r istate" where
  "set_phase a p s = s\<lparr>is_attempts := (is_attempts s)[a := (is_attempts s ! a)\<lparr>at_phase := p\<rparr>]\<rparr>"

definition set_caller :: "nat \<Rightarrow> 'r caller \<Rightarrow> 'r istate \<Rightarrow> 'r istate" where
  "set_caller t c s = s\<lparr>is_callers := (is_callers s)[t := c]\<rparr>"

text \<open>Under the mutex of the registry: join the attempt for the path, or register a new one and start it.\<close>

definition begin_attempt :: "string \<Rightarrow> 'r istate \<Rightarrow> nat \<times> 'r istate" where
  "begin_attempt path s =
     (case is_registry s path of
        Some a \<Rightarrow> (a, s)
      | None \<Rightarrow> let a = length (is_attempts s) in
          (a, s\<lparr>is_registry := (is_registry s)(path \<mapsto> a),
                is_attempts := is_attempts s @ [\<lparr>at_target = path, at_phase = In_Syscall\<rparr>]\<rparr>))"

abbreviation phase_at :: "'r istate \<Rightarrow> nat \<Rightarrow> 'r phase \<Rightarrow> bool" where
  "phase_at s a p \<equiv> a < length (is_attempts s) \<and> at_phase (is_attempts s ! a) = p"

abbreviation caller_at :: "'r istate \<Rightarrow> nat \<Rightarrow> 'r caller \<Rightarrow> bool" where
  "caller_at s t c \<equiv> t < length (is_callers s) \<and> is_callers s ! t = c"

section \<open>Steps\<close>

inductive istep :: "'r istate \<Rightarrow> 'r istate \<Rightarrow> bool" where
  begins: "caller_at s t Outside \<Longrightarrow> begin_attempt path s = (a, s1) \<Longrightarrow>
    istep s (set_caller t (Waits path a) s1)"
| syscall_returns: "phase_at s a In_Syscall \<Longrightarrow> istep s (set_phase a (Returned r) s)"
| unregisters: "phase_at s a (Returned r) \<Longrightarrow>
    istep s (set_phase a (Unregistered r) (s\<lparr>is_registry := (is_registry s)(at_target (is_attempts s ! a) := None)\<rparr>))"
| closes: "phase_at s a (Unregistered r) \<Longrightarrow> istep s (set_phase a (Closed r) s)"
| is_told: "caller_at s t (Waits path a) \<Longrightarrow> phase_at s a (Closed r) \<Longrightarrow>
    istep s (set_caller t (Told path r) s)"
| times_out: "caller_at s t (Waits path a) \<Longrightarrow> istep s (set_caller t Outside s)"
| leaves: "caller_at s t (Told path r) \<Longrightarrow> istep s (set_caller t Outside s)"

inductive_cases istepE: "istep s s'"

definition iinit :: "nat \<Rightarrow> 'r istate" where
  "iinit n = \<lparr>is_callers = replicate n Outside, is_registry = Map.empty, is_attempts = []\<rparr>"

inductive ireach :: "nat \<Rightarrow> 'r istate \<Rightarrow> bool" for n where
  ireach_init: "ireach n (iinit n)"
| ireach_step: "ireach n s \<Longrightarrow> istep s s' \<Longrightarrow> ireach n s'"

section \<open>Invariant\<close>

fun registered :: "'r phase \<Rightarrow> bool" where
  "registered In_Syscall = True"
| "registered (Returned r) = True"
| "registered _ = False"

text \<open>The registry holds exactly the attempts that have not left it.\<close>

definition registry_ok :: "'r istate \<Rightarrow> bool" where
  "registry_ok s \<longleftrightarrow> (\<forall>path a. is_registry s path = Some a \<longleftrightarrow>
     a < length (is_attempts s) \<and> at_target (is_attempts s ! a) = path \<and> registered (at_phase (is_attempts s ! a)))"

text \<open>A caller waits for an attempt on its own path, or was told the result of one.\<close>

fun caller_ok :: "'r istate \<Rightarrow> 'r caller \<Rightarrow> bool" where
  "caller_ok s Outside = True"
| "caller_ok s (Waits path a) = (a < length (is_attempts s) \<and> at_target (is_attempts s ! a) = path)"
| "caller_ok s (Told path r) = (\<exists>a < length (is_attempts s). at_target (is_attempts s ! a) = path \<and>
     at_phase (is_attempts s ! a) = Closed r)"

definition iinv :: "'r istate \<Rightarrow> bool" where
  "iinv s \<longleftrightarrow> registry_ok s \<and> (\<forall>c \<in> set (is_callers s). caller_ok s c)"

lemma set_sel [simp]:
  "is_callers (set_phase a p s) = is_callers s" "is_registry (set_phase a p s) = is_registry s"
  "is_attempts (set_phase a p s) = (is_attempts s)[a := (is_attempts s ! a)\<lparr>at_phase := p\<rparr>]"
  "is_callers (set_caller t c s) = (is_callers s)[t := c]" "is_registry (set_caller t c s) = is_registry s"
  "is_attempts (set_caller t c s) = is_attempts s"
  by (simp_all add: set_phase_def set_caller_def)

text \<open>Attempts keep their path, and a closed one its result.\<close>

definition grows :: "'r istate \<Rightarrow> 'r istate \<Rightarrow> bool" where
  "grows s s' \<longleftrightarrow> length (is_attempts s) \<le> length (is_attempts s') \<and>
     (\<forall>a < length (is_attempts s). at_target (is_attempts s' ! a) = at_target (is_attempts s ! a) \<and>
       (\<forall>r. at_phase (is_attempts s ! a) = Closed r \<longrightarrow> at_phase (is_attempts s' ! a) = Closed r))"

lemma caller_grows: "grows s s' \<Longrightarrow> caller_ok s c \<Longrightarrow> caller_ok s' c"
  by (cases c) (auto simp: grows_def, metis order_less_le_trans)

lemma istep_grows: "istep s s' \<Longrightarrow> grows s s'"
  by (elim istepE) (auto simp: grows_def begin_attempt_def nth_append nth_list_update Let_def split: option.splits)

lemma registry_begin:
  assumes ok: "registry_ok s" and b: "begin_attempt path s = (a, s1)"
  shows "registry_ok s1"
proof (cases "is_registry s path")
  case None
  then have "\<not> registered (at_phase (is_attempts s ! a'))"
    if "a' < length (is_attempts s)" "at_target (is_attempts s ! a') = path" for a'
    using ok that by (metis option.distinct(1) registry_ok_def)
  then show ?thesis using ok b None
    by (auto simp: registry_ok_def begin_attempt_def Let_def nth_append less_Suc_eq split: if_splits)
qed (use ok b in \<open>simp add: begin_attempt_def\<close>)

lemma registry_step:
  assumes "istep s s'" and ok: "registry_ok s"
  shows "registry_ok s'"
  using assms(1)
proof cases
  case (begins t path a s1)
  then show ?thesis using registry_begin [OF ok begins(3)] by (simp add: registry_ok_def)
next
  case (unregisters a r)
  have "a' = a" if "a' < length (is_attempts s)" "at_target (is_attempts s ! a') = at_target (is_attempts s ! a)"
      "registered (at_phase (is_attempts s ! a'))" for a'
    using ok that unregisters(2) unfolding registry_ok_def by (metis option.inject registered.simps(2))
  then show ?thesis using ok unregisters by (auto simp: registry_ok_def nth_list_update)
qed (use ok in \<open>auto simp: registry_ok_def nth_list_update\<close>)

lemma caller_step:
  assumes "istep s s'" and "registry_ok s" and "\<forall>c \<in> set (is_callers s). caller_ok s c"
  shows "\<forall>c \<in> set (is_callers s'). caller_ok s' c"
proof -
  have old: "caller_ok s' c" if "c \<in> set (is_callers s)" for c
    using caller_grows [OF istep_grows [OF assms(1)]] assms(3) that by blast
  have new: "\<forall>c \<in> set ((is_callers s)[t := c']). caller_ok s' c" if "caller_ok s' c'" for t c'
    using old that set_update_subset_insert [of "is_callers s" t c'] by auto
  show ?thesis using assms(1)
  proof cases
    case (begins t path a s1)
    have "caller_ok s1 (Waits path a)" and "is_callers s1 = is_callers s"
      using begins(3) assms(2) by (auto simp: begin_attempt_def registry_ok_def Let_def split: option.splits)
    then show ?thesis using begins(1) new [of "Waits path a" t] by (simp add: set_caller_def)
  next
    case (is_told t path a r)
    have "Waits path a \<in> set (is_callers s)" using is_told(2) by (metis nth_mem)
    then have "at_target (is_attempts s ! a) = path" using assms(3) by force
    then have "caller_ok s' (Told path r)" using is_told by (auto simp: set_caller_def)
    then show ?thesis using is_told(1) new [of "Told path r" t] by (simp add: set_caller_def)
  qed (use old new [of Outside] in \<open>auto simp: set_caller_def set_phase_def\<close>)
qed

lemma ireach_inv: "ireach n s \<Longrightarrow> iinv s"
proof (induction rule: ireach.induct)
  case ireach_init
  then show ?case by (simp add: iinv_def registry_ok_def iinit_def)
next
  case (ireach_step s s')
  then show ?case using registry_step caller_step unfolding iinv_def by blast
qed

section \<open>Properties\<close>

text \<open>The attempts whose system call has not returned.\<close>

definition in_syscall :: "'r istate \<Rightarrow> nat set" where
  "in_syscall s = {a. phase_at s a In_Syscall}"

text \<open>C18. At most one uninterruptible system call runs per path, however many callers retry it and whatever they
  do: two attempts in their system call are on different paths, so there are at most as many stuck goroutines as
  paths; a caller waits only for an attempt on its own path and is told only the result of one; and each caller
  can leave at any time.\<close>

theorem one_attempt_per_path:
  assumes "ireach n s"
  shows "inj_on (\<lambda>a. at_target (is_attempts s ! a)) (in_syscall s) \<and>
    (\<forall>t path a. caller_at s t (Waits path a) \<longrightarrow> at_target (is_attempts s ! a) = path \<and> a < length (is_attempts s) \<and>
       istep s (set_caller t Outside s)) \<and>
    (\<forall>t path r. caller_at s t (Told path r) \<longrightarrow>
       (\<exists>a < length (is_attempts s). at_target (is_attempts s ! a) = path \<and> at_phase (is_attempts s ! a) = Closed r))"
proof -
  have inv: "registry_ok s" "\<forall>c \<in> set (is_callers s). caller_ok s c" using ireach_inv [OF assms] by (simp_all add: iinv_def)
  have "is_registry s (at_target (is_attempts s ! a)) = Some a" if "a \<in> in_syscall s" for a
    using inv(1) that by (auto simp: registry_ok_def in_syscall_def)
  then have "inj_on (\<lambda>a. at_target (is_attempts s ! a)) (in_syscall s)" by (metis (lifting) inj_onI option.inject)
  moreover have ok: "caller_ok s c" if "caller_at s t c" for t c using inv(2) that by (metis nth_mem)
  have "at_target (is_attempts s ! a) = path \<and> a < length (is_attempts s) \<and> istep s (set_caller t Outside s)"
    if "caller_at s t (Waits path a)" for t path a
    using ok [OF that] times_out [OF that] by simp
  moreover have "\<exists>a < length (is_attempts s). at_target (is_attempts s ! a) = path \<and> at_phase (is_attempts s ! a) = Closed r"
    if "caller_at s t (Told path r)" for t path r
    using ok [OF that] by simp
  ultimately show ?thesis by blast
qed

text \<open>Two retries of one mount while its system call does not return.\<close>

definition stuck_mount :: "unit res istate" where
  "stuck_mount = \<lparr>is_callers = [Outside, Waits ''/d'' 0], is_registry = [''/d'' \<mapsto> 0],
     is_attempts = [\<lparr>at_target = ''/d'', at_phase = In_Syscall\<rparr>]\<rparr>"

lemma stuck_mount_reach: "ireach 2 stuck_mount"
proof -
  let ?s1 = "(iinit 2 :: unit res istate)\<lparr>is_registry := [''/d'' \<mapsto> 0], is_attempts := [\<lparr>at_target = ''/d'', at_phase = In_Syscall\<rparr>]\<rparr>"
  let ?s2 = "set_caller 0 Outside (set_caller 0 (Waits ''/d'' 0) ?s1)"
  have "ireach 2 (set_caller 0 (Waits ''/d'' 0) ?s1)"
    by (rule ireach_step [OF ireach_init begins]) (simp_all add: iinit_def begin_attempt_def Let_def)
  then have "ireach 2 ?s2" by (rule ireach_step [OF _ times_out]) (simp add: iinit_def)
  then have "ireach 2 (set_caller 1 (Waits ''/d'' 0) ?s2)"
    by (rule ireach_step [OF _ begins]) (simp_all add: iinit_def begin_attempt_def)
  then show ?thesis by (simp add: stuck_mount_def iinit_def set_caller_def numeral_2_eq_2)
qed

theorem one_attempt_per_path_witness:
  "at_target (is_attempts stuck_mount ! 0) = ''/d'' \<and> istep stuck_mount (set_caller 1 Outside stuck_mount) \<and> in_syscall stuck_mount = {0}"
proof -
  have "caller_at stuck_mount 1 (Waits ''/d'' 0)" by (simp add: stuck_mount_def)
  with one_attempt_per_path [OF stuck_mount_reach] show ?thesis by (auto simp: stuck_mount_def in_syscall_def)
qed

end
