(* ===== verification/Service.thy ===== *)
theory Service
  imports Controller_Snapshots Node
begin

text \<open>
  The driver as a service: the calls of the CSI controller and node services that reach it, one after
  another, in any order and with any arguments, against an outside world that may change in between.
  Two promises hold across all of them: between calls the driver holds nothing, and a snapshot name
  once used keeps its snapshot.
\<close>

section \<open>Calls\<close>

datatype rpc =
    Rpc_CreateVolume CreateVolumeRequest
  | Rpc_DeleteVolume string
  | Rpc_ControllerExpandVolume string "CapacityRange option"
  | Rpc_ValidateVolumeCapabilities string "VolumeCapability list" smap
  | Rpc_ListVolumes int
  | Rpc_GetCapacity "VolumeCapability list" smap
  | Rpc_CreateSnapshot string string
  | Rpc_DeleteSnapshot string
  | Rpc_ListSnapshots int string string
  | Rpc_NodeGetInfo
  | Rpc_NodeGetVolumeStats string string
  | Rpc_NodeStageVolume string string "VolumeCapability option" smap
  | Rpc_NodeUnstageVolume string string
  | Rpc_NodePublishVolume string string string "VolumeCapability option" smap bool
  | Rpc_NodeUnpublishVolume string string
  | Rpc_NodeExpandVolume string string "CapacityRange option" "VolumeCapability option"

definition answered :: "('w, 'a) go \<Rightarrow> ('w, unit) go" where
  "answered m = State_Monad.bind m (\<lambda>_. ret ())"

fun serve :: "'w env \<Rightarrow> rpc \<Rightarrow> ('w, unit) go" where
  "serve E (Rpc_CreateVolume req) = answered (CreateVolume E req)"
| "serve E (Rpc_DeleteVolume v) = answered (DeleteVolume E v)"
| "serve E (Rpc_ControllerExpandVolume v cr) = answered (ControllerExpandVolume E v cr)"
| "serve E (Rpc_ValidateVolumeCapabilities v caps ps) = answered (ValidateVolumeCapabilities E v caps ps)"
| "serve E (Rpc_ListVolumes m) = answered (Controller_ListVolumes E m)"
| "serve E (Rpc_GetCapacity caps ps) = answered (GetCapacity E caps ps)"
| "serve E (Rpc_CreateSnapshot n v) = answered (CreateSnapshot E n v)"
| "serve E (Rpc_DeleteSnapshot i) = answered (DeleteSnapshot E i)"
| "serve E (Rpc_ListSnapshots m i v) = answered (Controller_ListSnapshots E m i v)"
| "serve E Rpc_NodeGetInfo = answered (NodeGetInfo E)"
| "serve E (Rpc_NodeGetVolumeStats v p) = answered (NodeGetVolumeStats E v p)"
| "serve E (Rpc_NodeStageVolume v st cap c) = answered (NodeStageVolume E v st cap c)"
| "serve E (Rpc_NodeUnstageVolume v st) = answered (NodeUnstageVolume E v st)"
| "serve E (Rpc_NodePublishVolume v st t cap c r) = answered (NodePublishVolume E v st t cap c r)"
| "serve E (Rpc_NodeUnpublishVolume v t) = answered (NodeUnpublishVolume E v t)"
| "serve E (Rpc_NodeExpandVolume v p cr cap) = answered (NodeExpandVolume E v p cr cap)"

text \<open>The states after any calls; the world moves on by itself between them.\<close>

inductive served :: "'w env \<Rightarrow> 'w drv \<Rightarrow> 'w drv \<Rightarrow> bool" for E s where
  served_refl: "served E s s"
| served_call: "served E s t \<Longrightarrow> served E s (snd (run_state (serve E c) t))"
| served_world: "served E s t \<Longrightarrow> served E s (t\<lparr>d_world := w\<rparr>)"

section \<open>What a call leaves behind\<close>

definition thaws :: "'w drv \<Rightarrow> 'w drv \<Rightarrow> bool" where
  "thaws s s' \<longleftrightarrow> still_frozen s' \<subseteq> still_frozen s"

interpretation th: state_frame thaws
  by unfold_locales (auto simp: thaws_def)

lemma extends_thaws: "state_io_rel extends_trace m \<Longrightarrow> state_io_rel thaws m"
  by (auto simp: state_io_rel_def thaws_def dest: extends_trace_frozen)

lemma new_snapshot_thaws: "state_io_rel thaws (new_snapshot E n v)"
proof -
  have "state_io_rel thaws (State_Monad.bind (FreezeForVolumeHandle E v)
      (\<lambda>frozen. deferring (Unfreeze E frozen) (take_snapshot E n v b)))" for b
    unfolding keep_iff_wp thaws_def by (intro allI freeze_body_unfreeze take_snapshot_keeps(4))
  moreover have "state_io_rel thaws (take_snapshot E n v b)" for b
    by (rule extends_thaws) (rule take_snapshot_keeps(4))
  moreover have "state_io_rel thaws (source_is_file E v)"
    by (rule extends_thaws) (rule source_is_file_keeps(4))
  ultimately show ?thesis
    unfolding new_snapshot_def by (intro th.keep_tryE th.keep_if) simp_all
qed

lemma CreateSnapshot_thaws: "state_io_rel thaws (CreateSnapshot E n v)"
proof -
  have "state_io_rel thaws (acquireSnapshotLock E n)" "state_io_rel thaws (releaseSnapshotLock n)"
    by (rule extends_thaws, rule lock_ops_keep, simp)+
  then show ?thesis unfolding CreateSnapshot_def with_snapshot_lock_def
    by (intro frame_intros new_snapshot_thaws)
qed

definition tidy :: "'w drv \<Rightarrow> 'w drv \<Rightarrow> bool" where
  "tidy s s' \<longleftrightarrow> same_locks s s' \<and> same_refs s s' \<and> same_slots s s' \<and> thaws s s'"

lemma quiet_tidy: "state_io_rel quiet m \<Longrightarrow> state_io_rel tidy m"
  by (auto simp: state_io_rel_def tidy_def quiet_def thaws_def dest: extends_trace_frozen)

lemma CreateSnapshot_tidy: "state_io_rel tidy (CreateSnapshot E n v)"
  using CreateSnapshot_keeps [of E n v] CreateSnapshot_thaws [of E n v]
  by (auto simp: state_io_rel_def tidy_def)

lemma answered_keep: "state_io_rel R m \<Longrightarrow> state_io_rel R (answered m)"
  by (simp add: keep_iff_wp answered_def wp_bind wp_return [abs_def])

lemmas rpc_quiet = controller_volume_quiet controller_snapshot_quiet node_quiet

lemma serve_tidy: "state_io_rel tidy (serve E c)"
  by (cases c) (simp_all add: answered_keep CreateSnapshot_tidy quiet_tidy rpc_quiet)

definition idle :: "'w drv \<Rightarrow> bool" where
  "idle s \<longleftrightarrow> d_volumeLocks s = {} \<and> d_snapshotLocks s = {} \<and> d_mountLocks s = {} \<and>
     d_mountRefs s = Map.empty \<and> d_mountSlots s = 0 \<and> still_frozen s = {}"

lemma tidy_idle: "tidy s s' \<Longrightarrow> idle s \<Longrightarrow> idle s'"
  by (auto simp: tidy_def idle_def same_locks_def same_refs_def same_slots_def thaws_def refs_ok_def)

lemma served_idle: "served E s t \<Longrightarrow> idle s \<Longrightarrow> idle t"
proof (induction rule: served.induct)
  case (served_call t c)
  then show ?case using serve_tidy [of E c] by (auto simp: state_io_rel_def intro: tidy_idle)
qed (auto simp: idle_def)

section \<open>Snapshot names\<close>

definition other_snapshots :: "string \<Rightarrow> 'w drv \<Rightarrow> 'w drv \<Rightarrow> bool" where
  "other_snapshots n s s' \<longleftrightarrow> (\<forall>m. m \<noteq> n \<longrightarrow> d_snapshots s' m = d_snapshots s m)"

interpretation os: state_frame "other_snapshots n" for n
  by unfold_locales (auto simp: other_snapshots_def)

lemma same_other: "state_io_rel same_snapshots m \<Longrightarrow> state_io_rel (other_snapshots n) m"
  by (auto simp: state_io_rel_def same_snapshots_def other_snapshots_def)

lemma take_snapshot_other: "state_io_rel (other_snapshots n) (take_snapshot E n v b)"
proof -
  have "state_io_rel (other_snapshots n) (modify (\<lambda>s. s\<lparr>d_snapshots := (d_snapshots s)(n \<mapsto> x)\<rparr>))" for x
    by (auto simp: keep_iff_wp wp_rules other_snapshots_def)
  moreover have "state_io_rel (other_snapshots n) (SnapshotShare E x)"
    "state_io_rel (other_snapshots n) (SnapshotFile E x)" "state_io_rel (other_snapshots n) (now E)" for x
    by (rule same_other, intro frame_intros)+
  ultimately show ?thesis unfolding take_snapshot_def Let_def by (intro frame_intros)
qed

definition keeps_snapshots :: "'w drv \<Rightarrow> 'w drv \<Rightarrow> bool" where
  "keeps_snapshots s s' \<longleftrightarrow> d_snapshots s \<subseteq>\<^sub>m d_snapshots s'"

interpretation ks: state_frame keeps_snapshots
  by unfold_locales (auto simp: keeps_snapshots_def intro: map_le_trans)

lemma same_keeps_snapshots: "state_io_rel same_snapshots m \<Longrightarrow> state_io_rel keeps_snapshots m"
  by (auto simp: state_io_rel_def same_snapshots_def keeps_snapshots_def)

lemma new_snapshot_other: "state_io_rel (other_snapshots n) (new_snapshot E n v)"
proof -
  have "state_io_rel (other_snapshots n) (FreezeForVolumeHandle E v)"
    "state_io_rel (other_snapshots n) (Unfreeze E ts)" for ts
    by (rule same_other, intro frame_intros)+
  moreover have "state_io_rel (other_snapshots n) (source_is_file E v)"
    by (rule same_other, rule quiet_keeps, intro frame_intros)
  ultimately show ?thesis
    unfolding new_snapshot_def by (intro frame_intros take_snapshot_other)
qed

lemma other_keeps:
  "d_snapshots s n = None \<Longrightarrow> other_snapshots n s s' \<Longrightarrow> keeps_snapshots s s'"
  unfolding keeps_snapshots_def other_snapshots_def map_le_def by (metis domIff)

lemma CreateSnapshot_body_keeps:
  "state_io_rel keeps_snapshots (do {
     cached \<leftarrow> gets (\<lambda>s. d_snapshots s n);
     (case cached of
        None \<Rightarrow> new_snapshot E n v
      | Some snapshot \<Rightarrow>
          if snap_SourceVolumeId snapshot \<noteq> v then
            fail (status_error AlreadyExists ''snapshot already exists for a different volume'')
          else ok snapshot)
   })"
  by (auto simp: keep_iff_wp wp_bind wp_State wp_return ks.R_refl split: option.splits
      intro: wp_mono [OF os.keep_wp [OF new_snapshot_other] other_keeps])

lemma CreateSnapshot_keeps_snapshots: "state_io_rel keeps_snapshots (CreateSnapshot E n v)"
proof -
  have "state_io_rel keeps_snapshots (acquireSnapshotLock E n)"
    "state_io_rel keeps_snapshots (releaseSnapshotLock n)"
    by (rule same_keeps_snapshots, rule lock_ops_keep, simp)+
  then show ?thesis unfolding CreateSnapshot_def with_snapshot_lock_def
    by (intro ks.keep_if ks.keep_return ks.keep_tryE ks.keep_deferring CreateSnapshot_body_keeps)
qed

lemma serve_keeps_snapshots: "state_io_rel keeps_snapshots (serve E c)"
  by (cases c)
    (simp_all add: answered_keep CreateSnapshot_keeps_snapshots same_keeps_snapshots quiet_keeps(4) rpc_quiet)

lemma served_keeps_snapshots: "served E s t \<Longrightarrow> keeps_snapshots s t"
proof (induction rule: served.induct)
  case (served_call t c)
  then show ?case using serve_keeps_snapshots [of E c]
    by (auto simp: state_io_rel_def intro: ks.R_trans)
qed (auto simp: keeps_snapshots_def)

section \<open>Properties\<close>

text \<open>C1. Between calls the driver holds nothing. Starting from a fresh driver, after any sequence of
  CSI calls with any arguments, whatever the service, the host and Kubernetes answered, no volume,
  snapshot or mount lock is held, no backing-mount reference and no mount slot is left, and every file
  system that was frozen has been asked to thaw.\<close>

theorem driver_idle_between_calls:
  assumes "served E (init_drv w) s"
  shows "idle s"
  using assms by (rule served_idle) (simp add: idle_def init_drv_def)

theorem driver_idle_between_calls_witness:
  "idle (snd (run_state (serve sample_env (Rpc_CreateSnapshot ''snap'' ''/share/f'')) (init_drv 0)))"
  by (rule driver_idle_between_calls [of sample_env 0]) (rule served_call, rule served_refl)

text \<open>C34. A snapshot name keeps its snapshot. Once a snapshot is recorded under a name, then after any
  further calls, deletions of that snapshot included, creating a snapshot of that name returns the
  recorded one when asked for the same source volume and AlreadyExists for any other, without asking
  the service; the only other outcome is the timeout of the lock.\<close>

theorem snapshot_name_sticks:
  assumes "served E s t" and "d_snapshots s n = Some sn" and "n \<noteq> []" and "length n \<le> MaxNameLength"
    and "v \<noteq> []"
  shows "wp (CreateSnapshot E n v) (\<lambda>r t'. d_trace t' = Ev_Query ''lock'' n # d_trace t \<and>
    (r = Inl (lock_error ''snapshot'' n) \<or>
     r = (if v = snap_SourceVolumeId sn then Inr sn
          else Inl (status_error AlreadyExists ''snapshot already exists for a different volume'')))) t"
proof -
  have "d_snapshots t n = Some sn"
    using served_keeps_snapshots [OF assms(1)] assms(2) by (metis keeps_snapshots_def map_le_def domI)
  then show ?thesis using assms(3-5)
    by (auto simp: CreateSnapshot_def with_snapshot_lock_def acquireSnapshotLock_def
        releaseSnapshotLock_def wp_rules)
qed

theorem snapshot_name_sticks_witness:
  "wp (CreateSnapshot sample_env ''snap'' ''/share/f'')
     (\<lambda>r _. r = Inl (lock_error ''snapshot'' ''snap'') \<or>
       r = Inr (snapshot_entry ''x|/share/f'' ''/share/f'' 0 0))
     (snd (run_state (serve sample_env (Rpc_DeleteSnapshot ''x|/share/f''))
       ((init_drv 0)\<lparr>d_snapshots := [''snap'' \<mapsto> snapshot_entry ''x|/share/f'' ''/share/f'' 0 0]\<rparr>)))"
proof -
  let ?sn = "snapshot_entry ''x|/share/f'' ''/share/f'' 0 0"
  let ?s = "(init_drv 0)\<lparr>d_snapshots := [''snap'' \<mapsto> ?sn]\<rparr>"
  have sv: "served sample_env ?s (snd (run_state (serve sample_env (Rpc_DeleteSnapshot ''x|/share/f'')) ?s))"
    by (rule served_call, rule served_refl)
  have "snap_SourceVolumeId ?sn = ''/share/f''" by (simp add: snapshot_entry_def)
  with snapshot_name_sticks [OF sv, of "''snap''" ?sn "''/share/f''"] show ?thesis
    by (simp add: wp_iff MaxNameLength_def)
qed

end
