(* ===== verification/Anvil_Routes.thy ===== *)
theory Anvil_Routes
  imports Service
begin

text \<open>
  The route templates under which requests to the service are counted (\<open>AnvilRoute\<close> of \<open>pkg/common/metrics.go\<close>). The loop
  of the code, which rewrites the slice of segments in place, is shown equal to a reading from left to right with three
  states, and from that to be idempotent and to forget every identifier.
\<close>

section \<open>Route templates\<close>

definition id_segment :: string where "id_segment = ''{id}''"

definition collapse_segment :: "string \<Rightarrow> string" where
  "collapse_segment x = (if x \<noteq> [] then id_segment else x)"

definition collection :: "string \<Rightarrow> bool" where
  "collection x \<longleftrightarrow> x \<in> {''shares'', ''tasks'', ''files'', ''objectives''}"

definition file_snapshots :: "string \<Rightarrow> bool" where
  "file_snapshots x \<longleftrightarrow> x = ''file-snapshots''"

definition snapshot_action :: "string \<Rightarrow> bool" where
  "snapshot_action x \<longleftrightarrow> x \<in> {''snapshot-create'', ''snapshot-list'', ''snapshot-delete''}"

definition collapse_action :: "string \<Rightarrow> string" where
  "collapse_action x = (if x \<noteq> [] \<and> x \<noteq> ''list'' then id_segment else x)"

text \<open>One round of the loop of \<open>AnvilRoute\<close>, at index \<open>i\<close> of the slice of segments.\<close>

definition route_step :: "nat \<Rightarrow> string list \<Rightarrow> string list" where
  "route_step i segs =
     (let previous = segs ! (i - 1) in
      if collection previous then
        segs[i := collapse_segment (segs ! i)]
      else if file_snapshots previous then
        segs[i := collapse_action (segs ! i)]
      else if snapshot_action previous then
        take i segs @ map collapse_segment (drop i segs)
      else segs)"

definition route_segments :: "string list \<Rightarrow> string list" where
  "route_segments segs = fold route_step [1..<length segs] segs"

definition AnvilRoute :: "string \<Rightarrow> string" where
  "AnvilRoute urlPath = join_with ''/'' (route_segments (split_on (CHR ''/'') urlPath))"

text \<open>The same, read from left to right: the segment before decides what becomes of the next.\<close>

fun collapse_from :: "string \<Rightarrow> string list \<Rightarrow> string list" where
  "collapse_from previous [] = []"
| "collapse_from previous (x # xs) =
     (if collection previous then
        collapse_segment x # collapse_from (collapse_segment x) xs
      else if file_snapshots previous then
        collapse_action x # collapse_from (collapse_action x) xs
      else if snapshot_action previous then
        map collapse_segment (x # xs)
      else x # collapse_from x xs)"

fun collapse_path :: "string list \<Rightarrow> string list" where
  "collapse_path [] = []"
| "collapse_path (x # xs) = x # collapse_from x xs"

section \<open>The template is what the left-to-right reading gives\<close>

lemma collapse_segment_idem [simp]: "collapse_segment (collapse_segment x) = collapse_segment x"
  by (simp add: collapse_segment_def id_segment_def)

lemma plain_names:
  "\<not> collection (collapse_segment x)" "\<not> file_snapshots (collapse_segment x)"
  "\<not> snapshot_action (collapse_segment x)"
  by (auto simp: id_segment_def collapse_segment_def collection_def file_snapshots_def snapshot_action_def)

lemma collapse_from_collapsed:
  "collapse_from (collapse_segment x) (map collapse_segment xs) = map collapse_segment xs"
  by (induction xs arbitrary: x) (simp_all add: plain_names)

lemma route_step_at:
  assumes "us \<noteq> []"
  shows "route_step (length us) (us @ x # ys) =
    (if collection (last us) then us @ collapse_segment x # ys
     else if file_snapshots (last us) then us @ collapse_action x # ys
     else if snapshot_action (last us) then
       us @ collapse_segment x # map collapse_segment ys
     else us @ x # ys)"
proof -
  have "(us @ x # ys) ! (length us - 1) = last us" using assms by (simp add: nth_append last_conv_nth)
  then show ?thesis by (simp add: route_step_def Let_def)
qed

lemma fold_route_step:
  assumes "us \<noteq> []"
  shows "fold route_step [length us..<length us + length xs] (us @ xs) = us @ collapse_from (last us) xs"
  using assms
proof (induction "length xs" arbitrary: us xs)
  case (Suc n)
  then obtain x ys where xs: "xs = x # ys" and n: "n = length ys" by (cases xs) auto
  have upt: "[length us..<length us + length xs] = length us # [Suc (length us)..<length us + length xs]"
    by (rule upt_conv_Cons) (simp add: xs)
  have step: "fold route_step [Suc (length us)..<length us + length xs] (us @ y # zs) =
      us @ y # collapse_from y zs" if "length zs = n" for y zs
    using Suc.hyps(1) [of zs "us @ [y]"] that xs n by simp
  have "fold route_step [length us..<length us + length xs] (us @ xs) =
      fold route_step [Suc (length us)..<length us + length xs] (route_step (length us) (us @ x # ys))"
    unfolding upt fold_simps by (simp only: xs)
  then show ?case unfolding route_step_at [OF Suc.prems]
    using n step [of ys] step [of "map collapse_segment ys"] by (simp add: xs collapse_from_collapsed)
qed simp

lemma route_segments_collapse: "route_segments segs = collapse_path segs"
proof (cases segs)
  case (Cons x xs)
  then show ?thesis using fold_route_step [of "[x]" xs] by (simp add: route_segments_def)
qed (simp add: route_segments_def)

lemma collapse_from_idem: "collapse_from p (collapse_from p xs) = collapse_from p xs"
proof (induction xs arbitrary: p)
  case (Cons x xs)
  have "collapse_action (collapse_action x) = collapse_action x"
    by (simp add: collapse_action_def id_segment_def)
  then show ?case using Cons.IH by (simp add: comp_def)
qed simp

lemma collapse_path_idem: "collapse_path (collapse_path xs) = collapse_path xs"
  by (cases xs) (simp_all add: collapse_from_idem)

lemma collapse_from_no_sep:
  "list_all (\<lambda>x. CHR ''/'' \<notin> set x) xs \<Longrightarrow> list_all (\<lambda>x. CHR ''/'' \<notin> set x) (collapse_from p xs)"
  by (induction xs arbitrary: p)
    (auto simp: id_segment_def collapse_segment_def collapse_action_def list_all_iff)

lemma split_join: "xs \<noteq> [] \<Longrightarrow> list_all (\<lambda>x. c \<notin> set x) xs \<Longrightarrow> split_on c (join_with [c] xs) = xs"
  by (induction "[c]" xs rule: join_with.induct) (simp_all add: split_on_no_sep split_on_append_sep)

lemma split_route: "split_on (CHR ''/'') (AnvilRoute p) = collapse_path (split_on (CHR ''/'') p)"
proof -
  obtain x xs where e: "split_on (CHR ''/'') p = x # xs" by (cases "split_on (CHR ''/'') p") auto
  then have "list_all (\<lambda>x. CHR ''/'' \<notin> set x) (x # xs)"
    using split_on_parts_no_sep [of _ "CHR ''/''" p] by (auto simp: list_all_iff)
  then show ?thesis
    using collapse_from_no_sep [of xs x] e
    by (simp add: AnvilRoute_def route_segments_collapse split_join)
qed

lemma AnvilRoute_idem: "AnvilRoute (AnvilRoute p) = AnvilRoute p"
proof -
  have "AnvilRoute (AnvilRoute p) = join_with ''/'' (collapse_path (collapse_path (split_on (CHR ''/'') p)))"
    unfolding AnvilRoute_def [of "AnvilRoute p"] split_route route_segments_collapse ..
  then show ?thesis by (simp add: collapse_path_idem AnvilRoute_def route_segments_collapse)
qed

text \<open>The segments of a path under the base path of the service.\<close>

lemma split_under_base:
  "split_on (CHR ''/'') (BasePath @ ''/'' @ p) = [[], ''mgmt'', ''v1.2'', ''rest''] @ split_on (CHR ''/'') p"
  by (simp add: BasePath_def)

lemma collapse_path_base:
  "collapse_path ([[], ''mgmt'', ''v1.2'', ''rest''] @ y # ys) = [[], ''mgmt'', ''v1.2'', ''rest''] @ collapse_path (y # ys)"
  by (simp add: collection_def file_snapshots_def snapshot_action_def)

lemma join_base:
  "zs \<noteq> [] \<Longrightarrow> join_with ''/'' ([[], ''mgmt'', ''v1.2'', ''rest''] @ zs) = BasePath @ ''/'' @ join_with ''/'' zs"
  by (cases zs) (simp_all add: BasePath_def)

lemma AnvilRoute_under_base:
  "AnvilRoute (BasePath @ ''/'' @ p) = BasePath @ ''/'' @ join_with ''/'' (collapse_path (split_on (CHR ''/'') p))"
proof -
  obtain y ys where "split_on (CHR ''/'') p = y # ys" by (cases "split_on (CHR ''/'') p") auto
  then show ?thesis
    by (simp only: AnvilRoute_def split_under_base route_segments_collapse collapse_path_base)
      (rule join_base, simp)
qed

lemma split_two: "CHR ''/'' \<notin> set a \<Longrightarrow> split_on (CHR ''/'') (a @ ''/'' @ b) = a # split_on (CHR ''/'') b"
  by (simp add: split_on_append_sep split_on_no_sep)

section \<open>Properties\<close>

text \<open>The route template is idempotent, has as many segments as the path, and is what a reading from left
  to right gives in which each segment is decided by the one before it.\<close>

theorem AnvilRoute_reference:
  "AnvilRoute p = join_with ''/'' (collapse_path (split_on (CHR ''/'') p)) \<and>
   length (split_on (CHR ''/'') (AnvilRoute p)) = length (split_on (CHR ''/'') p) \<and>
   AnvilRoute (AnvilRoute p) = AnvilRoute p"
proof -
  have "length (collapse_from q xs) = length xs" for q xs by (induction q xs rule: collapse_from.induct) simp_all
  then have "length (collapse_path xs) = length xs" for xs by (cases xs) simp_all
  then show ?thesis by (simp add: split_route AnvilRoute_idem) (simp add: AnvilRoute_def route_segments_collapse)
qed

text \<open>Requests for one share, task or snapshot are counted under one template, whatever the name: the
  templates of the paths the client asks for. Two paths keep their names: the source share of a clone, and
  the file snapshot of a restore, whose path starts with a slash.\<close>

theorem route_templates:
  assumes "segment a" and "segment b"
  shows "AnvilRoute (BasePath @ ''/shares/'' @ a) = BasePath @ ''/shares/{id}'' \<and>
    AnvilRoute (BasePath @ ''/shares/'' @ a @ ''/objective-set'') = BasePath @ ''/shares/{id}/objective-set'' \<and>
    AnvilRoute (BasePath @ ''/tasks/'' @ a) = BasePath @ ''/tasks/{id}'' \<and>
    AnvilRoute (BasePath @ ''/share-snapshots/snapshot-list/'' @ a) = BasePath @ ''/share-snapshots/snapshot-list/{id}'' \<and>
    AnvilRoute (BasePath @ ''/share-snapshots/snapshot-delete/'' @ a @ ''/'' @ b) =
      BasePath @ ''/share-snapshots/snapshot-delete/{id}/{id}'' \<and>
    AnvilRoute (BasePath @ ''/share-snapshots/clone-create/'' @ a) = BasePath @ ''/share-snapshots/clone-create/'' @ a \<and>
    AnvilRoute (BasePath @ ''/file-snapshots//'' @ a) = BasePath @ ''/file-snapshots//'' @ a"
proof -
  have sep: "CHR ''/'' \<notin> set a" "CHR ''/'' \<notin> set b" "a \<noteq> []" "b \<noteq> []"
    using assms unfolding segment_def by blast+
  note route = sep split_on_no_sep split_on_append_sep collection_def file_snapshots_def snapshot_action_def
    collapse_segment_def id_segment_def
  have "AnvilRoute (BasePath @ ''/shares/'' @ a) = BasePath @ ''/shares/{id}''"
    using AnvilRoute_under_base [of "''shares/'' @ a"] by (simp add: route)
  moreover have "AnvilRoute (BasePath @ ''/shares/'' @ a @ ''/objective-set'') = BasePath @ ''/shares/{id}/objective-set''"
    using AnvilRoute_under_base [of "''shares/'' @ a @ ''/objective-set''"] by (simp add: route)
  moreover have "AnvilRoute (BasePath @ ''/tasks/'' @ a) = BasePath @ ''/tasks/{id}''"
    using AnvilRoute_under_base [of "''tasks/'' @ a"] by (simp add: route)
  moreover have "AnvilRoute (BasePath @ ''/share-snapshots/snapshot-list/'' @ a) = BasePath @ ''/share-snapshots/snapshot-list/{id}''"
    using AnvilRoute_under_base [of "''share-snapshots/snapshot-list/'' @ a"] by (simp add: route)
  moreover have "AnvilRoute (BasePath @ ''/share-snapshots/snapshot-delete/'' @ a @ ''/'' @ b) =
      BasePath @ ''/share-snapshots/snapshot-delete/{id}/{id}''"
    using AnvilRoute_under_base [of "''share-snapshots/snapshot-delete/'' @ a @ ''/'' @ b"] by (simp add: route)
  moreover have "AnvilRoute (BasePath @ ''/share-snapshots/clone-create/'' @ a) = BasePath @ ''/share-snapshots/clone-create/'' @ a"
    using AnvilRoute_under_base [of "''share-snapshots/clone-create/'' @ a"] by (simp add: route)
  moreover have "AnvilRoute (BasePath @ ''/file-snapshots//'' @ a) = BasePath @ ''/file-snapshots//'' @ a"
    using AnvilRoute_under_base [of "''file-snapshots//'' @ a"] by (simp add: route collapse_action_def)
  ultimately show ?thesis by (intro conjI)
qed

theorem route_templates_witness:
  "AnvilRoute (BasePath @ ''/shares/'' @ ''pvc-1'') = BasePath @ ''/shares/{id}''"
  by (rule route_templates [of "''pvc-1''" "''snap''", THEN conjunct1]) (simp_all add: segment_def)

end
