(* ===== verification/Metrics.thy ===== *)
theory Metrics
  imports Service
begin

text \<open>
  The metrics of the driver (\<open>pkg/common/metrics.go\<close>): the instruments, their registration on first use, and what
  operations, requests and locks report to them. What the metrics library does with a measurement is outside the
  repository; here a measurement is an entry of a list, newest first, and the value of a gauge or counter is the sum of
  its entries. A measurement on an instrument that was never created is a call on a nil interface, a panic.

  The gauges of operations in flight and of held locks are shown to be exact, and every measurement to reach a created
  instrument of its kind.
\<close>

section \<open>Instruments\<close>

text \<open>A histogram carries the boundaries of its buckets, here in milliseconds.\<close>

datatype instrument_kind = Float64Histogram "int list" | Int64Counter | Int64UpDownCounter

record instrument =
  in_Kind :: instrument_kind
  in_Name :: string
  in_Description :: string
  in_Unit :: string

definition operation_instruments :: "instrument list" where
  "operation_instruments =
     [\<lparr>in_Kind = Float64Histogram [5, 10, 25, 50, 100, 250, 500, 1000, 2000, 5000, 10000, 20000, 30000],
       in_Name = ''hs_csi_operation_duration_seconds'',
       in_Description = ''Duration of a CSI operation or internal step, in seconds'', in_Unit = ''s''\<rparr>,
      \<lparr>in_Kind = Int64Counter, in_Name = ''hs_csi_operation_errors_total'',
       in_Description = ''Number of CSI operations/steps that returned an error'', in_Unit = []\<rparr>,
      \<lparr>in_Kind = Int64UpDownCounter, in_Name = ''hs_csi_operation_inflight'',
       in_Description = ''Number of in-flight CSI operations/steps'', in_Unit = []\<rparr>]"

definition anvil_instruments :: "instrument list" where
  "anvil_instruments =
     [\<lparr>in_Kind = Int64Counter, in_Name = ''hs_csi_anvil_requests_total'',
       in_Description = ''Total Anvil REST requests, by HTTP method, route template, and status code'', in_Unit = []\<rparr>]"

definition lock_instruments :: "instrument list" where
  "lock_instruments =
     (let buckets = [1, 10, 50, 100, 500, 1000, 2000, 5000, 10000, 20000, 30000] in
      [\<lparr>in_Kind = Int64UpDownCounter, in_Name = ''hs_csi_locks_held'',
        in_Description = ''CSI keyed locks currently held (a leak shows as a stuck non-zero value)'', in_Unit = []\<rparr>,
       \<lparr>in_Kind = Float64Histogram buckets, in_Name = ''hs_csi_lock_wait_seconds'',
        in_Description = ''Time spent blocked acquiring a CSI keyed lock'', in_Unit = ''s''\<rparr>,
       \<lparr>in_Kind = Float64Histogram buckets, in_Name = ''hs_csi_lock_hold_seconds'',
        in_Description = ''Time a CSI keyed lock was held before release'', in_Unit = ''s''\<rparr>,
       \<lparr>in_Kind = Int64Counter, in_Name = ''hs_csi_lock_acquire_failures_total'',
        in_Description = ''CSI keyed-lock acquisitions that failed / timed out'', in_Unit = []\<rparr>])"

section \<open>Measurements\<close>

text \<open>
  One call of an instrument: the instrument, the value and the attributes. Durations are in nanoseconds;
  the code reports them in seconds.
\<close>

datatype measurement =
    M_Add (meas_Name: string) int "(string \<times> string) list"
  | M_Record (meas_Name: string) int "(string \<times> string) list"

text \<open>The three \<open>sync.Once\<close> of the package, one for each group of instruments.\<close>

datatype metrics_group = Op_Metrics | Anvil_Metrics | Lock_Metrics

record 'w metered =
  md_drv :: "'w drv"
  md_meas :: "measurement list"
  md_once :: "metrics_group list"
  md_bound :: "instrument list"
  md_panic :: bool

definition new_metered :: "'w drv \<Rightarrow> 'w metered" where
  "new_metered d = \<lparr>md_drv = d, md_meas = [], md_once = [], md_bound = [], md_panic = False\<rparr>"

definition on_driver :: "('w, 'a) go \<Rightarrow> ('w metered, 'a) state" where
  "on_driver m = State (\<lambda>s. case run_state m (md_drv s) of (r, d) \<Rightarrow> (r, s\<lparr>md_drv := d\<rparr>))"

definition bind_instruments :: "instrument list \<Rightarrow> ('w metered, unit) state" where
  "bind_instruments is = modify (\<lambda>s. s\<lparr>md_bound := md_bound s @ is\<rparr>)"

definition initOpMetrics :: "('w metered, unit) state" where
  "initOpMetrics = bind_instruments operation_instruments"

definition initAnvilReqMetric :: "('w metered, unit) state" where
  "initAnvilReqMetric = bind_instruments anvil_instruments"

definition initLockMetrics :: "('w metered, unit) state" where
  "initLockMetrics = bind_instruments lock_instruments"

definition once_do :: "metrics_group \<Rightarrow> ('w metered, unit) state \<Rightarrow> ('w metered, unit) state" where
  "once_do g f = State (\<lambda>s. if g \<in> set (md_once s) then ((), s) else run_state f (s\<lparr>md_once := g # md_once s\<rparr>))"

definition is_bound :: "string \<Rightarrow> instrument list \<Rightarrow> bool" where
  "is_bound n is = list_ex (\<lambda>i. in_Name i = n) is"

definition emit :: "measurement \<Rightarrow> ('w metered, unit) state" where
  "emit x = modify (\<lambda>s. if is_bound (meas_Name x) (md_bound s) then s\<lparr>md_meas := x # md_meas s\<rparr>
     else s\<lparr>md_panic := True\<rparr>)"

definition since :: "'w env \<Rightarrow> int \<Rightarrow> ('w metered, int) state" where
  "since E start = State_Monad.bind (on_driver (now E)) (\<lambda>t. ret (t - start))"

section \<open>Operations\<close>

definition op_labels :: "string \<Rightarrow> (string \<times> string) list \<Rightarrow> (string \<times> string) list" where
  "op_labels operation attrs = (''operation'', operation) # attrs"

definition MeasureOp :: "'w env \<Rightarrow> string \<Rightarrow> (string \<times> string) list \<Rightarrow> ('w metered, int) state" where
  "MeasureOp E operation attrs = do {
     once_do Op_Metrics initOpMetrics;
     start \<leftarrow> on_driver (now E);
     emit (M_Add ''hs_csi_operation_inflight'' 1 (op_labels operation attrs));
     ret start
   }"

text \<open>The closure that \<open>MeasureOp\<close> returns; the flag says whether it was handed a non-nil error.\<close>

definition MeasureOp_done :: "'w env \<Rightarrow> string \<Rightarrow> (string \<times> string) list \<Rightarrow> int \<Rightarrow> bool \<Rightarrow> ('w metered, unit) state" where
  "MeasureOp_done E operation attrs start failed = do {
     emit (M_Add ''hs_csi_operation_inflight'' (- 1) (op_labels operation attrs));
     d \<leftarrow> since E start;
     emit (M_Record ''hs_csi_operation_duration_seconds'' d (op_labels operation attrs));
     if failed then emit (M_Add ''hs_csi_operation_errors_total'' 1 (op_labels operation attrs)) else ret ()
   }"

definition RecordAnvilRequest :: "string \<Rightarrow> string \<Rightarrow> int \<Rightarrow> ('w metered, unit) state" where
  "RecordAnvilRequest meth route statusCode = do {
     once_do Anvil_Metrics initAnvilReqMetric;
     emit (M_Add ''hs_csi_anvil_requests_total'' 1
       [(''http.method'', meth), (''http.route'', route), (''http.status_code'', FormatInt statusCode)])
   }"

section \<open>Locks\<close>

record LockProbe =
  lp_lockType :: string
  lp_start :: int

definition lock_label :: "string \<Rightarrow> (string \<times> string) list" where
  "lock_label lockType = [(''lock_type'', lockType)]"

definition LockProbe_opt :: "LockProbe \<Rightarrow> (string \<times> string) list" where
  "LockProbe_opt p = lock_label (lp_lockType p)"

definition StartLockProbe :: "'w env \<Rightarrow> string \<Rightarrow> ('w metered, LockProbe) state" where
  "StartLockProbe E lockType = do {
     once_do Lock_Metrics initLockMetrics;
     t \<leftarrow> on_driver (now E);
     ret \<lparr>lp_lockType = lockType, lp_start = t\<rparr>
   }"

definition LockProbe_Failed :: "'w env \<Rightarrow> LockProbe \<Rightarrow> ('w metered, unit) state" where
  "LockProbe_Failed E p = do {
     d \<leftarrow> since E (lp_start p);
     emit (M_Record ''hs_csi_lock_wait_seconds'' d (LockProbe_opt p));
     emit (M_Add ''hs_csi_lock_acquire_failures_total'' 1 (LockProbe_opt p))
   }"

text \<open>\<open>Acquired\<close> returns a closure; what the closure remembers is the probe and the time of the acquisition.\<close>

definition LockProbe_Acquired :: "'w env \<Rightarrow> LockProbe \<Rightarrow> ('w metered, LockProbe \<times> int) state" where
  "LockProbe_Acquired E p = do {
     d \<leftarrow> since E (lp_start p);
     emit (M_Record ''hs_csi_lock_wait_seconds'' d (LockProbe_opt p));
     emit (M_Add ''hs_csi_locks_held'' 1 (LockProbe_opt p));
     held \<leftarrow> on_driver (now E);
     ret (p, held)
   }"

definition LockProbe_release :: "'w env \<Rightarrow> LockProbe \<times> int \<Rightarrow> ('w metered, unit) state" where
  "LockProbe_release E closure = do {
     d \<leftarrow> since E (snd closure);
     emit (M_Record ''hs_csi_lock_hold_seconds'' d (LockProbe_opt (fst closure)));
     emit (M_Add ''hs_csi_locks_held'' (- 1) (LockProbe_opt (fst closure)))
   }"

text \<open>The acquisitions of \<open>pkg/driver/driver.go\<close> with their probes, and the unlock functions they return.\<close>

definition metered_acquire :: "'w env \<Rightarrow> string \<Rightarrow> ('w, unit res) go \<Rightarrow> ('w metered, (LockProbe \<times> int) res) state" where
  "metered_acquire E lockType acquire = do {
     probe \<leftarrow> StartLockProbe E lockType;
     r \<leftarrow> on_driver acquire;
     (case r of
        Inl e \<Rightarrow> do {
          LockProbe_Failed E probe;
          fail e
        }
      | Inr _ \<Rightarrow> do {
          release \<leftarrow> LockProbe_Acquired E probe;
          ok release
        })
   }"

definition metered_release :: "'w env \<Rightarrow> ('w, unit) go \<Rightarrow> LockProbe \<times> int \<Rightarrow> ('w metered, unit) state" where
  "metered_release E unlock closure = do {
     on_driver unlock;
     LockProbe_release E closure
   }"

text \<open>Without a cap there is no slot, and the unlock function does nothing.\<close>

definition metered_acquireMountSlot :: "'w env \<Rightarrow> ('w metered, (LockProbe \<times> int) option res) state" where
  "metered_acquireMountSlot E =
     (case env_MountSlots E of
        None \<Rightarrow> ok None
      | Some n \<Rightarrow> tryE (metered_acquire E ''mount_slot'' (acquireMountSlot E)) id (\<lambda>release. ok (Some release)))"

definition metered_releaseMountSlot :: "'w env \<Rightarrow> (LockProbe \<times> int) option \<Rightarrow> ('w metered, unit) state" where
  "metered_releaseMountSlot E closure =
     (case closure of
        None \<Rightarrow> ret ()
      | Some release \<Rightarrow> metered_release E (releaseMountSlot E) release)"

section \<open>Registration\<close>

text \<open>The value of a gauge or counter for one set of attributes.\<close>

fun delta :: "string \<Rightarrow> (string \<times> string) list \<Rightarrow> measurement \<Rightarrow> int" where
  "delta i l (M_Add j n k) = (if i = j \<and> l = k then n else 0)"
| "delta i l (M_Record j n k) = 0"

definition total :: "string \<Rightarrow> (string \<times> string) list \<Rightarrow> measurement list \<Rightarrow> int" where
  "total i l ms = sum_list (map (delta i l) ms)"

text \<open>A counter takes increments that are not negative, a gauge any, and a histogram records.\<close>

fun accepts :: "instrument_kind \<Rightarrow> measurement \<Rightarrow> bool" where
  "accepts Int64Counter (M_Add n v l) \<longleftrightarrow> 0 \<le> v"
| "accepts Int64UpDownCounter (M_Add n v l) \<longleftrightarrow> True"
| "accepts (Float64Histogram b) (M_Record n v l) \<longleftrightarrow> True"
| "accepts k x \<longleftrightarrow> False"

fun group_instruments :: "metrics_group \<Rightarrow> instrument list" where
  "group_instruments Op_Metrics = operation_instruments"
| "group_instruments Anvil_Metrics = anvil_instruments"
| "group_instruments Lock_Metrics = lock_instruments"

text \<open>Each group is created once, in the order of first use, and every measurement fits the instruments of its name.\<close>

definition registered_once :: "'w metered \<Rightarrow> bool" where
  "registered_once m \<longleftrightarrow> distinct (md_once m) \<and> md_bound m = concat (map group_instruments (rev (md_once m)))"

definition well_typed :: "instrument list \<Rightarrow> measurement list \<Rightarrow> bool" where
  "well_typed is ms \<longleftrightarrow> (\<forall>x \<in> set ms. \<exists>i \<in> set is. in_Name i = meas_Name x \<and> accepts (in_Kind i) x)"

definition metrics_sound :: "'w metered \<Rightarrow> bool" where
  "metrics_sound m \<longleftrightarrow> registered_once m \<and> well_typed (md_bound m) (md_meas m) \<and> \<not> md_panic m"

definition ensure_group :: "metrics_group \<Rightarrow> 'w metered \<Rightarrow> 'w metered" where
  "ensure_group g s = (if g \<in> set (md_once s) then s
     else s\<lparr>md_once := g # md_once s, md_bound := md_bound s @ group_instruments g\<rparr>)"

lemma total_Cons [simp]: "total i l (x # ms) = delta i l x + total i l ms"
  by (simp add: total_def)

lemma wp_on_driver [wp_rules]: "wp (on_driver m) Q s = wp m (\<lambda>r d. Q r (s\<lparr>md_drv := d\<rparr>)) (md_drv s)"
  by (simp add: on_driver_def wp_def split: prod.splits)

lemma wp_emit: "wp (emit x) Q s = Q () (if is_bound (meas_Name x) (md_bound s) then s\<lparr>md_meas := x # md_meas s\<rparr>
     else s\<lparr>md_panic := True\<rparr>)"
  by (simp add: emit_def wp_rules)

lemma wp_since [wp_rules]: "wp (since E t) Q s = Q (env_Now E (d_world (md_drv s)) - t) s"
  by (simp add: since_def wp_rules)

lemma wp_once_first: "wp (once_do g f) Q s = (if g \<in> set (md_once s) then Q () s else wp f Q (s\<lparr>md_once := g # md_once s\<rparr>))"
  by (simp add: once_do_def wp_def)

lemma wp_once_do [wp_rules]:
  "wp (once_do Op_Metrics initOpMetrics) Q s = Q () (ensure_group Op_Metrics s)"
  "wp (once_do Anvil_Metrics initAnvilReqMetric) Q s = Q () (ensure_group Anvil_Metrics s)"
  "wp (once_do Lock_Metrics initLockMetrics) Q s = Q () (ensure_group Lock_Metrics s)"
  by (simp_all add: wp_once_first wp_rules ensure_group_def bind_instruments_def
      initOpMetrics_def initAnvilReqMetric_def initLockMetrics_def)

lemma ensure_group_simps [simp]:
  "md_drv (ensure_group g s) = md_drv s" "md_meas (ensure_group g s) = md_meas s"
  "g \<in> set (md_once (ensure_group g s))" "h \<in> set (md_once s) \<Longrightarrow> h \<in> set (md_once (ensure_group g s))"
  by (simp_all add: ensure_group_def)

lemma ensure_group_sound: "metrics_sound s \<Longrightarrow> metrics_sound (ensure_group g s)"
  by (fastforce simp: metrics_sound_def registered_once_def well_typed_def ensure_group_def)

lemma sound_drv [simp]: "metrics_sound (s\<lparr>md_drv := d\<rparr>) = metrics_sound s"
  by (simp add: metrics_sound_def registered_once_def)

text \<open>A measurement on a group that is created reaches its instrument and keeps the state sound.\<close>

definition fits :: "metrics_group \<Rightarrow> measurement \<Rightarrow> bool" where
  "fits g x \<longleftrightarrow> (\<exists>i \<in> set (group_instruments g). in_Name i = meas_Name x \<and> accepts (in_Kind i) x)"

lemma fits_simps [simp]:
  "fits Op_Metrics (M_Add ''hs_csi_operation_inflight'' n l)"
  "fits Op_Metrics (M_Record ''hs_csi_operation_duration_seconds'' n l)"
  "fits Op_Metrics (M_Add ''hs_csi_operation_errors_total'' 1 l)"
  "fits Anvil_Metrics (M_Add ''hs_csi_anvil_requests_total'' 1 l)"
  "fits Lock_Metrics (M_Add ''hs_csi_locks_held'' n l)"
  "fits Lock_Metrics (M_Record ''hs_csi_lock_wait_seconds'' n l)"
  "fits Lock_Metrics (M_Record ''hs_csi_lock_hold_seconds'' n l)"
  "fits Lock_Metrics (M_Add ''hs_csi_lock_acquire_failures_total'' 1 l)"
  by (simp_all add: fits_def operation_instruments_def anvil_instruments_def lock_instruments_def Let_def)

lemma group_bound: "metrics_sound s \<Longrightarrow> g \<in> set (md_once s) \<Longrightarrow> fits g x \<Longrightarrow> is_bound (meas_Name x) (md_bound s)"
  by (auto simp: metrics_sound_def registered_once_def fits_def is_bound_def list_ex_iff)

lemma sound_measure:
  "metrics_sound (s\<lparr>md_meas := ms\<rparr>) \<Longrightarrow> g \<in> set (md_once s) \<Longrightarrow> fits g x \<Longrightarrow> metrics_sound (s\<lparr>md_meas := x # ms\<rparr>)"
  by (auto simp: metrics_sound_def registered_once_def fits_def well_typed_def)

lemma op_bound:
  assumes "metrics_sound s" and "Op_Metrics \<in> set (md_once s)"
  shows "is_bound ''hs_csi_operation_inflight'' (md_bound s)" "is_bound ''hs_csi_operation_duration_seconds'' (md_bound s)"
    "is_bound ''hs_csi_operation_errors_total'' (md_bound s)"
  using group_bound [OF assms fits_simps(1)] group_bound [OF assms fits_simps(2)] group_bound [OF assms fits_simps(3)]
  by simp_all

lemma lock_bound:
  assumes "metrics_sound s" and "Lock_Metrics \<in> set (md_once s)"
  shows "is_bound ''hs_csi_locks_held'' (md_bound s)" "is_bound ''hs_csi_lock_wait_seconds'' (md_bound s)"
    "is_bound ''hs_csi_lock_hold_seconds'' (md_bound s)" "is_bound ''hs_csi_lock_acquire_failures_total'' (md_bound s)"
  using group_bound [OF assms fits_simps(5)] group_bound [OF assms fits_simps(6)] group_bound [OF assms fits_simps(7)]
    group_bound [OF assms fits_simps(8)]
  by simp_all

lemmas op_sound = sound_measure [where g = Op_Metrics]
lemmas lock_sound = sound_measure [where g = Lock_Metrics]

lemma all_names: "distinct (map in_Name (operation_instruments @ anvil_instruments @ lock_instruments))"
  by (simp add: operation_instruments_def anvil_instruments_def lock_instruments_def Let_def)

lemma group_names:
  "distinct (map in_Name (group_instruments g))"
  "g \<noteq> h \<Longrightarrow> in_Name ` set (group_instruments g) \<inter> in_Name ` set (group_instruments h) = {}"
proof -
  have d: "distinct (map in_Name operation_instruments)" "distinct (map in_Name anvil_instruments)"
    "distinct (map in_Name lock_instruments)"
    and i: "in_Name ` set operation_instruments \<inter> in_Name ` set anvil_instruments = {}"
    "in_Name ` set operation_instruments \<inter> in_Name ` set lock_instruments = {}"
    "in_Name ` set anvil_instruments \<inter> in_Name ` set lock_instruments = {}"
    using all_names unfolding map_append distinct_append set_append set_map by blast+
  show "distinct (map in_Name (group_instruments g))" using d by (cases g) simp_all
  show "g \<noteq> h \<Longrightarrow> in_Name ` set (group_instruments g) \<inter> in_Name ` set (group_instruments h) = {}"
    using i by (cases g; cases h) (simp_all add: Int_commute)
qed

lemma names_of_groups: "distinct gs \<Longrightarrow> distinct (map in_Name (concat (map group_instruments gs)))"
proof (induction gs)
  case (Cons g gs)
  have "in_Name ` set (group_instruments g) \<inter> in_Name ` set (group_instruments h) = {}" if "h \<in> set gs" for h
    by (rule group_names(2)) (use Cons.prems that in auto)
  then have "in_Name ` set (group_instruments g) \<inter> in_Name ` set (concat (map group_instruments gs)) = {}" by fastforce
  then show ?case using Cons group_names(1) [of g]
    by (simp only: list.map concat.simps map_append distinct_append set_map distinct.simps)
qed simp

lemma registered_names: "registered_once m \<Longrightarrow> distinct (map in_Name (md_bound m))"
  using names_of_groups [of "rev (md_once m)"] by (simp add: registered_once_def)

section \<open>Exact gauges\<close>

abbreviation held_gauge :: "string \<Rightarrow> 'w metered \<Rightarrow> int" where
  "held_gauge k m \<equiv> total ''hs_csi_locks_held'' (lock_label k) (md_meas m)"

abbreviation inflight_gauge :: "(string \<times> string) list \<Rightarrow> 'w metered \<Rightarrow> int" where
  "inflight_gauge l m \<equiv> total ''hs_csi_operation_inflight'' l (md_meas m)"

text \<open>An operation that has begun: its labels and its start.\<close>

type_synonym open_op = "(string \<times> (string \<times> string) list) \<times> int"

abbreviation open_labels :: "open_op \<Rightarrow> (string \<times> string) list" where
  "open_labels p \<equiv> op_labels (fst (fst p)) (snd (fst p))"

text \<open>
  The steps of a driver with metrics: operations begin and end, each end with what its begin returned; requests are
  counted; locks are taken, and released only when held, by a closure of their type; anything else leaves locks and
  metrics alone. The list holds the operations that have begun and not ended.
\<close>

inductive metered_step :: "'w env \<Rightarrow> 'w metered \<times> open_op list \<Rightarrow> 'w metered \<times> open_op list \<Rightarrow> bool" for E where
  op_begin: "run_state (MeasureOp E operation attrs) m = (start, m') \<Longrightarrow>
    metered_step E (m, ops) (m', ((operation, attrs), start) # ops)"
| op_end: "((operation, attrs), start) \<in> set ops \<Longrightarrow>
    metered_step E (m, ops) (snd (run_state (MeasureOp_done E operation attrs start failed) m),
      remove1 ((operation, attrs), start) ops)"
| request: "metered_step E (m, ops) (snd (run_state (RecordAnvilRequest meth route statusCode) m), ops)"
| lock_volume: "metered_step E (m, ops) (snd (run_state (metered_acquire E ''volume'' (acquireVolumeLock E k)) m), ops)"
| unlock_volume: "k \<in> d_volumeLocks (md_drv m) \<Longrightarrow> lp_lockType p = ''volume'' \<Longrightarrow>
    metered_step E (m, ops) (snd (run_state (metered_release E (releaseVolumeLock k) (p, t)) m), ops)"
| lock_snapshot:
    "metered_step E (m, ops) (snd (run_state (metered_acquire E ''snapshot'' (acquireSnapshotLock E k)) m), ops)"
| unlock_snapshot: "k \<in> d_snapshotLocks (md_drv m) \<Longrightarrow> lp_lockType p = ''snapshot'' \<Longrightarrow>
    metered_step E (m, ops) (snd (run_state (metered_release E (releaseSnapshotLock k) (p, t)) m), ops)"
| take_slot: "metered_step E (m, ops) (snd (run_state (metered_acquireMountSlot E) m), ops)"
| give_slot: "0 < d_mountSlots (md_drv m) \<Longrightarrow> lp_lockType p = ''mount_slot'' \<Longrightarrow> env_MountSlots E \<noteq> None \<Longrightarrow>
    metered_step E (m, ops) (snd (run_state (metered_releaseMountSlot E (Some (p, t))) m), ops)"
| other: "same_locks (md_drv m) d \<Longrightarrow> same_slots (md_drv m) d \<Longrightarrow> metered_step E (m, ops) (m\<lparr>md_drv := d\<rparr>, ops)"

definition locks_exact :: "'w metered \<Rightarrow> bool" where
  "locks_exact m \<longleftrightarrow> finite (d_volumeLocks (md_drv m)) \<and> finite (d_snapshotLocks (md_drv m)) \<and>
     held_gauge ''volume'' m = int (card (d_volumeLocks (md_drv m))) \<and>
     held_gauge ''snapshot'' m = int (card (d_snapshotLocks (md_drv m))) \<and>
     held_gauge ''mount_slot'' m = int (d_mountSlots (md_drv m)) \<and>
     (Lock_Metrics \<in> set (md_once m) \<or>
      d_volumeLocks (md_drv m) = {} \<and> d_snapshotLocks (md_drv m) = {} \<and> d_mountSlots (md_drv m) = 0)"

definition ops_exact :: "open_op list \<Rightarrow> 'w metered \<Rightarrow> bool" where
  "ops_exact ops m \<longleftrightarrow> (\<forall>l. inflight_gauge l m = int (length (filter (\<lambda>p. open_labels p = l) ops))) \<and>
     (Op_Metrics \<in> set (md_once m) \<or> ops = [])"

definition metrics_inv :: "open_op list \<Rightarrow> 'w metered \<Rightarrow> bool" where
  "metrics_inv ops m \<longleftrightarrow> metrics_sound m \<and> locks_exact m \<and> ops_exact ops m"

lemma lock_label_eq [simp]: "lock_label a = lock_label b \<longleftrightarrow> a = b"
  by (simp add: lock_label_def)

lemma op_label_not_lock [simp]: "op_labels a b \<noteq> lock_label c"
  by (simp add: op_labels_def lock_label_def)

lemma length_filter_remove1:
  "p \<in> set ops \<Longrightarrow> int (length (filter P (remove1 p ops))) = int (length (filter P ops)) - (if P p then 1 else 0)"
  by (induction ops) auto

lemma int_pred_card: "finite A \<Longrightarrow> k \<in> A \<Longrightarrow> int (card A - Suc 0) = int (card A) - 1"
  by (cases "card A") auto

lemmas lock_probe_defs = StartLockProbe_def LockProbe_Failed_def LockProbe_Acquired_def LockProbe_release_def LockProbe_opt_def

lemma ensure_group_inv: "metrics_inv ops m \<Longrightarrow> metrics_inv ops (ensure_group g m)"
  by (auto simp: metrics_inv_def locks_exact_def ops_exact_def ensure_group_sound)

lemma sound_same_meas [simp]: "metrics_sound (s\<lparr>md_meas := md_meas s\<rparr>) = metrics_sound s"
  by simp

lemma MeasureOp_keeps:
  assumes "metrics_inv ops m"
  shows "wp (MeasureOp E operation attrs) (\<lambda>start. metrics_inv (((operation, attrs), start) # ops)) m"
proof -
  define m' where "m' = ensure_group Op_Metrics m"
  have inv: "metrics_inv ops m'" and once: "Op_Metrics \<in> set (md_once m')"
    using ensure_group_inv [OF assms] by (simp_all add: m'_def)
  then have s: "metrics_sound m'" by (simp add: metrics_inv_def)
  show ?thesis unfolding MeasureOp_def wp_rules m'_def [symmetric] using inv once op_bound [OF s once]
    by (auto simp: wp_emit metrics_inv_def locks_exact_def ops_exact_def intro!: op_sound)
qed

lemma MeasureOp_done_keeps:
  assumes "metrics_inv ops m" and "((operation, attrs), start) \<in> set ops"
  shows "wp (MeasureOp_done E operation attrs start failed) (\<lambda>_. metrics_inv (remove1 ((operation, attrs), start) ops)) m"
proof -
  have once: "Op_Metrics \<in> set (md_once m)" and s: "metrics_sound m"
    using assms by (auto simp: metrics_inv_def ops_exact_def)
  show ?thesis using assms op_bound [OF s once] once
    by (auto simp: MeasureOp_done_def wp_rules wp_emit metrics_inv_def locks_exact_def ops_exact_def length_filter_remove1
        intro!: op_sound s)
qed

lemma RecordAnvilRequest_keeps:
  assumes "metrics_inv ops m"
  shows "wp (RecordAnvilRequest meth route statusCode) (\<lambda>_. metrics_inv ops) m"
proof -
  define m' where "m' = ensure_group Anvil_Metrics m"
  have inv: "metrics_inv ops m'" and once: "Anvil_Metrics \<in> set (md_once m')"
    using ensure_group_inv [OF assms] by (simp_all add: m'_def)
  then have "is_bound ''hs_csi_anvil_requests_total'' (md_bound m')"
    using group_bound [OF _ once fits_simps(4)] by (simp add: metrics_inv_def)
  then show ?thesis unfolding RecordAnvilRequest_def wp_rules m'_def [symmetric] using inv once
    by (auto simp: wp_emit metrics_inv_def locks_exact_def ops_exact_def intro!: sound_measure [where g = Anvil_Metrics])
qed

text \<open>What a probe adds, whatever the driver did in between.\<close>

lemma probe_failed:
  assumes "metrics_inv ops m" and "Lock_Metrics \<in> set (md_once m)"
  shows "wp (LockProbe_Failed E p) (\<lambda>_. metrics_inv ops) m"
proof -
  have "metrics_sound m" using assms by (simp add: metrics_inv_def)
  from lock_bound [OF this assms(2)] show ?thesis using assms
    by (auto simp: LockProbe_Failed_def wp_rules wp_emit metrics_inv_def locks_exact_def ops_exact_def intro!: lock_sound)
qed

text \<open>The held locks of a type, and the gauge of the type moved by one.\<close>

definition holding :: "string \<Rightarrow> 'w drv \<Rightarrow> int" where
  "holding k d = (if k = ''volume'' then int (card (d_volumeLocks d))
     else if k = ''snapshot'' then int (card (d_snapshotLocks d)) else int (d_mountSlots d))"

definition lock_types :: "string set" where
  "lock_types = {''volume'', ''snapshot'', ''mount_slot''}"

definition moved :: "string \<Rightarrow> int \<Rightarrow> 'w drv \<Rightarrow> 'w drv \<Rightarrow> bool" where
  "moved k n d d' \<longleftrightarrow> finite (d_volumeLocks d') \<and> finite (d_snapshotLocks d') \<and>
     (\<forall>t \<in> lock_types. holding t d' = holding t d + (if t = k then n else 0))"

lemma locks_exact_iff:
  "locks_exact m \<longleftrightarrow> finite (d_volumeLocks (md_drv m)) \<and> finite (d_snapshotLocks (md_drv m)) \<and>
     (\<forall>t \<in> lock_types. held_gauge t m = holding t (md_drv m)) \<and>
     (Lock_Metrics \<in> set (md_once m) \<or> (\<forall>t \<in> lock_types. holding t (md_drv m) = 0))"
  by (auto simp: locks_exact_def lock_types_def holding_def)

lemma probe_acquired:
  assumes "metrics_inv ops m" and "Lock_Metrics \<in> set (md_once m)" and "moved (lp_lockType p) 1 (md_drv m) d"
  shows "wp (LockProbe_Acquired E p) (\<lambda>_. metrics_inv ops) (m\<lparr>md_drv := d\<rparr>)"
proof -
  have "metrics_sound m" using assms by (simp add: metrics_inv_def)
  from lock_bound [OF this assms(2)] show ?thesis using assms
    by (auto simp: LockProbe_Acquired_def LockProbe_opt_def wp_rules wp_emit metrics_inv_def locks_exact_iff ops_exact_def moved_def
        intro!: lock_sound)
qed

lemma probe_released:
  assumes "metrics_inv ops m" and "Lock_Metrics \<in> set (md_once m)" and "moved (lp_lockType p) (- 1) (md_drv m) d"
  shows "wp (LockProbe_release E (p, t)) (\<lambda>_. metrics_inv ops) (m\<lparr>md_drv := d\<rparr>)"
proof -
  have "metrics_sound m" using assms by (simp add: metrics_inv_def)
  from lock_bound [OF this assms(2)] show ?thesis using assms
    by (auto simp: LockProbe_release_def LockProbe_opt_def wp_rules wp_emit metrics_inv_def locks_exact_iff ops_exact_def moved_def
        intro!: lock_sound)
qed

lemma metered_acquire_keeps:
  assumes "metrics_inv ops m"
    and "wp acquire (\<lambda>r d. case r of Inl _ \<Rightarrow> same_locks (md_drv m) d \<and> same_slots (md_drv m) d
      | Inr _ \<Rightarrow> moved k 1 (md_drv m) d) (md_drv m)"
  shows "wp (metered_acquire E k acquire) (\<lambda>_. metrics_inv ops) m"
proof -
  define m' where "m' = ensure_group Lock_Metrics m"
  have inv: "metrics_inv ops m'" and once: "Lock_Metrics \<in> set (md_once m')" and drv: "md_drv m' = md_drv m"
    using ensure_group_inv [OF assms(1)] by (simp_all add: m'_def)
  have rest: "wp (do {r \<leftarrow> on_driver acquire; (case r of
        Inl e \<Rightarrow> do {LockProbe_Failed E p; fail e} | Inr _ \<Rightarrow> do {release \<leftarrow> LockProbe_Acquired E p; ok release})})
      (\<lambda>_. metrics_inv ops) m'" if p: "lp_lockType p = k" for p
    unfolding wp_bind wp_on_driver drv
  proof (rule wp_mono [OF assms(2)])
    fix r d
    assume r: "case r of Inl _ \<Rightarrow> same_locks (md_drv m) d \<and> same_slots (md_drv m) d | Inr _ \<Rightarrow> moved k 1 (md_drv m) d"
    show "wp (case r of Inl e \<Rightarrow> do {LockProbe_Failed E p; fail e} | Inr _ \<Rightarrow> do {release \<leftarrow> LockProbe_Acquired E p; ok release})
      (\<lambda>_. metrics_inv ops) (m'\<lparr>md_drv := d\<rparr>)"
    proof (cases r)
      case (Inl e)
      then have "metrics_inv ops (m'\<lparr>md_drv := d\<rparr>)" using r inv drv
        by (auto simp: metrics_inv_def locks_exact_def ops_exact_def same_locks_def same_slots_def)
      then have "wp (LockProbe_Failed E p) (\<lambda>_. metrics_inv ops) (m'\<lparr>md_drv := d\<rparr>)"
        by (rule probe_failed) (simp add: once)
      then show ?thesis unfolding Inl sum.case wp_bind by (rule wp_mono) (simp add: wp_return)
    next
      case (Inr u)
      then show ?thesis using probe_acquired [OF inv once, of p d E] r p drv by (auto simp: wp_rules elim!: wp_mono)
    qed
  qed
  have "wp (StartLockProbe E k) (\<lambda>p s. lp_lockType p = k \<and> s = m') m"
    by (simp add: StartLockProbe_def wp_rules m'_def)
  then show ?thesis unfolding metered_acquire_def wp_bind [of "StartLockProbe E k"] by (rule wp_mono) (use rest in blast)
qed

lemma metered_release_keeps:
  assumes "metrics_inv ops m" and "\<exists>t \<in> lock_types. holding t (md_drv m) \<noteq> 0" and "lp_lockType p = k"
    and "wp unlock (\<lambda>_. moved k (- 1) (md_drv m)) (md_drv m)"
  shows "wp (metered_release E unlock (p, t)) (\<lambda>_. metrics_inv ops) m"
proof -
  have "Lock_Metrics \<in> set (md_once m)" using assms(1,2) by (auto simp: metrics_inv_def locks_exact_iff)
  from probe_released [OF assms(1) this] show ?thesis
    unfolding metered_release_def wp_rules using assms(3) by (auto intro: wp_mono [OF assms(4)])
qed

lemmas moved_defs = moved_def holding_def lock_types_def

lemma metered_lock_keeps:
  assumes "metrics_inv ops m"
  shows "wp (metered_acquire E ''volume'' (acquireVolumeLock E k)) (\<lambda>_. metrics_inv ops) m"
    and "wp (metered_acquire E ''snapshot'' (acquireSnapshotLock E k)) (\<lambda>_. metrics_inv ops) m"
    and "wp (metered_acquireMountSlot E) (\<lambda>_. metrics_inv ops) m"
proof -
  have fin: "finite (d_volumeLocks (md_drv m))" "finite (d_snapshotLocks (md_drv m))"
    using assms by (auto simp: metrics_inv_def locks_exact_def)
  show "wp (metered_acquire E ''volume'' (acquireVolumeLock E k)) (\<lambda>_. metrics_inv ops) m"
    by (rule metered_acquire_keeps [OF assms])
      (use fin in \<open>auto simp: acquireVolumeLock_def wp_rules moved_defs same_locks_def same_slots_def\<close>)
  show "wp (metered_acquire E ''snapshot'' (acquireSnapshotLock E k)) (\<lambda>_. metrics_inv ops) m"
    by (rule metered_acquire_keeps [OF assms])
      (use fin in \<open>auto simp: acquireSnapshotLock_def wp_rules moved_defs same_locks_def same_slots_def\<close>)
  have "wp (metered_acquire E ''mount_slot'' (acquireMountSlot E)) (\<lambda>_. metrics_inv ops) m" if "env_MountSlots E \<noteq> None"
    by (rule metered_acquire_keeps [OF assms])
      (use fin that in \<open>auto simp: acquireMountSlot_def wp_rules moved_defs same_locks_def same_slots_def split: option.splits\<close>)
  then show "wp (metered_acquireMountSlot E) (\<lambda>_. metrics_inv ops) m"
    using assms by (auto simp: metered_acquireMountSlot_def wp_rules split: option.splits sum.splits elim!: wp_mono)
qed

lemma metered_unlock_keeps:
  assumes "metrics_inv ops m"
  shows "k \<in> d_volumeLocks (md_drv m) \<Longrightarrow> lp_lockType p = ''volume'' \<Longrightarrow>
      wp (metered_release E (releaseVolumeLock k) (p, t)) (\<lambda>_. metrics_inv ops) m"
    and "k \<in> d_snapshotLocks (md_drv m) \<Longrightarrow> lp_lockType p = ''snapshot'' \<Longrightarrow>
      wp (metered_release E (releaseSnapshotLock k) (p, t)) (\<lambda>_. metrics_inv ops) m"
    and "0 < d_mountSlots (md_drv m) \<Longrightarrow> lp_lockType p = ''mount_slot'' \<Longrightarrow> env_MountSlots E \<noteq> None \<Longrightarrow>
      wp (metered_releaseMountSlot E (Some (p, t))) (\<lambda>_. metrics_inv ops) m"
proof -
  have fin: "finite (d_volumeLocks (md_drv m))" "finite (d_snapshotLocks (md_drv m))"
    using assms by (auto simp: metrics_inv_def locks_exact_def)
  note held = fin card_gt_0_iff [of "d_volumeLocks (md_drv m)"] card_gt_0_iff [of "d_snapshotLocks (md_drv m)"]
  show "wp (metered_release E (releaseVolumeLock k) (p, t)) (\<lambda>_. metrics_inv ops) m"
    if "k \<in> d_volumeLocks (md_drv m)" "lp_lockType p = ''volume''"
    by (rule metered_release_keeps [OF assms _ that(2)])
      (use held that in \<open>auto simp: releaseVolumeLock_def wp_rules moved_defs int_pred_card\<close>)
  show "wp (metered_release E (releaseSnapshotLock k) (p, t)) (\<lambda>_. metrics_inv ops) m"
    if "k \<in> d_snapshotLocks (md_drv m)" "lp_lockType p = ''snapshot''"
    by (rule metered_release_keeps [OF assms _ that(2)])
      (use held that in \<open>auto simp: releaseSnapshotLock_def wp_rules moved_defs int_pred_card\<close>)
  show "wp (metered_releaseMountSlot E (Some (p, t))) (\<lambda>_. metrics_inv ops) m"
    if "0 < d_mountSlots (md_drv m)" "lp_lockType p = ''mount_slot''" "env_MountSlots E \<noteq> None"
    unfolding metered_releaseMountSlot_def option.case
    by (rule metered_release_keeps [OF assms _ that(2)])
      (use held that in \<open>auto simp: releaseMountSlot_def wp_rules moved_defs split: option.splits\<close>)
qed

lemma metered_step_inv: "metered_step E x y \<Longrightarrow> metrics_inv (snd x) (fst x) \<Longrightarrow> metrics_inv (snd y) (fst y)"
proof (induction rule: metered_step.induct)
  case (op_begin operation attrs m start m' ops)
  then show ?case using MeasureOp_keeps [of ops m E operation attrs] by (simp add: wp_iff)
next
  case (op_end operation attrs start ops m failed)
  then show ?case using MeasureOp_done_keeps [of ops m operation attrs start E failed] by (simp add: wp_iff)
next
  case (request m ops meth route statusCode)
  then show ?case using RecordAnvilRequest_keeps [of ops m meth route statusCode] by (simp add: wp_iff)
next
  case (other m d ops)
  then show ?case
    by (auto simp: metrics_inv_def locks_exact_def ops_exact_def same_locks_def same_slots_def)
qed (use metered_lock_keeps metered_unlock_keeps in \<open>simp_all add: wp_iff\<close>)

interpretation mt: keeps_invariant "metered_step E" "\<lambda>x. metrics_inv (snd x) (fst x)" for E
  by unfold_locales (rule metered_step_inv)

lemma metered_reach_inv:
  assumes "(metered_step E)\<^sup>*\<^sup>* (new_metered (init_drv w), []) x"
  shows "metrics_inv (snd x) (fst x)"
  by (rule mt.run_keeps [OF assms])
    (simp add: new_metered_def init_drv_def metrics_inv_def metrics_sound_def registered_once_def well_typed_def
      locks_exact_def ops_exact_def total_def)

text \<open>The instrumented locks are the locks: without the measurements they do the same.\<close>

lemma metered_erase:
  "wp (metered_acquire E t a) (\<lambda>r s'. (md_drv s', map_sum id (\<lambda>_. ()) r) =
     (snd (run_state a (md_drv s)), fst (run_state a (md_drv s)))) s"
  by (auto simp: metered_acquire_def lock_probe_defs wp_emit wp_rules wp_iff [of a] split: sum.splits)

section \<open>Properties\<close>

text \<open>C37. The gauges are exact: after any sequence of operations that begin and end, requests, and locks taken and
  released, the value of the gauge of held locks is the number held, for volume locks, snapshot locks and mount slots,
  and the value of the gauge of operations in flight is, for every set of labels, the number of operations that have
  begun and not ended.\<close>

theorem gauges_exact:
  assumes "(metered_step E)\<^sup>*\<^sup>* (new_metered (init_drv w), []) (m, ops)"
  shows "held_gauge ''volume'' m = int (card (d_volumeLocks (md_drv m))) \<and>
    held_gauge ''snapshot'' m = int (card (d_snapshotLocks (md_drv m))) \<and>
    held_gauge ''mount_slot'' m = int (d_mountSlots (md_drv m)) \<and>
    inflight_gauge l m = int (length (filter (\<lambda>p. open_labels p = l) ops))"
  using metered_reach_inv [OF assms] by (simp add: metrics_inv_def locks_exact_def ops_exact_def)

theorem gauges_exact_witness:
  "held_gauge ''volume'' (snd (run_state (metered_acquire sample_env ''volume'' (acquireVolumeLock sample_env ''/v''))
     (new_metered (init_drv 0)))) = 1"
proof -
  let ?m = "snd (run_state (metered_acquire sample_env ''volume'' (acquireVolumeLock sample_env ''/v'')) (new_metered (init_drv 0)))"
  have "held_gauge ''volume'' ?m = int (card (d_volumeLocks (md_drv ?m)))"
    using gauges_exact [of sample_env 0 ?m "[]", OF r_into_rtranclp, OF lock_volume] by blast
  moreover have "wp (metered_acquire sample_env ''volume'' (acquireVolumeLock sample_env ''/v''))
      (\<lambda>_ m. d_volumeLocks (md_drv m) = {''/v''}) (new_metered (init_drv 0))"
    by (simp add: metered_acquire_def lock_probe_defs acquireVolumeLock_def wp_emit wp_rules new_metered_def init_drv_def
        sample_env_def)
  ultimately show ?thesis by (simp add: wp_iff)
qed

text \<open>Every measurement reaches an instrument of its kind: in every such sequence no measurement is made on an
  instrument that was not created, every instrument is created at most once and under a name of its own, and each
  measurement fits the instrument of its name: increments for counters, none of them negative, changes for gauges,
  recordings for histograms.\<close>

theorem measurements_typed:
  assumes "(metered_step E)\<^sup>*\<^sup>* (new_metered (init_drv w), []) (m, ops)"
  shows "\<not> md_panic m \<and> distinct (map in_Name (md_bound m)) \<and>
    (\<forall>x \<in> set (md_meas m). \<exists>!i. i \<in> set (md_bound m) \<and> in_Name i = meas_Name x \<and> accepts (in_Kind i) x)"
proof -
  have inv: "registered_once m" "well_typed (md_bound m) (md_meas m)" "\<not> md_panic m"
    using metered_reach_inv [OF assms] by (simp_all add: metrics_inv_def metrics_sound_def)
  have dist: "distinct (map in_Name (md_bound m))" using inv(1) registered_names by blast
  have "\<exists>!i. i \<in> set (md_bound m) \<and> in_Name i = meas_Name x \<and> accepts (in_Kind i) x" if x: "x \<in> set (md_meas m)" for x
  proof -
    from inv(2) x obtain i where i: "i \<in> set (md_bound m)" "in_Name i = meas_Name x" "accepts (in_Kind i) x"
      unfolding well_typed_def by blast
    moreover have "j = i" if "j \<in> set (md_bound m)" "in_Name j = meas_Name x" for j
      using dist that i unfolding distinct_map inj_on_def by (metis (no_types))
    ultimately show ?thesis by blast
  qed
  with inv(3) dist show ?thesis by (intro conjI ballI)
qed

theorem measurements_typed_witness:
  "distinct (map in_Name (md_bound (snd (run_state (RecordAnvilRequest ''GET'' ''/x'' 200) (new_metered (init_drv (0 :: int)))))))"
proof -
  let ?m = "snd (run_state (RecordAnvilRequest ''GET'' ''/x'' 200) (new_metered (init_drv (0 :: int))))"
  have "(metered_step sample_env)\<^sup>*\<^sup>* (new_metered (init_drv (0 :: int)), []) (?m, [])"
    by (rule r_into_rtranclp) (rule request)
  from measurements_typed [OF this] show ?thesis by (elim conjE)
qed

end
