(* ===== verification/Csi_V0.thy ===== *)
theory Csi_V0
  imports Service
begin

text \<open>
  The identity service (\<open>pkg/driver/identity.go\<close>) and the adapter that serves version 0 of the CSI
  protocol (\<open>pkg/driver/driver_csi_v0.go\<close>): every v0 call is answered here or turned into one call of
  the v1 driver. The messages of the v0 protocol are records with the fields the adapter reads; an
  absent capability is \<open>None\<close>.

  The theorems: a v0 session reaches only states that v1 calls reach, and staging through the adapter
  does not see the attributes of the volume.
\<close>

section \<open>Identity service\<close>

record plugin_info =
  pi_Name :: string
  pi_VendorVersion :: string
  pi_Manifest :: smap

definition GetPluginInfo :: "'w env \<Rightarrow> plugin_info" where
  "GetPluginInfo E =
     \<lparr>pi_Name = CsiPluginName, pi_VendorVersion = env_Version E, pi_Manifest = [''githash'' \<mapsto> env_Githash E]\<rparr>"

definition Probe :: bool where "Probe = True"

datatype plugin_capability = Plugin_Service string | Plugin_VolumeExpansion string

definition GetPluginCapabilities :: "plugin_capability list" where
  "GetPluginCapabilities =
     [Plugin_Service ''CONTROLLER_SERVICE'', Plugin_Service ''VOLUME_ACCESSIBILITY_CONSTRAINTS'',
      Plugin_VolumeExpansion ''ONLINE'', Plugin_VolumeExpansion ''OFFLINE'']"

section \<open>Messages of the v0 protocol\<close>

datatype access_mode_v0 =
    V0_UNKNOWN | V0_SINGLE_NODE_WRITER | V0_SINGLE_NODE_READER_ONLY | V0_MULTI_NODE_READER_ONLY
  | V0_MULTI_NODE_SINGLE_WRITER | V0_MULTI_NODE_MULTI_WRITER

text \<open>The modes have the same numbers in both protocols, and the adapter converts by number.\<close>

fun mode_of_v0 :: "access_mode_v0 \<Rightarrow> access_mode" where
  "mode_of_v0 V0_UNKNOWN = MODE_UNKNOWN"
| "mode_of_v0 V0_SINGLE_NODE_WRITER = SINGLE_NODE_WRITER"
| "mode_of_v0 V0_SINGLE_NODE_READER_ONLY = SINGLE_NODE_READER_ONLY"
| "mode_of_v0 V0_MULTI_NODE_READER_ONLY = MULTI_NODE_READER_ONLY"
| "mode_of_v0 V0_MULTI_NODE_SINGLE_WRITER = MULTI_NODE_SINGLE_WRITER"
| "mode_of_v0 V0_MULTI_NODE_MULTI_WRITER = MULTI_NODE_MULTI_WRITER"

record VolumeCapability_v0 =
  c0_AccessType :: "access_type option"
  c0_AccessMode :: access_mode_v0

definition GetMount_v0 :: "VolumeCapability_v0 option \<Rightarrow> (string \<times> string list) option" where
  "GetMount_v0 c = (case c of
     None \<Rightarrow> None
   | Some c \<Rightarrow> (case c0_AccessType c of Some (Access_Mount f fl) \<Rightarrow> Some (f, fl) | _ \<Rightarrow> None))"

definition ConvertVolumeCapabilityFromv0Tov1 :: "VolumeCapability_v0 option \<Rightarrow> VolumeCapability res" where
  "ConvertVolumeCapabilityFromv0Tov1 capability =
     (case capability of
        None \<Rightarrow> Inl (status_error InvalidArgument BlockVolumesUnsupported)
      | Some c \<Rightarrow> (case GetMount_v0 (Some c) of
          None \<Rightarrow> Inl (status_error InvalidArgument BlockVolumesUnsupported)
        | Some (fs, flags) \<Rightarrow>
            Inr \<lparr>cap_AccessType = Some (Access_Mount fs flags), cap_AccessMode = mode_of_v0 (c0_AccessMode c)\<rparr>))"

text \<open>The loop over the capabilities of a request, which ends at the first that is not a mount.\<close>

fun convert_all :: "VolumeCapability_v0 option list \<Rightarrow> VolumeCapability list res" where
  "convert_all [] = Inr []"
| "convert_all (c # cs) = (case ConvertVolumeCapabilityFromv0Tov1 c of
     Inl e \<Rightarrow> Inl e
   | Inr c1 \<Rightarrow> (case convert_all cs of Inl e \<Rightarrow> Inl e | Inr cs1 \<Rightarrow> Inr (c1 # cs1)))"

record CreateVolumeRequest_v0 =
  cv0_Name :: string
  cv0_CapacityRange :: "CapacityRange option"
  cv0_VolumeCapabilities :: "VolumeCapability_v0 option list"
  cv0_Parameters :: smap

record Volume_v0 =
  vol0_CapacityBytes :: int
  vol0_Id :: string
  vol0_Attributes :: smap

section \<open>Controller calls\<close>

definition CreateVolume_v0 :: "'w env \<Rightarrow> CreateVolumeRequest_v0 \<Rightarrow> ('w, Volume_v0 res) go" where
  "CreateVolume_v0 E req =
     tryE (ret (convert_all (cv0_VolumeCapabilities req))) id (\<lambda>caps.
     let capacityRange = (case cv0_CapacityRange req of
            None \<Rightarrow> \<lparr>cr_RequiredBytes = 0, cr_LimitBytes = 0\<rparr> | Some r \<Rightarrow> r)
     in tryE (CreateVolume E
          \<lparr>cv_Name = cv0_Name req, cv_CapacityRange = Some capacityRange, cv_VolumeCapabilities = Some caps,
           cv_Parameters = cv0_Parameters req, cv_SourceSnapshot = None\<rparr>) id (\<lambda>res.
        ok \<lparr>vol0_CapacityBytes = vol_CapacityBytes res, vol0_Id = vol_VolumeId res,
            vol0_Attributes = vol_VolumeContext res\<rparr>))"

definition DeleteVolume_v0 :: "'w env \<Rightarrow> string \<Rightarrow> ('w, unit res) go" where
  "DeleteVolume_v0 E volumeId = DeleteVolume E volumeId"

definition ControllerPublishVolume_v0 :: "('w, unit res) go" where
  "ControllerPublishVolume_v0 = fail (status_error Unimplemented ''ControllerPublishVolume not supported'')"

definition ControllerUnpublishVolume_v0 :: "('w, unit res) go" where
  "ControllerUnpublishVolume_v0 = fail (status_error Unimplemented ''ControllerUnpublishVolume not supported'')"

text \<open>The answer is the flag \<open>Supported\<close>.\<close>

definition ValidateVolumeCapabilities_v0 :: "'w env \<Rightarrow> string \<Rightarrow> VolumeCapability_v0 option list \<Rightarrow> smap
    \<Rightarrow> ('w, bool res) go" where
  "ValidateVolumeCapabilities_v0 E volumeId caps attributes =
     (case convert_all caps of
        Inl _ \<Rightarrow> ok False
      | Inr caps1 \<Rightarrow> tryE (ValidateVolumeCapabilities E volumeId caps1 attributes) id (\<lambda>_. ok True))"

definition GetCapacity_v0 :: "'w env \<Rightarrow> VolumeCapability_v0 option list \<Rightarrow> smap \<Rightarrow> ('w, int res) go" where
  "GetCapacity_v0 E caps parameters =
     (case convert_all caps of
        Inl _ \<Rightarrow> ok 0
      | Inr caps1 \<Rightarrow> GetCapacity E caps1 parameters)"

definition ControllerGetCapabilities_v0 :: "string list" where
  "ControllerGetCapabilities_v0 = [''CREATE_DELETE_VOLUME'', ''GET_CAPACITY'']"

definition ListVolumes_v0 :: "('w, unit res) go" where
  "ListVolumes_v0 = fail (status_error Unimplemented [])"

definition CreateSnapshot_v0 :: "('w, unit res) go" where
  "CreateSnapshot_v0 = fail (status_error Unimplemented [])"

definition DeleteSnapshot_v0 :: "('w, unit res) go" where
  "DeleteSnapshot_v0 = fail (status_error Unimplemented [])"

definition ListSnapshots_v0 :: "('w, unit res) go" where
  "ListSnapshots_v0 = fail (status_error Unimplemented [])"

section \<open>Identity calls\<close>

definition GetPluginInfo_v0 :: "'w env \<Rightarrow> plugin_info" where
  "GetPluginInfo_v0 E =
     (let info = GetPluginInfo E in
      \<lparr>pi_Name = pi_Name info, pi_VendorVersion = pi_VendorVersion info, pi_Manifest = pi_Manifest info\<rparr>)"

definition Probe_v0 :: bool where "Probe_v0 = Probe"

definition GetPluginCapabilities_v0 :: "plugin_capability list" where
  "GetPluginCapabilities_v0 = [Plugin_Service ''CONTROLLER_SERVICE'']"

section \<open>Node calls\<close>

text \<open>
  The attributes of the volume become the publish context of the v1 request, which \<open>NodeStageVolume\<close>
  does not read; its volume context stays empty.
\<close>

definition NodeStageVolume_v0 :: "'w env \<Rightarrow> string \<Rightarrow> string \<Rightarrow> VolumeCapability_v0 option \<Rightarrow> smap
    \<Rightarrow> ('w, unit res) go" where
  "NodeStageVolume_v0 E volumeId stagingTarget cap attributes =
     tryE (ret (ConvertVolumeCapabilityFromv0Tov1 cap)) id (\<lambda>capv1.
     NodeStageVolume E volumeId stagingTarget (Some capv1) Map.empty)"

definition NodeUnstageVolume_v0 :: "'w env \<Rightarrow> string \<Rightarrow> string \<Rightarrow> ('w, unit res) go" where
  "NodeUnstageVolume_v0 E volumeId stagingTarget = NodeUnstageVolume E volumeId stagingTarget"

definition NodePublishVolume_v0 :: "'w env \<Rightarrow> string \<Rightarrow> string \<Rightarrow> string \<Rightarrow> VolumeCapability_v0 option
    \<Rightarrow> smap \<Rightarrow> bool \<Rightarrow> ('w, unit res) go" where
  "NodePublishVolume_v0 E volumeId stagingTarget targetPath cap attributes readOnly =
     tryE (ret (ConvertVolumeCapabilityFromv0Tov1 cap)) id (\<lambda>capv1.
     tryE (NodePublishVolume E volumeId stagingTarget targetPath (Some capv1) attributes readOnly) id (\<lambda>_.
     ok ()))"

definition NodeUnpublishVolume_v0 :: "'w env \<Rightarrow> string \<Rightarrow> string \<Rightarrow> ('w, unit res) go" where
  "NodeUnpublishVolume_v0 E volumeId targetPath =
     tryE (NodeUnpublishVolume E volumeId targetPath) id (\<lambda>_. ok ())"

definition NodeGetCapabilities_v0 :: "string list" where
  "NodeGetCapabilities_v0 = [''UNKNOWN'', ''STAGE_UNSTAGE_VOLUME'']"

definition NodeGetInfo_v0 :: "'w env \<Rightarrow> string" where "NodeGetInfo_v0 E = env_NodeID E"

definition NodeGetId_v0 :: "'w env \<Rightarrow> string" where "NodeGetId_v0 E = env_NodeID E"

section \<open>Sessions\<close>

text \<open>The v0 calls that reach the driver; all others answer without it.\<close>

datatype rpc_v0 =
    Rpc0_CreateVolume CreateVolumeRequest_v0
  | Rpc0_DeleteVolume string
  | Rpc0_ValidateVolumeCapabilities string "VolumeCapability_v0 option list" smap
  | Rpc0_GetCapacity "VolumeCapability_v0 option list" smap
  | Rpc0_NodeStageVolume string string "VolumeCapability_v0 option" smap
  | Rpc0_NodeUnstageVolume string string
  | Rpc0_NodePublishVolume string string string "VolumeCapability_v0 option" smap bool
  | Rpc0_NodeUnpublishVolume string string

fun serve_v0 :: "'w env \<Rightarrow> rpc_v0 \<Rightarrow> ('w, unit) go" where
  "serve_v0 E (Rpc0_CreateVolume req) = answered (CreateVolume_v0 E req)"
| "serve_v0 E (Rpc0_DeleteVolume v) = answered (DeleteVolume_v0 E v)"
| "serve_v0 E (Rpc0_ValidateVolumeCapabilities v caps a) = answered (ValidateVolumeCapabilities_v0 E v caps a)"
| "serve_v0 E (Rpc0_GetCapacity caps ps) = answered (GetCapacity_v0 E caps ps)"
| "serve_v0 E (Rpc0_NodeStageVolume v st cap a) = answered (NodeStageVolume_v0 E v st cap a)"
| "serve_v0 E (Rpc0_NodeUnstageVolume v st) = answered (NodeUnstageVolume_v0 E v st)"
| "serve_v0 E (Rpc0_NodePublishVolume v st t cap a r) = answered (NodePublishVolume_v0 E v st t cap a r)"
| "serve_v0 E (Rpc0_NodeUnpublishVolume v t) = answered (NodeUnpublishVolume_v0 E v t)"

inductive served_v0 :: "'w env \<Rightarrow> 'w drv \<Rightarrow> 'w drv \<Rightarrow> bool" for E s where
  served_v0_refl: "served_v0 E s s"
| served_v0_call: "served_v0 E s t \<Longrightarrow> served_v0 E s (snd (run_state (serve_v0 E c) t))"
| served_v0_world: "served_v0 E s t \<Longrightarrow> served_v0 E s (t\<lparr>d_world := w\<rparr>)"

section \<open>Every v0 call is at most one v1 call\<close>

text \<open>The state after answering is the state after the call.\<close>

lemma run_answered: "snd (run_state (answered m) s) = snd (run_state m s)"
  by (simp add: answered_def split: prod.splits)

lemma run_tryE_ok: "snd (run_state (tryE m h (\<lambda>x. ok (f x))) s) = snd (run_state m s)"
  by (auto simp: tryE_def split: prod.splits sum.splits)

lemma run_tryE_pure:
  "run_state (tryE (ret r) h k) s = (case r of Inl e \<Rightarrow> (Inl (h e), s) | Inr x \<Rightarrow> run_state (k x) s)"
  by (simp add: tryE_def split: sum.splits)

lemmas v0_run = run_answered run_tryE_ok run_tryE_pure

definition one_call :: "'w env \<Rightarrow> 'w drv \<Rightarrow> 'w drv \<Rightarrow> bool" where
  "one_call E s t \<longleftrightarrow> t = s \<or> (\<exists>c. t = snd (run_state (serve E c) s))"

lemma one_callI: "t = snd (run_state (serve E c) s) \<Longrightarrow> one_call E s t"
  by (auto simp: one_call_def)

lemma serve_v0_one_call: "one_call E s (snd (run_state (serve_v0 E c) s))"
proof (cases c)
  case (Rpc0_CreateVolume req)
  show ?thesis
  proof (cases "convert_all (cv0_VolumeCapabilities req)")
    case (Inl e)
    then show ?thesis using Rpc0_CreateVolume by (simp add: CreateVolume_v0_def v0_run one_call_def)
  next
    case (Inr caps)
    then show ?thesis using Rpc0_CreateVolume
      by (auto simp: CreateVolume_v0_def v0_run Let_def intro!: one_callI [where c = "Rpc_CreateVolume _"])
  qed
next
  case (Rpc0_DeleteVolume v)
  then show ?thesis by (auto simp: DeleteVolume_v0_def intro!: one_callI [where c = "Rpc_DeleteVolume v"])
next
  case (Rpc0_ValidateVolumeCapabilities v caps a)
  then show ?thesis
    by (cases "convert_all caps")
      (auto simp: ValidateVolumeCapabilities_v0_def v0_run one_call_def
        intro!: exI [where x = "Rpc_ValidateVolumeCapabilities v _ a"])
next
  case (Rpc0_GetCapacity caps ps)
  then show ?thesis
    by (cases "convert_all caps")
      (auto simp: GetCapacity_v0_def v0_run one_call_def intro!: exI [where x = "Rpc_GetCapacity _ ps"])
next
  case (Rpc0_NodeStageVolume v st cap a)
  then show ?thesis
    by (cases "ConvertVolumeCapabilityFromv0Tov1 cap")
      (auto simp: NodeStageVolume_v0_def v0_run one_call_def
        intro!: exI [where x = "Rpc_NodeStageVolume v st (Some _) Map.empty"])
next
  case (Rpc0_NodeUnstageVolume v st)
  then show ?thesis
    by (auto simp: NodeUnstageVolume_v0_def intro!: one_callI [where c = "Rpc_NodeUnstageVolume v st"])
next
  case (Rpc0_NodePublishVolume v st t cap a r)
  then show ?thesis
    by (cases "ConvertVolumeCapabilityFromv0Tov1 cap")
      (auto simp: NodePublishVolume_v0_def v0_run one_call_def
        intro!: exI [where x = "Rpc_NodePublishVolume v st t (Some _) a r"])
next
  case (Rpc0_NodeUnpublishVolume v t)
  then show ?thesis
    by (auto simp: NodeUnpublishVolume_v0_def v0_run intro!: one_callI [where c = "Rpc_NodeUnpublishVolume v t"])
qed

lemma served_one_call: "served E s t \<Longrightarrow> one_call E t u \<Longrightarrow> served E s u"
  by (auto simp: one_call_def intro: served_call)

lemma convert_all_mounts:
  "convert_all cs = Inr cs1 \<Longrightarrow> c \<in> set cs1 \<Longrightarrow> GetMount c \<noteq> None"
  by (induction cs arbitrary: cs1)
    (auto simp: ConvertVolumeCapabilityFromv0Tov1_def GetMount_def split: sum.splits option.splits)

lemma convert_all_refuses:
  "(\<exists>c \<in> set cs. GetMount_v0 c = None) \<Longrightarrow> convert_all cs = Inl (status_error InvalidArgument BlockVolumesUnsupported)"
proof (induction cs)
  case (Cons c cs)
  have "ConvertVolumeCapabilityFromv0Tov1 c =
      (if GetMount_v0 c = None then Inl (status_error InvalidArgument BlockVolumesUnsupported)
       else Inr \<lparr>cap_AccessType = map_option (\<lambda>(fs, fl). Access_Mount fs fl) (GetMount_v0 c),
         cap_AccessMode = mode_of_v0 (c0_AccessMode (the c))\<rparr>)"
    by (auto simp: ConvertVolumeCapabilityFromv0Tov1_def GetMount_v0_def split: option.splits)
  then show ?case using Cons by (cases "GetMount_v0 c = None") simp_all
qed simp

text \<open>A request with a capability that is not a mount is refused before the driver is called.\<close>

lemma CreateVolume_v0_refuses:
  "(\<exists>c \<in> set (cv0_VolumeCapabilities req). GetMount_v0 c = None) \<Longrightarrow>
    CreateVolume_v0 E req = fail (status_error InvalidArgument BlockVolumesUnsupported)"
  by (simp add: CreateVolume_v0_def convert_all_refuses tryE_def)

section \<open>The calls with their answers\<close>

datatype reply = Reply_Volume Volume | Reply_Empty | Reply_Capacity int

datatype reply_v0 = Reply0_Volume Volume_v0 | Reply0_Empty | Reply0_Supported bool | Reply0_Capacity int

definition replying :: "('a \<Rightarrow> 'b) \<Rightarrow> ('w, 'a res) go \<Rightarrow> ('w, 'b res) go" where
  "replying f m = tryE m id (\<lambda>x. ok (f x))"

text \<open>The v1 calls the adapter makes, and the v0 calls, with what they return.\<close>

fun reply_v1 :: "'w env \<Rightarrow> rpc \<Rightarrow> ('w, reply res) go" where
  "reply_v1 E (Rpc_CreateVolume req) = replying Reply_Volume (CreateVolume E req)"
| "reply_v1 E (Rpc_GetCapacity caps ps) = replying Reply_Capacity (GetCapacity E caps ps)"
| "reply_v1 E (Rpc_DeleteVolume v) = replying (\<lambda>_. Reply_Empty) (DeleteVolume E v)"
| "reply_v1 E (Rpc_ValidateVolumeCapabilities v caps ps) = replying (\<lambda>_. Reply_Empty) (ValidateVolumeCapabilities E v caps ps)"
| "reply_v1 E (Rpc_NodeStageVolume v st cap c) = replying (\<lambda>_. Reply_Empty) (NodeStageVolume E v st cap c)"
| "reply_v1 E (Rpc_NodeUnstageVolume v st) = replying (\<lambda>_. Reply_Empty) (NodeUnstageVolume E v st)"
| "reply_v1 E (Rpc_NodePublishVolume v st t cap c r) = replying (\<lambda>_. Reply_Empty) (NodePublishVolume E v st t cap c r)"
| "reply_v1 E (Rpc_NodeUnpublishVolume v t) = replying (\<lambda>_. Reply_Empty) (NodeUnpublishVolume E v t)"
| "reply_v1 E c = State_Monad.bind (serve E c) (\<lambda>_. ok Reply_Empty)"

fun reply0 :: "'w env \<Rightarrow> rpc_v0 \<Rightarrow> ('w, reply_v0 res) go" where
  "reply0 E (Rpc0_CreateVolume req) = replying Reply0_Volume (CreateVolume_v0 E req)"
| "reply0 E (Rpc0_DeleteVolume v) = replying (\<lambda>_. Reply0_Empty) (DeleteVolume_v0 E v)"
| "reply0 E (Rpc0_ValidateVolumeCapabilities v caps a) = replying Reply0_Supported (ValidateVolumeCapabilities_v0 E v caps a)"
| "reply0 E (Rpc0_GetCapacity caps ps) = replying Reply0_Capacity (GetCapacity_v0 E caps ps)"
| "reply0 E (Rpc0_NodeStageVolume v st cap a) = replying (\<lambda>_. Reply0_Empty) (NodeStageVolume_v0 E v st cap a)"
| "reply0 E (Rpc0_NodeUnstageVolume v st) = replying (\<lambda>_. Reply0_Empty) (NodeUnstageVolume_v0 E v st)"
| "reply0 E (Rpc0_NodePublishVolume v st t cap a r) = replying (\<lambda>_. Reply0_Empty) (NodePublishVolume_v0 E v st t cap a r)"
| "reply0 E (Rpc0_NodeUnpublishVolume v t) = replying (\<lambda>_. Reply0_Empty) (NodeUnpublishVolume_v0 E v t)"

section \<open>The request of version 1 with the same meaning\<close>

text \<open>Of a capability of version 0 only a mount has one of version 1: the same file system, flags and mode.\<close>

definition meaning_cap :: "VolumeCapability_v0 option \<Rightarrow> VolumeCapability option" where
  "meaning_cap c = map_option (\<lambda>(fs, fl). \<lparr>cap_AccessType = Some (Access_Mount fs fl),
     cap_AccessMode = mode_of_v0 (c0_AccessMode (the c))\<rparr>) (GetMount_v0 c)"

text \<open>The same names, paths, parameters and flags; the attributes of a volume are its context. \<open>None\<close> for a request
  with a capability that has no meaning in version 1.\<close>

fun meaning :: "rpc_v0 \<Rightarrow> rpc option" where
  "meaning (Rpc0_CreateVolume req) = map_option (\<lambda>caps. Rpc_CreateVolume
     \<lparr>cv_Name = cv0_Name req, cv_CapacityRange = cv0_CapacityRange req, cv_VolumeCapabilities = Some caps,
      cv_Parameters = cv0_Parameters req, cv_SourceSnapshot = None\<rparr>) (those (map meaning_cap (cv0_VolumeCapabilities req)))"
| "meaning (Rpc0_DeleteVolume v) = Some (Rpc_DeleteVolume v)"
| "meaning (Rpc0_ValidateVolumeCapabilities v caps a) =
     map_option (\<lambda>caps. Rpc_ValidateVolumeCapabilities v caps a) (those (map meaning_cap caps))"
| "meaning (Rpc0_GetCapacity caps ps) = map_option (\<lambda>caps. Rpc_GetCapacity caps ps) (those (map meaning_cap caps))"
| "meaning (Rpc0_NodeStageVolume v st cap a) =
     map_option (\<lambda>cap. Rpc_NodeStageVolume v st (Some cap) a) (meaning_cap cap)"
| "meaning (Rpc0_NodeUnstageVolume v st) = Some (Rpc_NodeUnstageVolume v st)"
| "meaning (Rpc0_NodePublishVolume v st t cap a r) =
     map_option (\<lambda>cap. Rpc_NodePublishVolume v st t (Some cap) a r) (meaning_cap cap)"
| "meaning (Rpc0_NodeUnpublishVolume v t) = Some (Rpc_NodeUnpublishVolume v t)"

text \<open>The answer of version 0 with the same meaning, and the answer to a request that has none.\<close>

fun meaning_back :: "rpc_v0 \<Rightarrow> reply \<Rightarrow> reply_v0" where
  "meaning_back c (Reply_Volume v) = Reply0_Volume
     \<lparr>vol0_CapacityBytes = vol_CapacityBytes v, vol0_Id = vol_VolumeId v, vol0_Attributes = vol_VolumeContext v\<rparr>"
| "meaning_back c (Reply_Capacity n) = Reply0_Capacity n"
| "meaning_back c Reply_Empty =
     (case c of Rpc0_ValidateVolumeCapabilities _ _ _ \<Rightarrow> Reply0_Supported True | _ \<Rightarrow> Reply0_Empty)"

definition unsupported :: "rpc_v0 \<Rightarrow> reply_v0 res" where
  "unsupported c = (case c of
     Rpc0_ValidateVolumeCapabilities _ _ _ \<Rightarrow> Inr (Reply0_Supported False)
   | Rpc0_GetCapacity _ _ \<Rightarrow> Inr (Reply0_Capacity 0)
   | _ \<Rightarrow> Inl (status_error InvalidArgument BlockVolumesUnsupported))"

text \<open>What the adapter does not carry over: that a request names no capacity, and the attributes of a volume to be
  staged.\<close>

fun blurred :: "rpc_v0 \<Rightarrow> rpc_v0" where
  "blurred (Rpc0_CreateVolume req) = Rpc0_CreateVolume (req\<lparr>cv0_CapacityRange :=
     (case cv0_CapacityRange req of None \<Rightarrow> Some \<lparr>cr_RequiredBytes = 0, cr_LimitBytes = 0\<rparr> | r \<Rightarrow> r)\<rparr>)"
| "blurred (Rpc0_NodeStageVolume v st cap a) = Rpc0_NodeStageVolume v st cap Map.empty"
| "blurred c = c"

lemma convert_meaning: "ConvertVolumeCapabilityFromv0Tov1 c = (case meaning_cap c of
    None \<Rightarrow> Inl (status_error InvalidArgument BlockVolumesUnsupported) | Some c1 \<Rightarrow> Inr c1)"
  by (auto simp: ConvertVolumeCapabilityFromv0Tov1_def meaning_cap_def GetMount_v0_def split: option.splits)

lemma convert_all_meaning: "convert_all cs = (case those (map meaning_cap cs) of
    None \<Rightarrow> Inl (status_error InvalidArgument BlockVolumesUnsupported) | Some cs1 \<Rightarrow> Inr cs1)"
  by (induction cs) (auto simp: convert_meaning split: option.splits)

lemma run_replying: "run_state (replying f m) s = apfst (map_sum id f) (run_state m s)"
  by (auto simp: replying_def tryE_def split: prod.splits sum.splits)

lemma apfst_sum: "apfst (map_sum id f) p = (case p of (Inl e, t) \<Rightarrow> (Inl e, t) | (Inr x, t) \<Rightarrow> (Inr (f x), t))"
  by (auto simp: apfst_def split: prod.splits sum.splits)

lemmas reply_defs = run_replying convert_meaning convert_all_meaning v0_run unsupported_def

lemma reply0_meaning:
  "run_state (reply0 E c) s = (case meaning (blurred c) of
     None \<Rightarrow> (unsupported c, s)
   | Some q \<Rightarrow> apfst (map_sum id (meaning_back c)) (run_state (reply_v1 E q) s))"
proof (cases c)
  case (Rpc0_CreateVolume req)
  then show ?thesis
    by (auto simp: CreateVolume_v0_def reply_defs Let_def tryE_def split: option.splits prod.splits sum.splits)
next
  case (Rpc0_ValidateVolumeCapabilities v caps a)
  then show ?thesis
    by (auto simp: ValidateVolumeCapabilities_v0_def reply_defs apfst_sum tryE_def split: option.splits prod.splits sum.splits)
next
  case (Rpc0_GetCapacity caps ps)
  then show ?thesis
    by (auto simp: GetCapacity_v0_def reply_defs apfst_sum tryE_def split: option.splits prod.splits sum.splits)
next
  case (Rpc0_NodeStageVolume v st cap a)
  then show ?thesis
    by (auto simp: NodeStageVolume_v0_def reply_defs apfst_sum tryE_def split: option.splits prod.splits sum.splits)
next
  case (Rpc0_NodePublishVolume v st t cap a r)
  then show ?thesis
    by (auto simp: NodePublishVolume_v0_def reply_defs apfst_sum tryE_def split: option.splits prod.splits sum.splits)
qed (auto simp: DeleteVolume_v0_def NodeUnstageVolume_v0_def NodeUnpublishVolume_v0_def reply_defs apfst_sum tryE_def
  split: prod.splits sum.splits)

lemma served_v0_served: "served_v0 E s t \<Longrightarrow> served E s t"
proof (induction rule: served_v0.induct)
  case served_v0_refl
  show ?case by (rule served_refl)
next
  case (served_v0_call t c)
  from served_v0_call.IH serve_v0_one_call show ?case by (rule served_one_call)
next
  case (served_v0_world t w')
  from served_v0_world.IH show ?case by (rule served_world)
qed

section \<open>Properties\<close>

text \<open>C11. The v0 adapter refines the v1 driver. After any session of v0 calls, which leaves the driver in a state that a
  session of v1 calls leaves it in, holding nothing, a v0 call is answered by the v1 call of the same meaning: with the
  same names, paths, parameters, attributes, capabilities and flags, to the same state, and with the answer or the error
  carried back. A request with a capability that is not a mount never reaches the driver and has the fixed answer of its
  kind. Two things are not carried over, and the statement says so: a volume created without a capacity is asked for with
  a capacity of zero, and a volume is staged without its attributes.\<close>

theorem v0_refines_v1:
  assumes "served_v0 E (init_drv w) s"
  shows "served E (init_drv w) s \<and> idle s \<and>
    run_state (reply0 E c) s = (case meaning (blurred c) of
       None \<Rightarrow> (unsupported c, s)
     | Some q \<Rightarrow> apfst (map_sum id (meaning_back c)) (run_state (reply_v1 E q) s))"
  using served_v0_served [OF assms] served_idle [OF served_v0_served [OF assms]] reply0_meaning [of E c s]
  by (simp add: idle_def init_drv_def)

theorem v0_refines_v1_witness:
  "run_state (reply0 sample_env (Rpc0_DeleteVolume [])) (snd (run_state (serve_v0 sample_env (Rpc0_DeleteVolume ''/share'')) (init_drv 0))) =
   (Inl (status_error InvalidArgument EmptyVolumeId), snd (run_state (serve_v0 sample_env (Rpc0_DeleteVolume ''/share'')) (init_drv 0)))"
proof -
  let ?s = "snd (run_state (serve_v0 sample_env (Rpc0_DeleteVolume ''/share'')) (init_drv 0))"
  have "served_v0 sample_env (init_drv 0) ?s" by (rule served_v0_call, rule served_v0_refl)
  from v0_refines_v1 [OF this, of "Rpc0_DeleteVolume []"] show ?thesis
    by (simp add: run_replying DeleteVolume_def)
qed

text \<open>Staging through the v0 adapter does not see what kind of volume it stages. For a mount capability
  that names no file system, a volume that the controller's attributes describe as \<open>ext4\<close> needs no staging
  in the v1 driver, and the adapter stages it as an NFS volume, with no attributes at all.\<close>

theorem v0_stage_ignores_attributes:
  "NodeStageVolume E ''/share/f'' ''/staging''
       (Some \<lparr>cap_AccessType = Some (Access_Mount [] fl), cap_AccessMode = mode_of_v0 m\<rparr>) [''fsType'' \<mapsto> ''ext4''] = ok () \<and>
   NodeStageVolume_v0 E ''/share/f'' ''/staging''
       (Some \<lparr>c0_AccessType = Some (Access_Mount [] fl), c0_AccessMode = m\<rparr>) [''fsType'' \<mapsto> ''ext4''] =
     stageNFSVolume E ''/share/f'' ''/staging'' fl Map.empty"
  by (simp add: NodeStageVolume_def NodeStageVolume_v0_def nodeVolumeFsType_def GetMount_def mget_def
      ConvertVolumeCapabilityFromv0Tov1_def GetMount_v0_def cap_mount_flags_def tryE_def)

end
