(* ===== verification/Server.thy ===== *)
theory Server
  imports Csi_V0
begin

text \<open>
  The two gRPC servers of the driver (\<open>pkg/driver/driver.go\<close> for CSI v1, \<open>pkg/driver/driver_csi_v0.go\<close> for
  v0): starting, stopping, the interceptor that logs each call, and the goroutine that serves.

  \<open>Start\<close> waits until the goroutine announces itself, not until it serves. Main program and goroutine are the two
  threads of the step relation \<open>server_step\<close>; what the gRPC library answers from \<open>Serve\<close> is its parameter: on a
  server that was stopped before, and when it fails while it serves. Every run that calls \<open>Stop\<close> ends or panics, and
  when \<open>Stop\<close> returns the goroutine has left \<open>Serve\<close>. \<open>Stop\<close> does not wait for the handlers of calls; they are not part
  of the relation.
\<close>

section \<open>State\<close>

datatype csi_version = CSI_V0 | CSI_V1

datatype grpc_service =
    Controller_Service csi_version | Identity_Service csi_version | Node_Service csi_version | Reflection_Service

record grpc_server =
  gs_services :: "grpc_service list"
  gs_keepalive :: int
  gs_stopped :: bool

text \<open>The goroutine of \<open>goServe\<close>: about to announce itself, about to call \<open>Serve\<close>, in it, or at its end.\<close>

datatype server_goroutine = Announcing | Entering | Serving | Returned | Panicked go_error

record csi_server =
  cs_listener :: "string option"
  cs_server :: "grpc_server option"
  cs_wg :: nat
  cs_running :: bool
  cs_goroutine :: "server_goroutine option"

definition new_server :: csi_server where
  "new_server = \<lparr>cs_listener = None, cs_server = None, cs_wg = 0, cs_running = False, cs_goroutine = None\<rparr>"

section \<open>Operations\<close>

text \<open>A nil pointer is a panic, here the value \<open>None\<close>.\<close>

definition server_Address :: "csi_server \<Rightarrow> string option" where
  "server_Address c = cs_listener c"

definition server_goServe :: "csi_server \<Rightarrow> csi_server" where
  "server_goServe c = c\<lparr>cs_wg := cs_wg c + 1, cs_goroutine := Some Announcing\<rparr>"

definition services_of :: "csi_version \<Rightarrow> grpc_service list" where
  "services_of v = [Controller_Service v, Identity_Service v, Node_Service v, Reflection_Service]"

text \<open>\<open>Start\<close> up to the point where it waits for the goroutine, and the rest of it.\<close>

definition begin_Start :: "csi_version \<Rightarrow> string \<Rightarrow> csi_server \<Rightarrow> csi_server" where
  "begin_Start v l c = server_goServe (c\<lparr>cs_listener := Some l,
     cs_server := Some \<lparr>gs_services = services_of v, gs_keepalive = 5 * 60 * second, gs_stopped = False\<rparr>\<rparr>)"

definition announced :: "csi_server \<Rightarrow> csi_server" where
  "announced c = c\<lparr>cs_goroutine := Some Entering, cs_running := True\<rparr>"

definition server_Start :: "string \<Rightarrow> csi_server \<Rightarrow> csi_server" where
  "server_Start l c = announced (begin_Start CSI_V1 l c)"

definition server_v0_Start :: "string \<Rightarrow> csi_server \<Rightarrow> csi_server" where
  "server_v0_Start l c = announced (begin_Start CSI_V0 l c)"

definition stop_grpc :: "csi_server \<Rightarrow> csi_server option" where
  "stop_grpc c = (case cs_server c of
      None \<Rightarrow> None
    | Some g \<Rightarrow> Some (c\<lparr>cs_server := Some (g\<lparr>gs_stopped := True\<rparr>)\<rparr>))"

text \<open>\<open>Stop\<close> up to the wait for the goroutine; the flag says whether it waits.\<close>

definition server_Stop :: "csi_server \<Rightarrow> (csi_server \<times> bool) option" where
  "server_Stop c = (if \<not> cs_running c then Some (c, False) else map_option (\<lambda>d. (d, True)) (stop_grpc c))"

definition server_Close :: "csi_server \<Rightarrow> csi_server option" where
  "server_Close c = stop_grpc c"

definition server_IsRunning :: "csi_server \<Rightarrow> bool" where
  "server_IsRunning c = cs_running c"

text \<open>The interceptor returns what the handler returns, and logs it.\<close>

datatype ('q, 'a) log_field = F_Method string | F_Request 'q | F_Response "'a option" | F_Error string

definition logGRPC :: "string \<Rightarrow> 'q \<Rightarrow> 'a res \<Rightarrow> (string \<times> ('q, 'a) log_field) list" where
  "logGRPC method req r =
     [(''grpc_method'', F_Method method), (''request'', F_Request req),
      (''response'', F_Response (case r of Inl _ \<Rightarrow> None | Inr reply \<Rightarrow> Some reply))] @
     (case r of Inl e \<Rightarrow> [(''error'', F_Error (err_text e))] | Inr _ \<Rightarrow> [])"

definition callInterceptor :: "string \<Rightarrow> 'q \<Rightarrow> ('q \<Rightarrow> ('w, 'a res) go)
    \<Rightarrow> ('w, 'a res \<times> (string \<times> ('q, 'a) log_field) list) go" where
  "callInterceptor method req handler = do {
     r \<leftarrow> handler req;
     ret (r, logGRPC method req r)
   }"

section \<open>The two threads\<close>

text \<open>What \<open>Serve\<close> returns: \<open>sl_late\<close> on a stopped server, and \<open>sl_fatal\<close>, the errors it may return while it serves (an
  \<open>Accept\<close> that fails for good).\<close>

record serve_lib =
  sl_late :: "go_error option"
  sl_fatal :: "go_error set"

text \<open>Where the main program is: before \<open>Start\<close>, waiting in it, between \<open>Start\<close> and \<open>Stop\<close>, waiting in \<open>Stop\<close>, or
  past it.\<close>

datatype main_at = At_Start | In_Start | At_Work | In_Stop | At_End

definition stopped :: "csi_server \<Rightarrow> bool" where
  "stopped c = (case cs_server c of None \<Rightarrow> False | Some g \<Rightarrow> gs_stopped g)"

text \<open>The return of \<open>Serve\<close>: with an error the goroutine panics, otherwise the wait group is told.\<close>

definition serve_returned :: "go_error option \<Rightarrow> csi_server \<Rightarrow> csi_server" where
  "serve_returned r c = (case r of
      Some e \<Rightarrow> c\<lparr>cs_goroutine := Some (Panicked e)\<rparr>
    | None \<Rightarrow> c\<lparr>cs_goroutine := Some Returned, cs_wg := cs_wg c - 1\<rparr>)"

text \<open>A goroutine that has panicked has ended the process: no step follows. On a server that is stopped while it
  serves, \<open>Serve\<close> returns without an error.\<close>

inductive server_step :: "serve_lib \<Rightarrow> csi_version \<Rightarrow> string \<Rightarrow> main_at \<times> csi_server \<Rightarrow> main_at \<times> csi_server \<Rightarrow> bool"
  for L v l where
  start: "server_step L v l (At_Start, c) (In_Start, begin_Start v l c)"
| announce: "cs_goroutine c = Some Announcing \<Longrightarrow> server_step L v l (In_Start, c) (At_Work, announced c)"
| enter: "cs_goroutine c = Some Entering \<Longrightarrow> \<not> stopped c \<Longrightarrow>
    server_step L v l (p, c) (p, c\<lparr>cs_goroutine := Some Serving\<rparr>)"
| enter_late: "cs_goroutine c = Some Entering \<Longrightarrow> stopped c \<Longrightarrow> server_step L v l (p, c) (p, serve_returned (sl_late L) c)"
| fail: "cs_goroutine c = Some Serving \<Longrightarrow> \<not> stopped c \<Longrightarrow> e \<in> sl_fatal L \<Longrightarrow>
    server_step L v l (p, c) (p, serve_returned (Some e) c)"
| return: "cs_goroutine c = Some Serving \<Longrightarrow> stopped c \<Longrightarrow> server_step L v l (p, c) (p, serve_returned None c)"
| stop: "\<nexists>e. cs_goroutine c = Some (Panicked e) \<Longrightarrow> server_Stop c = Some (d, w) \<Longrightarrow>
    server_step L v l (At_Work, c) (if w then In_Stop else At_End, d)"
| wait: "\<nexists>e. cs_goroutine c = Some (Panicked e) \<Longrightarrow> cs_wg c = 0 \<Longrightarrow> server_step L v l (In_Stop, c) (At_End, c)"

abbreviation server_reach where
  "server_reach L v l \<equiv> (server_step L v l)\<^sup>*\<^sup>* (At_Start, new_server)"

text \<open>What holds of the server at each point of the main program.\<close>

definition live_server :: "csi_version \<Rightarrow> string \<Rightarrow> bool \<Rightarrow> csi_server \<Rightarrow> bool" where
  "live_server v l st c \<longleftrightarrow> cs_listener c = Some l \<and>
     cs_server c = Some \<lparr>gs_services = services_of v, gs_keepalive = 5 * 60 * second, gs_stopped = st\<rparr>"

fun server_inv :: "serve_lib \<Rightarrow> csi_version \<Rightarrow> string \<Rightarrow> main_at \<times> csi_server \<Rightarrow> bool" where
  "server_inv L v l (At_Start, c) \<longleftrightarrow> c = new_server"
| "server_inv L v l (In_Start, c) \<longleftrightarrow>
     live_server v l False c \<and> cs_wg c = 1 \<and> \<not> cs_running c \<and> cs_goroutine c = Some Announcing"
| "server_inv L v l (At_Work, c) \<longleftrightarrow>
     live_server v l False c \<and> cs_wg c = 1 \<and> cs_running c \<and>
     cs_goroutine c \<in> {Some Entering, Some Serving} \<union> Some ` Panicked ` sl_fatal L"
| "server_inv L v l (In_Stop, c) \<longleftrightarrow> live_server v l True c \<and> cs_running c \<and>
     (cs_wg c = 1 \<and> cs_goroutine c \<in> {Some Entering, Some Serving} \<union> Some ` Panicked ` set_option (sl_late L) \<or>
      cs_wg c = 0 \<and> cs_goroutine c = Some Returned)"
| "server_inv L v l (At_End, c) \<longleftrightarrow>
     live_server v l True c \<and> cs_running c \<and> cs_wg c = 0 \<and> cs_goroutine c = Some Returned"

lemmas server_defs = begin_Start_def server_goServe_def announced_def new_server_def live_server_def
  server_Stop_def stop_grpc_def stopped_def serve_returned_def

lemma server_step_inv: "server_step L v l x y \<Longrightarrow> server_inv L v l x \<Longrightarrow> server_inv L v l y"
proof (induction rule: server_step.induct)
  case (enter c p)
  then show ?case by (cases p) (auto simp: server_defs)
next
  case (enter_late c p)
  then show ?case by (cases p; cases "sl_late L") (auto simp: server_defs)
next
  case (fail c e p)
  then show ?case by (cases p) (auto simp: server_defs)
next
  case (return c p)
  then show ?case by (cases p) (auto simp: server_defs)
qed (auto simp: server_defs)

text \<open>Steps left: every step takes one of the two threads forward.\<close>

fun main_left :: "main_at \<Rightarrow> nat" where
  "main_left At_Start = 4" | "main_left In_Start = 3" | "main_left At_Work = 2" | "main_left In_Stop = 1" | "main_left At_End = 0"

fun goroutine_left :: "server_goroutine option \<Rightarrow> nat" where
  "goroutine_left None = 3" | "goroutine_left (Some Announcing) = 3" | "goroutine_left (Some Entering) = 2"
| "goroutine_left (Some Serving) = 1" | "goroutine_left (Some Returned) = 0" | "goroutine_left (Some (Panicked e)) = 0"

definition server_left :: "main_at \<times> csi_server \<Rightarrow> nat" where
  "server_left x = main_left (fst x) + goroutine_left (cs_goroutine (snd x))"

lemma server_step_left: "server_step L v l x y \<Longrightarrow> server_inv L v l x \<Longrightarrow> server_left y < server_left x"
proof (induction rule: server_step.induct)
  case (enter_late c p)
  then show ?case by (cases "sl_late L") (auto simp: server_left_def server_defs)
qed (auto simp: server_left_def server_defs)

definition crashed :: "main_at \<times> csi_server \<Rightarrow> bool" where
  "crashed x \<longleftrightarrow> (\<exists>e. cs_goroutine (snd x) = Some (Panicked e))"

lemma server_progress:
  assumes "server_inv L v l x"
  shows "fst x = At_End \<or> crashed x \<or> (\<exists>y. server_step L v l x y)"
proof -
  obtain p c where x: "x = (p, c)" by (cases x)
  show ?thesis
  proof (cases p)
    case At_Start
    then show ?thesis by (auto simp: x intro: server_step.start)
  next
    case In_Start
    then show ?thesis using assms by (auto simp: x intro: server_step.announce)
  next
    case At_Work
    show ?thesis
    proof (cases "crashed x")
      case False
      then have "server_Stop c = Some (c\<lparr>cs_server := Some \<lparr>gs_services = services_of v,
          gs_keepalive = 5 * 60 * second, gs_stopped = True\<rparr>\<rparr>, True)" and "\<nexists>e. cs_goroutine c = Some (Panicked e)"
        using assms At_Work by (auto simp: x server_defs crashed_def)
      then show ?thesis using At_Work server_step.stop [of c _ True L v l] by (fastforce simp: x)
    qed simp
  next
    case In_Stop
    then have "stopped c" using assms by (auto simp: x server_defs)
    with In_Stop show ?thesis using assms
      by (auto simp: x crashed_def intro: server_step.enter_late server_step.return server_step.wait)
  qed (simp add: x)
qed

interpretation sv: runs_down "server_step L v l" "server_inv L v l" server_left "\<lambda>x. fst x = At_End \<or> crashed x"
  for L v l
  by unfold_locales (use server_step_inv server_step_left server_progress in blast)+

lemma server_init: "server_inv L v l (At_Start, new_server)"
  by simp

text \<open>Once the goroutine serves, a stop does not make it panic.\<close>

definition serving_inv :: "serve_lib \<Rightarrow> csi_version \<Rightarrow> string \<Rightarrow> bool \<Rightarrow> main_at \<times> csi_server \<Rightarrow> bool" where
  "serving_inv L v l st x \<longleftrightarrow> server_inv L v l x \<and> (st \<longrightarrow> stopped (snd x)) \<and>
     (if crashed x then \<not> stopped (snd x) else cs_goroutine (snd x) \<in> {Some Serving, Some Returned})"

interpretation sg: keeps_invariant "server_step L v l" "serving_inv L v l st" for L v l st
proof
  fix x y
  assume step: "server_step L v l x y" and inv: "serving_inv L v l st x"
  have "(st \<longrightarrow> stopped (snd y)) \<and>
      (if crashed y then \<not> stopped (snd y) else cs_goroutine (snd y) \<in> {Some Serving, Some Returned})" using step inv
    by (induction rule: server_step.induct) (auto simp: serving_inv_def crashed_def server_defs split: if_splits option.splits)
  then show "serving_inv L v l st y" using server_step_inv [OF step] inv by (simp only: serving_inv_def simp_thms)
qed

lemma serving_safe:
  assumes "(server_step L v l)\<^sup>*\<^sup>* x y" and "server_inv L v l x" and "cs_goroutine (snd x) = Some Serving"
  shows "\<not> (stopped (snd y) \<and> crashed y) \<and> (stopped (snd x) \<longrightarrow> \<not> crashed y)"
  using sg.run_keeps [OF assms(1), of "stopped (snd x)"] assms(2,3) by (auto simp: serving_inv_def crashed_def)

section \<open>The outcome as a function\<close>

text \<open>The sequential reading of \<open>Stop\<close>, for the main program: \<open>Stop\<close> returns, or the process panics first.\<close>

definition stop_and_wait :: "go_error option \<Rightarrow> csi_server \<Rightarrow> csi_server" where
  "stop_and_wait late c = (case server_Stop c of
      Some (d, True) \<Rightarrow> serve_returned (if cs_goroutine c = Some Serving then None else late) d
    | Some (d, False) \<Rightarrow> d
    | None \<Rightarrow> c)"

lemma stop_and_wait_steps:
  assumes "server_inv L v l (At_Work, c)" and "\<not> crashed (At_Work, c)"
  shows "\<exists>p. (server_step L v l)\<^sup>*\<^sup>* (At_Work, c) (p, stop_and_wait (sl_late L) c) \<and>
     (p = At_End \<or> crashed (p, stop_and_wait (sl_late L) c))"
proof -
  let ?d = "c\<lparr>cs_server := Some \<lparr>gs_services = services_of v, gs_keepalive = 5 * 60 * second, gs_stopped = True\<rparr>\<rparr>"
  have c: "server_Stop c = Some (?d, True)" "\<nexists>e. cs_goroutine c = Some (Panicked e)" "cs_wg c = 1"
    "cs_goroutine c \<in> {Some Entering, Some Serving}" "stopped ?d"
    using assms by (auto simp: server_defs crashed_def)
  have one: "server_step L v l (At_Work, c) (In_Stop, ?d)"
    using server_step.stop [OF c(2,1), of L v l] by simp
  let ?e = "stop_and_wait (sl_late L) c"
  have two: "server_step L v l (In_Stop, ?d) (In_Stop, ?e)"
  proof (cases "cs_goroutine c = Some Serving")
    case True
    then have "?e = serve_returned None ?d" by (simp add: stop_and_wait_def c)
    then show ?thesis using server_step.return [of ?d L v l In_Stop] True c by simp
  next
    case False
    then have "?e = serve_returned (sl_late L) ?d" "cs_goroutine ?d = Some Entering" using c(4) by (simp_all add: stop_and_wait_def c)
    then show ?thesis using server_step.enter_late [of ?d L v l In_Stop] c by simp
  qed
  have both: "(server_step L v l)\<^sup>*\<^sup>* (At_Work, c) (In_Stop, ?e)"
    by (rule converse_rtranclp_into_rtranclp, rule one, rule r_into_rtranclp, rule two)
  show ?thesis
  proof (cases "crashed (In_Stop, ?e)")
    case True
    with both show ?thesis by blast
  next
    case False
    then have "cs_wg ?e = 0"
      using c(3,4) by (auto simp: stop_and_wait_def c serve_returned_def crashed_def split: option.splits)
    with False have "server_step L v l (In_Stop, ?e) (At_End, ?e)"
      by (intro server_step.wait) (auto simp: crashed_def)
    from rtranclp.rtrancl_into_rtrancl [OF both this] show ?thesis by blast
  qed
qed

section \<open>Properties\<close>

text \<open>C27. The shutdown of either server: whatever the interleaving of the main program and the serving goroutine, the
  run can always go on until \<open>Stop\<close> has returned or the goroutine has panicked, in at most seven steps; when \<open>Stop\<close> has
  returned the goroutine is gone, the wait group is empty and the server is stopped; the server offers the services of
  its version. A panic has one of two reasons: \<open>Serve\<close> failed while it served and the server was not stopped, or \<open>Stop\<close>
  came before the goroutine reached \<open>Serve\<close> and \<open>Serve\<close> refused the stopped server. Once the goroutine serves, only the
  first is left, and a stop that finds it serving ends without a panic.\<close>

theorem server_shutdown:
  assumes "(server_step L v l ^^ n) (At_Start, new_server) x"
  shows "n \<le> 7 \<and>
    (\<exists>y. (server_step L v l)\<^sup>*\<^sup>* x y \<and> (fst y = At_End \<or> crashed y)) \<and>
    (fst x = At_End \<longrightarrow> cs_goroutine (snd x) = Some Returned \<and> cs_wg (snd x) = 0 \<and> stopped (snd x)) \<and>
    (\<forall>g. cs_server (snd x) = Some g \<longrightarrow> gs_services g = services_of v) \<and>
    (\<forall>e. cs_goroutine (snd x) = Some (Panicked e) \<longrightarrow>
       \<not> stopped (snd x) \<and> e \<in> sl_fatal L \<or> stopped (snd x) \<and> sl_late L = Some e) \<and>
    (cs_goroutine (snd x) = Some Serving \<longrightarrow> (\<forall>y. (server_step L v l)\<^sup>*\<^sup>* x y \<longrightarrow>
       \<not> (stopped (snd y) \<and> crashed y) \<and> (stopped (snd x) \<longrightarrow> \<not> crashed y)))"
proof -
  note inv = sv.steps_keep [OF assms server_init]
  have "n \<le> 7" using sv.steps_bounded [OF assms server_init] by (simp add: server_left_def new_server_def)
  moreover obtain p c where x: "x = (p, c)" by (cases x)
  have "fst x = At_End \<longrightarrow> cs_goroutine (snd x) = Some Returned \<and> cs_wg (snd x) = 0 \<and> stopped (snd x)"
    using inv by (auto simp: x server_defs)
  moreover have "\<forall>g. cs_server (snd x) = Some g \<longrightarrow> gs_services g = services_of v"
    using inv by (cases p) (auto simp: x server_defs)
  moreover have "\<forall>e. cs_goroutine (snd x) = Some (Panicked e) \<longrightarrow>
       \<not> stopped (snd x) \<and> e \<in> sl_fatal L \<or> stopped (snd x) \<and> sl_late L = Some e"
    using inv by (cases p) (auto simp: x server_defs)
  ultimately show ?thesis using sv.run_ends [OF inv] serving_safe [OF _ inv] by blast
qed

theorem server_shutdown_witness:
  "\<exists>y. (server_step \<lparr>sl_late = None, sl_fatal = {}\<rparr> CSI_V1 ''/csi.sock'')\<^sup>*\<^sup>* (At_Work, announced (begin_Start CSI_V1 ''/csi.sock'' new_server)) y \<and>
     (fst y = At_End \<or> crashed y)"
proof -
  let ?step = "server_step \<lparr>sl_late = None, sl_fatal = {}\<rparr> CSI_V1 ''/csi.sock''" and ?c = "begin_Start CSI_V1 ''/csi.sock'' new_server"
  have "?step (In_Start, ?c) (At_Work, announced ?c)" by (rule server_step.announce) (simp add: server_defs)
  then have "(?step ^^ 2) (At_Start, new_server) (At_Work, announced ?c)"
    unfolding numeral_2_eq_2 by (auto intro: server_step.start)
  from server_shutdown [OF this] show ?thesis by blast
qed

text \<open>A signal that arrives right after \<open>Start\<close> can meet a goroutine that has not called \<open>Serve\<close> yet.\<close>

lemma early_stop_run:
  "server_reach L v l (In_Stop, serve_returned (sl_late L) (begin_Start v l new_server
     \<lparr>cs_goroutine := Some Entering, cs_running := True,
      cs_server := Some \<lparr>gs_services = services_of v, gs_keepalive = 5 * 60 * second, gs_stopped = True\<rparr>\<rparr>))"
  (is "server_reach L v l (In_Stop, serve_returned (sl_late L) ?d)")
proof -
  have "server_step L v l (At_Start, new_server) (In_Start, begin_Start v l new_server)"
    by (rule server_step.start)
  moreover have "server_step L v l (In_Start, begin_Start v l new_server) (At_Work, announced (begin_Start v l new_server))"
    by (rule server_step.announce) (simp add: server_defs)
  moreover have "server_step L v l (At_Work, announced (begin_Start v l new_server)) (In_Stop, ?d)"
    using server_step.stop [of "announced (begin_Start v l new_server)" ?d True L v l] by (simp add: server_defs)
  moreover have "server_step L v l (In_Stop, ?d) (In_Stop, serve_returned (sl_late L) ?d)"
    by (rule server_step.enter_late) (simp_all add: server_defs)
  ultimately show ?thesis by (blast intro: converse_rtranclp_into_rtranclp)
qed

text \<open>Starting and stopping at once can end the process with a panic: if \<open>Serve\<close> refuses a stopped server, a run
  exists in which the main program waits in \<open>Stop\<close> and the goroutine panics with that refusal.\<close>

lemma early_stop_panics:
  "sl_late L = Some e \<Longrightarrow> \<exists>c. server_reach L v l (In_Stop, c) \<and> cs_goroutine c = Some (Panicked e)"
  using early_stop_run [of L v l] by (fastforce simp: serve_returned_def)

end
