(* ===== verification/Main_Program.thy ===== *)
theory Main_Program
  imports Server
begin

text \<open>
  The main program (\<open>main.go\<close>), the settings read when the packages are initialised
  (\<open>pkg/common/host_utils.go\<close>, \<open>pkg/driver/utils.go\<close>) and the resolution of the log level (\<open>pkg/common/logging.go\<close>). A run of the process
  checks its environment, logs in, opens its socket, serves calls until a signal arrives and stops.

  Outside the repository, and so parameters: the parser of URLs and of log levels, the telemetry exporters,
  the socket, and the environment of the driver for each choice of TLS verification. The calls that arrive
  before the signal are an argument of the run.
\<close>

section \<open>Log level and telemetry\<close>

definition ParseLogLevel :: "(string \<Rightarrow> 'l option) \<Rightarrow> 'l \<Rightarrow> string \<Rightarrow> 'l" where
  "ParseLogLevel parseLevel info level =
     (let l = trim_space level in
      if l = [] then info
      else (case parseLevel l of None \<Rightarrow> info | Some parsed \<Rightarrow> parsed))"

text \<open>The process-wide settings of the logger.\<close>

record 'l log_config =
  lc_PrettyPrint :: bool
  lc_DisableTimestamp :: bool
  lc_TimestampFormat :: string
  lc_Output :: string
  lc_Level :: 'l

definition ConfigureJSONLogging :: "(string \<Rightarrow> 'l option) \<Rightarrow> 'l \<Rightarrow> (string \<Rightarrow> string) \<Rightarrow> 'l log_config" where
  "ConfigureJSONLogging parseLevel info getenv =
     \<lparr>lc_PrettyPrint = False, lc_DisableTimestamp = False, lc_TimestampFormat = ''2006-01-02 15:04:05'',
      lc_Output = ''stdout'', lc_Level = ParseLogLevel parseLevel info (getenv ''LOG_LEVEL'')\<rparr>"

datatype exporter = No_Exporter | Console_Exporter | Otlp_Exporter | Prometheus_Exporter string

text \<open>The exporters report whether they could be set up; \<open>mergeErr\<close> is the outcome of merging the resource.\<close>

definition trace_exporter :: "(string \<Rightarrow> go_error option) \<Rightarrow> (string \<Rightarrow> string) \<Rightarrow> exporter res" where
  "trace_exporter setupErr getenv =
     (let e = getenv ''OTEL_TRACES_EXPORTER'' in
      if e = ''console'' then (case setupErr ''stdouttrace'' of Some err \<Rightarrow> Inl err | None \<Rightarrow> Inr Console_Exporter)
      else if e = ''otlp'' then (case setupErr ''otlptracegrpc'' of Some err \<Rightarrow> Inl err | None \<Rightarrow> Inr Otlp_Exporter)
      else Inr No_Exporter)"

definition metrics_exporter :: "(string \<Rightarrow> go_error option) \<Rightarrow> (string \<Rightarrow> string) \<Rightarrow> exporter res" where
  "metrics_exporter setupErr getenv =
     (let e = getenv ''OTEL_METRICS_EXPORTER'';
          listen = getenv ''OTEL_METRICS_PROMETHEUS_LISTEN'' in
      if e = ''prometheus'' then (case setupErr ''prometheus'' of
          Some err \<Rightarrow> Inl err
        | None \<Rightarrow> Inr (Prometheus_Exporter (if listen = [] then '':9090'' else listen)))
      else if e = ''otlp'' then (case setupErr ''otlpmetricgrpc'' of Some err \<Rightarrow> Inl err | None \<Rightarrow> Inr Otlp_Exporter)
      else Inr No_Exporter)"

definition initTelemetry :: "go_error option \<Rightarrow> (string \<Rightarrow> go_error option) \<Rightarrow> (string \<Rightarrow> string)
    \<Rightarrow> (exporter \<times> exporter) res" where
  "initTelemetry mergeErr setupErr getenv =
     (case mergeErr of
        Some err \<Rightarrow> Inl err
      | None \<Rightarrow> (case trace_exporter setupErr getenv of
          Inl err \<Rightarrow> Inl err
        | Inr traces \<Rightarrow> (case metrics_exporter setupErr getenv of
            Inl err \<Rightarrow> Inl err
          | Inr metrics \<Rightarrow> Inr (traces, metrics))))"

section \<open>Checking the environment\<close>

text \<open>
  The scheme and host of a URL come from the parser of URLs. \<open>Inl\<close> is the message logged before the process
  exits with status 1, \<open>Inr\<close> the mount prefix of the data portals. The variable \<open>err\<close> of the code, which the
  check of \<open>CSI_MAJOR_VERSION\<close> looks at, holds the outcome of parsing \<open>HS_TLS_VERIFY\<close> when that is set and of
  parsing the URL otherwise.
\<close>

definition validateEnvironmentVars :: "(string \<Rightarrow> (string \<times> string) option) \<Rightarrow> (string \<Rightarrow> string) \<Rightarrow> string + string" where
  "validateEnvironmentVars parseURL getenv =
     (let endpoint = getenv ''CSI_ENDPOINT''; hsEndpoint = getenv ''HS_ENDPOINT'';
          tls = getenv ''HS_TLS_VERIFY''; version = getenv ''CSI_MAJOR_VERSION'';
          endpointUrl = parseURL hsEndpoint;
          err = (if tls \<noteq> [] then ParseBool tls = None else endpointUrl = None) in
      if endpoint = [] then Inl ''CSI_ENDPOINT must be defined and must be a path''
      else if contains endpoint '':'' then Inl ''CSI_ENDPOINT must be a unix path''
      else if hsEndpoint = [] then Inl ''HS_ENDPOINT must be defined''
      else if (case endpointUrl of None \<Rightarrow> True | Some (scheme, host) \<Rightarrow> scheme \<noteq> ''https'' \<or> host = [])
        then Inl ''HS_ENDPOINT must be a valid HTTPS URL''
      else if getenv ''HS_USERNAME'' = [] then Inl ''HS_USERNAME must be defined''
      else if getenv ''HS_PASSWORD'' = [] then Inl ''HS_PASSWORD must be defined''
      else if tls \<noteq> [] \<and> ParseBool tls = None then Inl ''HS_TLS_VERIFY must be a bool''
      else if (version \<noteq> ''0'' \<or> version \<noteq> ''1'') \<and> err then Inl (''CSI_MAJOR_VERSION must be set to '' @ go_quote ''0'' @ '' or '' @ go_quote ''1'')
      else Inr (getenv ''HS_DATA_PORTAL_MOUNT_PREFIX''))"

section \<open>The run of the process\<close>

record 'w process =
  pr_Getenv :: "string \<Rightarrow> string"
  pr_ParseURL :: "string \<Rightarrow> (string \<times> string) option"
  pr_Env :: "bool \<Rightarrow> 'w env"
  pr_Listen :: "string \<Rightarrow> 'w \<Rightarrow> unit res \<times> 'w"
  pr_Frac :: "int \<Rightarrow> int \<Rightarrow> int \<Rightarrow> int"
  pr_SignalFirst :: bool
  pr_ServeStopped :: "go_error option"
  pr_ServeFails :: "go_error option"
  pr_CutOff :: "'w drv \<Rightarrow> 'w drv"
  pr_InClusterErr :: "go_error option"
  pr_ClientsetErr :: "go_error option"
  pr_NamespaceFile :: "string res"
  pr_MergeErr :: "go_error option"
  pr_SetupErr :: "string \<Rightarrow> go_error option"

text \<open>
  \<open>pr_Frac\<close> is the floating-point product of \<open>ParseDuration\<close>; \<open>pr_SignalFirst\<close> says that the signal arrives before
  the serving goroutine has called \<open>Serve\<close>, and \<open>pr_ServeStopped\<close> is what \<open>Serve\<close> then answers. \<open>pr_ServeFails\<close> is the
  error, if any, that \<open>Serve\<close> returns after the calls given, before a signal. \<open>Stop\<close> does not wait for handlers:
  \<open>pr_CutOff\<close> is what the calls still under way then do to the driver and the outside until the process ends, the
  identity when there are none.

  The settings of the environment. The timeout of mount checks is a positive duration, or 50 seconds; a failed detach
  of a loop device is retried a number of times that is not negative, or five times, after an interval that is not
  negative, or a second.
\<close>

definition mount_check_timeout :: "(int \<Rightarrow> int \<Rightarrow> int \<Rightarrow> int) \<Rightarrow> (string \<Rightarrow> string) \<Rightarrow> int" where
  "mount_check_timeout frac getenv =
     (let v = getenv ''MOUNT_CHECK_TIMEOUT'' in
      if v = [] then 50 * second
      else (case ParseDuration frac v of
          Some t \<Rightarrow> if t > 0 then t else 50 * second
        | None \<Rightarrow> 50 * second))"

definition max_retries :: "(string \<Rightarrow> string) \<Rightarrow> nat" where
  "max_retries getenv =
     (let retryCountStr = getenv ''UNMOUNT_RETRY_COUNT'' in
      if retryCountStr = [] then 5
      else (case ParseInt retryCountStr of
          Some n \<Rightarrow> if n \<ge> 0 then nat n else 5
        | None \<Rightarrow> 5))"

definition retry_interval :: "(int \<Rightarrow> int \<Rightarrow> int \<Rightarrow> int) \<Rightarrow> (string \<Rightarrow> string) \<Rightarrow> int" where
  "retry_interval frac getenv =
     (let retryIntervalStr = getenv ''UNMOUNT_RETRY_INTERVAL'' in
      if retryIntervalStr = [] then 1 * second
      else (case ParseDuration frac retryIntervalStr of
          Some t \<Rightarrow> if t \<ge> 0 then t else 1 * second
        | None \<Rightarrow> 1 * second))"

text \<open>The freezer is its namespace; outside a cluster there is none.\<close>

definition NewFreezer :: "'w process \<Rightarrow> 'w env \<Rightarrow> string option" where
  "NewFreezer P E =
     (if pr_InClusterErr P \<noteq> None then None
      else if pr_ClientsetErr P \<noteq> None then None
      else Some (driverNamespace E (pr_NamespaceFile P)))"

definition NewHammerspaceClient :: "'w env \<Rightarrow> ('w, unit res) go" where
  "NewHammerspaceClient E = EnsureLogin E"

text \<open>The driver is the environment its calls run in: the client's endpoint and credentials, the node and
  the mount slots are set here.\<close>

definition NewCSIDriver :: "'w process \<Rightarrow> string \<Rightarrow> string \<Rightarrow> string \<Rightarrow> string \<Rightarrow> ('w, 'w env res) go" where
  "NewCSIDriver P endpoint username password tlsVerifyStr =
     (let tlsVerify = (if pr_Getenv P ''HS_TLS_VERIFY'' \<noteq> [] then ParseBool tlsVerifyStr = Some True else False);
          E0 = (pr_Env P tlsVerify)\<lparr>env_Getenv := pr_Getenv P,
                 env_MountCheckTimeout := mount_check_timeout (pr_Frac P) (pr_Getenv P),
                 env_MaxRetries := max_retries (pr_Getenv P),
                 env_RetryInterval := retry_interval (pr_Frac P) (pr_Getenv P)\<rparr>;
          freezer = NewFreezer P E0;
          E = E0\<lparr>env_Endpoint := endpoint, env_Credentials := (username, password),
                env_NodeID := pr_Getenv P ''CSI_NODE_NAME'',
                env_MountSlots := Some (nat (maxConcurrentNFSMounts E0)),
                env_Freezer := freezer \<noteq> None,
                env_FreezerNamespace := (case freezer of None \<Rightarrow> [] | Some n \<Rightarrow> n)\<rparr>
      in tryE (NewHammerspaceClient E) id (\<lambda>_. ok E))"

datatype main_end = Exited | Crashed go_error | Stopped csi_version csi_server

text \<open>Calls one after the other. A panic of a handler is not recovered and ends the process.\<close>

fun serve_all :: "('c \<Rightarrow> ('w, unit) go) \<Rightarrow> 'c list \<Rightarrow> ('w, string option) go" where
  "serve_all f [] = ret None"
| "serve_all f (c # cs) = do {
     f c;
     p \<leftarrow> gets d_panic;
     (case p of Some m \<Rightarrow> ret (Some m) | None \<Rightarrow> serve_all f cs)
   }"

text \<open>From the removal of an old socket to the end of the process; the deferred removal runs last. Calls are served
  once the goroutine is in \<open>Serve\<close>; a panic of the goroutine or of a handler ends the process at once.\<close>

definition run_server :: "'w process \<Rightarrow> 'w env \<Rightarrow> string \<Rightarrow> csi_version \<Rightarrow> rpc_v0 list \<Rightarrow> rpc list
    \<Rightarrow> ('w, main_end) go" where
  "run_server P E endpoint version calls0 calls = do {
     _ \<leftarrow> call (Ev_Remove endpoint) (env_Remove E endpoint);
     l \<leftarrow> call (Ev_Create endpoint) (pr_Listen P endpoint);
     (case l of
        Inl _ \<Rightarrow> ret Exited
      | Inr _ \<Rightarrow> do {
          let c = (if version = CSI_V0 then server_v0_Start endpoint new_server else server_Start endpoint new_server);
          p \<leftarrow> (if pr_SignalFirst P then ret None
               else if version = CSI_V0 then serve_all (serve_v0 E) calls0 else serve_all (serve E) calls);
          (case p of
             Some m \<Rightarrow> ret (Crashed (new_error m))
           | None \<Rightarrow> do {
               let c' = (if pr_SignalFirst P then stop_and_wait (pr_ServeStopped P) c
                         else case pr_ServeFails P of
                             Some e \<Rightarrow> serve_returned (Some e) (c\<lparr>cs_goroutine := Some Serving\<rparr>)
                           | None \<Rightarrow> stop_and_wait (pr_ServeStopped P) (c\<lparr>cs_goroutine := Some Serving\<rparr>));
               (case cs_goroutine c' of
                  Some (Panicked e) \<Rightarrow> ret (Crashed e)
                | _ \<Rightarrow> do {
                    modify (pr_CutOff P);
                    _ \<leftarrow> call (Ev_Remove endpoint) (env_Remove E endpoint);
                    ret (Stopped version c')
                  })
             })
        })
   }"

text \<open>The two settings of the \<open>common\<close> package that the main program changes.\<close>

definition csi_env :: "string \<Rightarrow> string \<Rightarrow> 'w env \<Rightarrow> 'w env" where
  "csi_env prefix version E = E\<lparr>env_DataPortalMountPrefix := prefix,
     env_CsiVersion := (if version = ''0'' then ''0'' else env_CsiVersion E)\<rparr>"

definition main_program :: "'w process \<Rightarrow> rpc_v0 list \<Rightarrow> rpc list \<Rightarrow> ('w, main_end) go" where
  "main_program P calls0 calls =
     (case validateEnvironmentVars (pr_ParseURL P) (pr_Getenv P) of
        Inl _ \<Rightarrow> ret Exited
      | Inr prefix \<Rightarrow> do {
          d \<leftarrow> NewCSIDriver P (pr_Getenv P ''HS_ENDPOINT'') (pr_Getenv P ''HS_USERNAME'')
                 (pr_Getenv P ''HS_PASSWORD'') (pr_Getenv P ''HS_TLS_VERIFY'');
          (case d of
             Inl _ \<Rightarrow> ret Exited
           | Inr E \<Rightarrow> run_server P (csi_env prefix (pr_Getenv P ''CSI_MAJOR_VERSION'') E) (pr_Getenv P ''CSI_ENDPOINT'')
               (if pr_Getenv P ''CSI_MAJOR_VERSION'' = ''0'' then CSI_V0 else CSI_V1) calls0 calls)
        })"

text \<open>The process: the initialisation of the package sets up telemetry, and ends the process if it cannot.\<close>

definition init_program :: "'w process \<Rightarrow> (exporter \<times> exporter) res" where
  "init_program P = initTelemetry (pr_MergeErr P) (pr_SetupErr P) (pr_Getenv P)"

definition plugin_process :: "'w process \<Rightarrow> rpc_v0 list \<Rightarrow> rpc list \<Rightarrow> ('w, main_end) go" where
  "plugin_process P calls0 calls = (case init_program P of Inl _ \<Rightarrow> ret Exited | Inr _ \<Rightarrow> main_program P calls0 calls)"

text \<open>
  The portal of the Anvil is the host of the endpoint, without its port (\<open>hostname\<close> is the library's). A URL
  that does not parse is a nil pointer there, and reading its host a panic.
\<close>

definition GetAnvilPortal :: "(string \<Rightarrow> (string \<times> string) option) \<Rightarrow> (string \<Rightarrow> string) \<Rightarrow> string \<Rightarrow> string res" where
  "GetAnvilPortal parseURL hostname endpoint =
     (case parseURL endpoint of
        None \<Rightarrow> Inl ((new_error ''panic: nil pointer dereference'')\<lparr>err_exit := Some 2\<rparr>)
      | Some (scheme, host) \<Rightarrow> Inr (hostname host))"

lemma accepted_has_portal:
  assumes "validateEnvironmentVars parseURL getenv = Inr prefix"
  shows "\<exists>host. host \<noteq> [] \<and> GetAnvilPortal parseURL hostname (getenv ''HS_ENDPOINT'') = Inr (hostname host)"
  using assms unfolding validateEnvironmentVars_def Let_def GetAnvilPortal_def
  by (cases "parseURL (getenv ''HS_ENDPOINT'')") (auto split: if_splits)

section \<open>Sessions leave the driver idle\<close>

lemma wp_serve_all:
  assumes "\<And>c s. I s \<Longrightarrow> wp (f c) (\<lambda>_. I) s" and "I s"
  shows "wp (serve_all f cs) (\<lambda>r t. I t \<and> (\<forall>m. r = Some m \<longrightarrow> d_panic t = Some m)) s"
  using assms(2)
proof (induction cs arbitrary: s)
  case (Cons c cs)
  show ?case unfolding serve_all.simps wp_bind
    by (rule wp_mono [OF assms(1) [OF Cons.prems]]) (auto simp: wp_rules Cons.IH split: option.splits)
qed (simp add: wp_rules)

lemma serve_idle: "idle s \<Longrightarrow> wp (serve E c) (\<lambda>_. idle) s"
  using served_idle [OF served_call [OF served_refl], of s E c] by (simp add: wp_iff)

lemma serve_v0_idle: "idle s \<Longrightarrow> wp (serve_v0 E c) (\<lambda>_. idle) s"
  using serve_v0_one_call [of E s c] serve_idle [of s E] by (auto simp: wp_iff one_call_def)

abbreviation served_idle_end :: "string option \<Rightarrow> 'w drv \<Rightarrow> bool" where
  "served_idle_end r t \<equiv> idle t \<and> (\<forall>m. r = Some m \<longrightarrow> d_panic t = Some m)"

lemma serve_all_idle:
  "idle s \<Longrightarrow> wp (serve_all (serve E) cs) served_idle_end s"
  "idle s \<Longrightarrow> wp (serve_all (serve_v0 E) cs0) served_idle_end s"
  using wp_serve_all [of idle "serve E"] wp_serve_all [of idle "serve_v0 E"] serve_idle serve_v0_idle by blast+

lemma still_frozen_call: "\<not> is_freeze ev \<Longrightarrow> idle s \<Longrightarrow> wp (call ev f) (\<lambda>_. idle) s"
  using quiet_tidy [OF call_quiet_event, of ev f] tidy_idle by (auto simp: keep_iff_wp wp_iff)

lemma init_idle: "idle (init_drv w)"
  by (simp add: idle_def init_drv_def)

lemma login_idle: "idle s \<Longrightarrow> wp (NewCSIDriver P a b c d) (\<lambda>_. idle) s"
proof -
  have "state_io_rel quiet (NewCSIDriver P a b c d)"
    unfolding NewCSIDriver_def NewHammerspaceClient_def Let_def by (intro frame_intros)
  from quiet_tidy [OF this] show "idle s \<Longrightarrow> wp (NewCSIDriver P a b c d) (\<lambda>_. idle) s"
    by (auto simp: keep_iff_wp wp_iff intro: tidy_idle)
qed

text \<open>The ends of a run that started in world \<open>w\<close>: why it exited, why it crashed, and how it stopped.\<close>

definition start_refused :: "'w process \<Rightarrow> 'w \<Rightarrow> bool" where
  "start_refused P w \<longleftrightarrow> (\<exists>e. init_program P = Inl e) \<or>
     (\<exists>m. validateEnvironmentVars (pr_ParseURL P) (pr_Getenv P) = Inl m) \<or>
     (\<exists>e. fst (run_state (NewCSIDriver P (pr_Getenv P ''HS_ENDPOINT'') (pr_Getenv P ''HS_USERNAME'')
        (pr_Getenv P ''HS_PASSWORD'') (pr_Getenv P ''HS_TLS_VERIFY'')) (init_drv w)) = Inl e) \<or>
     (\<exists>u e. fst (pr_Listen P (pr_Getenv P ''CSI_ENDPOINT'') u) = Inl e)"

definition stopped_server :: "csi_version \<Rightarrow> csi_server \<Rightarrow> bool" where
  "stopped_server v c \<longleftrightarrow> cs_goroutine c = Some Returned \<and> cs_wg c = 0 \<and> stopped c \<and>
     (\<exists>g. cs_server c = Some g \<and> gs_services g = services_of v)"

definition clean_end :: "bool \<Rightarrow> 'w process \<Rightarrow> csi_version \<Rightarrow> string \<Rightarrow> main_end \<Rightarrow> 'w drv \<Rightarrow> bool" where
  "clean_end refused P version endpoint r s = (case r of
      Exited \<Rightarrow> refused
    | Crashed e \<Rightarrow> (if pr_SignalFirst P then pr_ServeStopped P = Some e
        else pr_ServeFails P = Some e \<or> (\<exists>m. d_panic s = Some m \<and> e = new_error m))
    | Stopped v c \<Rightarrow> v = version \<and> stopped_server v c \<and> (pr_CutOff P = id \<longrightarrow> idle s) \<and>
        (\<exists>evs. d_trace s = Ev_Remove endpoint # evs))"

lemmas start_stop_defs = stop_and_wait_def server_Start_def server_v0_Start_def server_defs

lemma started_stopped:
  fixes v :: csi_version and l :: string
  defines "c \<equiv> (if v = CSI_V0 then server_v0_Start l new_server else server_Start l new_server)"
  shows "stopped_server v (stop_and_wait late (c\<lparr>cs_goroutine := Some Serving\<rparr>))"
    and "late = None \<Longrightarrow> stopped_server v (stop_and_wait late c)"
    and "late = Some e \<Longrightarrow> cs_goroutine (stop_and_wait late c) = Some (Panicked e)"
  by (cases v; auto simp: c_def stopped_server_def start_stop_defs)+

lemma listening_clean:
  fixes P :: "'w process"
  assumes "idle t"
    and "c = (if pr_SignalFirst P then stop_and_wait (pr_ServeStopped P) c0
              else case pr_ServeFails P of
                  Some e \<Rightarrow> serve_returned (Some e) (c0\<lparr>cs_goroutine := Some Serving\<rparr>)
                | None \<Rightarrow> stop_and_wait (pr_ServeStopped P) (c0\<lparr>cs_goroutine := Some Serving\<rparr>))"
    and "c0 = (if v = CSI_V0 then server_v0_Start l new_server else server_Start l new_server)"
  shows "wp (do {
      p \<leftarrow> (if pr_SignalFirst P then ret None
           else if v = CSI_V0 then serve_all (serve_v0 E) calls0 else serve_all (serve E) calls);
      (case p of
         Some m \<Rightarrow> ret (Crashed (new_error m))
       | None \<Rightarrow> (case cs_goroutine c of
           Some (Panicked e) \<Rightarrow> ret (Crashed e)
         | _ \<Rightarrow> do {
             modify (pr_CutOff P);
             _ \<leftarrow> call (Ev_Remove l) (env_Remove E l);
             ret (Stopped v c)
           }))
    }) (clean_end refused P v l) t"
proof -
  have ended: "stopped_server v c \<or> (\<exists>e. cs_goroutine c = Some (Panicked e) \<and>
      (if pr_SignalFirst P then pr_ServeStopped P = Some e else pr_ServeFails P = Some e))"
    using started_stopped [where v = v and l = l and late = "pr_ServeStopped P"] assms(2,3)
    by (cases "pr_ServeStopped P"; cases "pr_ServeFails P") (auto simp: serve_returned_def split: if_splits)
  have fin: "wp (case cs_goroutine c of
         Some (Panicked e) \<Rightarrow> ret (Crashed e)
       | _ \<Rightarrow> do {modify (pr_CutOff P); _ \<leftarrow> call (Ev_Remove l) (env_Remove E l); ret (Stopped v c)})
      (clean_end refused P v l) u"
    if "idle u" for u
    using ended still_frozen_call [of "Ev_Remove l" u "env_Remove E l"] that
    by (auto simp: stopped_server_def wp_rules clean_end_def split: prod.splits)
  have "wp (if pr_SignalFirst P then ret None
      else if v = CSI_V0 then serve_all (serve_v0 E) calls0 else serve_all (serve E) calls)
      (\<lambda>r t. served_idle_end r t \<and> (pr_SignalFirst P \<longrightarrow> r = None)) t"
    using serve_all_idle [OF assms(1)] assms(1) by (simp add: wp_return)
  then show ?thesis unfolding wp_bind
  proof (rule wp_mono)
    fix r and u :: "'w drv"
    assume r: "served_idle_end r u \<and> (pr_SignalFirst P \<longrightarrow> r = None)"
    then show "wp (case r of
         Some m \<Rightarrow> ret (Crashed (new_error m))
       | None \<Rightarrow> (case cs_goroutine c of
           Some (Panicked e) \<Rightarrow> ret (Crashed e)
         | _ \<Rightarrow> do {
             modify (pr_CutOff P);
             _ \<leftarrow> call (Ev_Remove l) (env_Remove E l);
             ret (Stopped v c)
           })) (clean_end refused P v l) u"
      using fin [of u] by (cases r) (auto simp: wp_return clean_end_def)
  qed
qed

lemma run_server_clean:
  assumes "idle s" and "\<And>u e. fst (pr_Listen P l u) = Inl e \<Longrightarrow> refused"
  shows "wp (run_server P E l v calls0 calls) (clean_end refused P v l) s"
proof -
  have opened: "wp (call (Ev_Create l) (pr_Listen P l)) (\<lambda>r t. idle t \<and> ((\<exists>e. r = Inl e) \<longrightarrow> refused)) t" if "idle t" for t
    using still_frozen_call [of "Ev_Create l" t "pr_Listen P l"] that assms(2)
    by (fastforce simp: wp_call split: prod.splits)
  have rest: "wp (case r of Inl _ \<Rightarrow> ret Exited | Inr _ \<Rightarrow> f) (clean_end refused P v l) t"
    if "idle t \<and> ((\<exists>e. r = Inl e) \<longrightarrow> refused)" and "idle t \<Longrightarrow> wp f (clean_end refused P v l) t" for r :: "unit res" and f t
    using that by (cases r) (auto simp: wp_return clean_end_def)
  show ?thesis unfolding run_server_def Let_def wp_bind
    by (rule wp_mono [OF still_frozen_call [OF _ assms(1)]], simp, rule wp_mono [OF opened], assumption, rule rest,
        assumption, rule listening_clean [OF _ refl refl])
qed

section \<open>Properties\<close>

text \<open>The environment the process accepts, exactly: a socket path without a colon, an HTTPS URL with a host,
  a user and a password, and a boolean if TLS verification is set at all. \<open>CSI_MAJOR_VERSION\<close> is never the
  reason of a refusal.\<close>

theorem environment_accepted:
  "validateEnvironmentVars parseURL getenv = Inr prefix \<longleftrightarrow>
     prefix = getenv ''HS_DATA_PORTAL_MOUNT_PREFIX'' \<and>
     getenv ''CSI_ENDPOINT'' \<noteq> [] \<and> \<not> contains (getenv ''CSI_ENDPOINT'') '':'' \<and>
     getenv ''HS_ENDPOINT'' \<noteq> [] \<and>
     (\<exists>host. host \<noteq> [] \<and> parseURL (getenv ''HS_ENDPOINT'') = Some (''https'', host)) \<and>
     getenv ''HS_USERNAME'' \<noteq> [] \<and> getenv ''HS_PASSWORD'' \<noteq> [] \<and>
     (getenv ''HS_TLS_VERIFY'' = [] \<or> (\<exists>b. ParseBool (getenv ''HS_TLS_VERIFY'') = Some b))"
  unfolding validateEnvironmentVars_def Let_def
  by (cases "parseURL (getenv ''HS_ENDPOINT'')"; cases "ParseBool (getenv ''HS_TLS_VERIFY'')")
    (auto split: if_splits)

text \<open>C26. A run of the process from start to stop, for calls that are served one after the other. It exits before
  serving only if telemetry cannot be set up, its environment is refused, the login fails or the socket cannot be opened.
  It crashes only if the signal arrives before the goroutine serves and the library then refuses to, if \<open>Serve\<close> fails
  while it serves, or if a handler panics. Otherwise it serves the v0 protocol just when \<open>CSI_MAJOR_VERSION\<close> is 0, and at
  its end the server of that version is stopped, its goroutine has returned, and the last thing the main program does is
  to remove the socket. The driver then holds no lock, reference or slot and leaves nothing frozen, if no call was
  under way at the stop; \<open>Stop\<close> does not wait for such calls, and nothing is said of what they leave.\<close>

theorem process_run:
  "wp (plugin_process P calls0 calls)
     (clean_end (start_refused P w) P (if pr_Getenv P ''CSI_MAJOR_VERSION'' = ''0'' then CSI_V0 else CSI_V1)
        (pr_Getenv P ''CSI_ENDPOINT''))
     (init_drv w)"
proof (cases "init_program P"; cases "validateEnvironmentVars (pr_ParseURL P) (pr_Getenv P)")
  fix x m
  assume "init_program P = Inr x" and "validateEnvironmentVars (pr_ParseURL P) (pr_Getenv P) = Inl m"
  then show ?thesis by (auto simp: plugin_process_def main_program_def wp_rules clean_end_def start_refused_def)
next
  fix x prefix
  assume init: "init_program P = Inr x" and valid: "validateEnvironmentVars (pr_ParseURL P) (pr_Getenv P) = Inr prefix"
  let ?new = "NewCSIDriver P (pr_Getenv P ''HS_ENDPOINT'') (pr_Getenv P ''HS_USERNAME'') (pr_Getenv P ''HS_PASSWORD'')
      (pr_Getenv P ''HS_TLS_VERIFY'')"
  have login: "wp ?new (\<lambda>r s. idle s \<and> ((\<exists>e. r = Inl e) \<longrightarrow> start_refused P w)) (init_drv w)"
    using login_idle [OF init_idle, of P "pr_Getenv P ''HS_ENDPOINT''"] by (auto simp: wp_iff start_refused_def)
  show ?thesis unfolding plugin_process_def main_program_def init valid sum.case wp_bind
    by (rule wp_mono [OF login])
      (auto simp: wp_return clean_end_def [of _ _ _ _ Exited] start_refused_def split: sum.split intro!: run_server_clean)
qed (auto simp: plugin_process_def wp_rules clean_end_def start_refused_def)

text \<open>C33. The settings of the environment round-trip: a positive mount timeout, or a retry interval that is not negative,
  written the way Go writes durations, is the value the driver uses; whatever the environment holds, the mount timeout
  is positive and the interval not negative.\<close>

theorem timing_settings:
  assumes "exact_frac frac" and "0 < t" and "t \<le> MaxInt64"
  shows "mount_check_timeout frac (g(''MOUNT_CHECK_TIMEOUT'' := Duration_String t)) = t \<and>
    retry_interval frac (g(''UNMOUNT_RETRY_INTERVAL'' := Duration_String t)) = t \<and>
    retry_interval frac (g(''UNMOUNT_RETRY_INTERVAL'' := Duration_String 0)) = 0 \<and>
    max_retries (g(''UNMOUNT_RETRY_COUNT'' := FormatInt t)) = nat t \<and>
    0 < mount_check_timeout frac h \<and> 0 \<le> retry_interval frac h"
proof -
  have read: "ParseDuration frac (Duration_String u) = Some u" if "u \<in> {0, t}" for u
    by (rule ParseDuration_String [OF _ _ assms(1)]) (use that assms(2,3) in \<open>auto simp: MinInt64_def MaxInt64_def\<close>)
  have written: "Duration_String u \<noteq> []" if "u \<in> {0, t}" for u
  proof
    assume "Duration_String u = []"
    with read [OF that] show False by (simp add: ParseDuration_def)
  qed
  have count_read: "ParseInt (FormatInt t) = Some t" and count_written: "FormatInt t \<noteq> []"
    using ParseInt_FormatInt [of t] assms(2,3) by (auto simp: MinInt64_def MaxInt64_def ParseInt_def)
  have "0 < mount_check_timeout frac h \<and> 0 \<le> retry_interval frac h"
    by (simp add: mount_check_timeout_def retry_interval_def Let_def second_def split: option.split)
  then show ?thesis
    using assms(2) read written count_read count_written
    by (simp add: mount_check_timeout_def retry_interval_def max_retries_def)
qed

theorem timing_settings_witness:
  "mount_check_timeout (\<lambda>f u sc. f * u div sc) ((\<lambda>_. [])(''MOUNT_CHECK_TIMEOUT'' := ''1m30s'')) = 90 * second"
proof -
  have "exact_frac (\<lambda>f u sc. f * u div sc)" by (simp add: exact_frac_def div_mult_swap)
  from timing_settings [OF this, of "90 * second" "\<lambda>_. []" "\<lambda>_. []"]
  have "mount_check_timeout (\<lambda>f u sc. f * u div sc) ((\<lambda>_. [])(''MOUNT_CHECK_TIMEOUT'' := Duration_String (90 * second))) = 90 * second"
    by (simp add: second_def MaxInt64_def)
  moreover have "Duration_String (90 * second) = ''1m30s''" by code_simp
  ultimately show ?thesis by simp
qed

end
