(* ===== verification/Kube_Json.thy ===== *)
theory Kube_Json
  imports Driver_Types "HOL-Library.Finite_Map"
begin

text \<open>
  Kubernetes objects as the operator handles them: JSON values, with objects as finite maps from keys to
  values, and the functions of the Kubernetes libraries the operator calls. Those libraries are outside the
  repository; the record \<open>unstr\<close> holds what is used of them and is an argument of the definitions that use
  it. A nested field that is absent is \<open>Inr None\<close>, one of another type is an error; a setter gives the new
  object together with the error it reports.

  The locale \<open>unstructured_lib\<close> states the documented behaviour the operator relies on. The instance at the
  end reads and writes along paths of keys; it shows that the laws can hold and serves the instances of the
  theorems about the operator.
\<close>

section \<open>Values\<close>

datatype json =
    JNull | JBool bool | JNum int | JStr string | JArr "json list" | JObj "(string, json) fmap"

type_synonym jmap = "(string, json) fmap"

type_synonym labels = "(string, string) fmap"

definition jobj :: "(string \<times> json) list \<Rightarrow> json" where
  "jobj kvs = JObj (fmap_of_list kvs)"

definition jstrs :: "string list \<Rightarrow> json" where
  "jstrs xs = JArr (map JStr xs)"

text \<open>The comparison of an entry with a string, as in \<open>m["name"] == s\<close>.\<close>

definition has_text :: "jmap \<Rightarrow> string \<Rightarrow> string \<Rightarrow> bool" where
  "has_text m k s \<longleftrightarrow> fmlookup m k = Some (JStr s)"

text \<open>A failed type assertion ends the process; here it is an error with the exit status of a panic.\<close>

definition type_panic :: "string \<Rightarrow> go_error" where
  "type_panic m = (new_error (''panic: interface conversion: '' @ m))\<lparr>err_exit := Some 2\<rparr>"

definition as_obj :: "json \<Rightarrow> jmap res" where
  "as_obj j = (case j of JObj m \<Rightarrow> Inr m | _ \<Rightarrow> Inl (type_panic ''not a map''))"

text \<open>A loop that stops at the first error.\<close>

fun each :: "('a \<Rightarrow> 'b res) \<Rightarrow> 'a list \<Rightarrow> 'b list res" where
  "each f [] = Inr []"
| "each f (x # xs) = (case f x of
     Inl e \<Rightarrow> Inl e
   | Inr y \<Rightarrow> (case each f xs of Inl e \<Rightarrow> Inl e | Inr ys \<Rightarrow> Inr (y # ys)))"

lemma each_Inr: "each f xs = Inr ys \<longleftrightarrow> list_all2 (\<lambda>x y. f x = Inr y) xs ys"
proof (induction xs arbitrary: ys)
  case (Cons x xs)
  show ?case
  proof (cases "each f xs")
    case (Inl e)
    then show ?thesis using Cons.IH by (auto simp: list_all2_Cons1 split: sum.splits)
  next
    case (Inr zs)
    then have "list_all2 (\<lambda>x y. f x = Inr y) xs us \<longleftrightarrow> us = zs" for us using Cons.IH [of us] by auto
    then show ?thesis using Inr by (auto simp: list_all2_Cons1 split: sum.splits)
  qed
qed auto

lemma each_length: "each f xs = Inr ys \<Longrightarrow> length ys = length xs"
  by (simp add: each_Inr list_all2_lengthD)

lemma each_set: "each f xs = Inr ys \<Longrightarrow> y \<in> set ys \<Longrightarrow> \<exists>x \<in> set xs. f x = Inr y"
  unfolding each_Inr list_all2_conv_all_nth by (metis in_set_conv_nth)

section \<open>The Kubernetes libraries\<close>

record owner_reference =
  or_APIVersion :: string
  or_Kind :: string
  or_Name :: string
  or_UID :: string
  or_Controller :: "bool option"

record unstr =
  un_GetKind :: "jmap \<Rightarrow> string"
  un_GetName :: "jmap \<Rightarrow> string"
  un_GetNamespace :: "jmap \<Rightarrow> string"
  un_GetAPIVersion :: "jmap \<Rightarrow> string"
  un_GetUID :: "jmap \<Rightarrow> string"
  un_GetResourceVersion :: "jmap \<Rightarrow> string"
  un_GetGeneration :: "jmap \<Rightarrow> int"
  un_GetDeletionTimestamp :: "jmap \<Rightarrow> string option"
  un_GetFinalizers :: "jmap \<Rightarrow> string list"
  un_GetOwnerReferences :: "jmap \<Rightarrow> owner_reference list"
  un_GetLabels :: "jmap \<Rightarrow> labels option"
  un_SetName :: "string \<Rightarrow> jmap \<Rightarrow> jmap"
  un_SetNamespace :: "string \<Rightarrow> jmap \<Rightarrow> jmap"
  un_SetUID :: "string \<Rightarrow> jmap \<Rightarrow> jmap"
  un_SetResourceVersion :: "string \<Rightarrow> jmap \<Rightarrow> jmap"
  un_SetFinalizers :: "string list \<Rightarrow> jmap \<Rightarrow> jmap"
  un_SetOwnerReferences :: "owner_reference list \<Rightarrow> jmap \<Rightarrow> jmap"
  un_SetLabels :: "labels \<Rightarrow> jmap \<Rightarrow> jmap"
  un_NestedFieldNoCopy :: "jmap \<Rightarrow> string list \<Rightarrow> json option res"
  un_NestedSlice :: "jmap \<Rightarrow> string list \<Rightarrow> json list option res"
  un_NestedMap :: "jmap \<Rightarrow> string list \<Rightarrow> jmap option res"
  un_NestedString :: "jmap \<Rightarrow> string list \<Rightarrow> string option res"
  un_NestedInt64 :: "jmap \<Rightarrow> string list \<Rightarrow> int option res"
  un_NestedStringMap :: "jmap \<Rightarrow> string list \<Rightarrow> labels option res"
  un_NestedStringSlice :: "jmap \<Rightarrow> string list \<Rightarrow> string list option res"
  un_SetNestedField :: "json \<Rightarrow> string list \<Rightarrow> jmap \<Rightarrow> jmap \<times> go_error option"
  un_SetNestedSlice :: "json list \<Rightarrow> string list \<Rightarrow> jmap \<Rightarrow> jmap \<times> go_error option"
  un_SetNestedMap :: "jmap \<Rightarrow> string list \<Rightarrow> jmap \<Rightarrow> jmap \<times> go_error option"
  un_SetNestedStringMap :: "labels \<Rightarrow> string list \<Rightarrow> jmap \<Rightarrow> jmap \<times> go_error option"
  un_SetNestedStringSlice :: "string list \<Rightarrow> string list \<Rightarrow> jmap \<Rightarrow> jmap \<times> go_error option"
  un_ParseGroupVersion :: "string \<Rightarrow> string \<times> string"
  un_IsDNS1123Subdomain :: "string \<Rightarrow> bool"

text \<open>The value of a nested read whose error and whose absence the code ignores.\<close>

definition or_zero :: "'a \<Rightarrow> 'a option res \<Rightarrow> 'a" where
  "or_zero z r = (case r of Inr (Some v) \<Rightarrow> v | _ \<Rightarrow> z)"

text \<open>
  What the operator relies on: a setter is read back by its getter and leaves the other parts of the
  metadata and the fields outside the metadata alone; a map or slice that was set without error is read
  back, and fields elsewhere are left alone.
\<close>

definition template_spec :: "string list" where
  "template_spec = [''spec'', ''template'', ''spec'']"

definition template_annotations :: "string list" where
  "template_annotations = [''spec'', ''template'', ''metadata'', ''annotations'']"

locale unstructured_lib =
  fixes L :: unstr
  assumes owner_set: "un_GetOwnerReferences L (un_SetOwnerReferences L refs v) = refs"
    and owner_labels: "un_GetOwnerReferences L (un_SetLabels L l v) = un_GetOwnerReferences L v"
    and labels_set: "un_GetLabels L (un_SetLabels L l v) = Some l"
    and kind_kept: "un_GetKind L (un_SetOwnerReferences L refs v) = un_GetKind L v"
      "un_GetKind L (un_SetLabels L l v) = un_GetKind L v"
    and name_kept: "un_GetName L (un_SetOwnerReferences L refs v) = un_GetName L v"
      "un_GetName L (un_SetLabels L l v) = un_GetName L v"
    and namespace_kept: "un_GetNamespace L (un_SetOwnerReferences L refs v) = un_GetNamespace L v"
      "un_GetNamespace L (un_SetLabels L l v) = un_GetNamespace L v"
    and pod_kept: "un_NestedMap L (un_SetOwnerReferences L refs v) template_spec = un_NestedMap L v template_spec"
      "un_NestedMap L (un_SetLabels L l v) template_spec = un_NestedMap L v template_spec"
    and pod_set: "un_NestedMap L v template_spec = Inr (Some p) \<Longrightarrow>
        un_NestedMap L (fst (un_SetNestedStringMap L a template_annotations
          (fst (un_SetNestedMap L pod template_spec v)))) template_spec = Inr (Some pod)"
    and pod_kind: "un_GetKind L (fst (un_SetNestedStringMap L a template_annotations
          (fst (un_SetNestedMap L pod template_spec v)))) = un_GetKind L v"
    and kind_text: "fmlookup v ''kind'' = Some (JStr s) \<Longrightarrow> un_GetKind L v = s"
    and env_kept: "k \<noteq> ''env'' \<Longrightarrow> fmlookup (fst (un_SetNestedSlice L xs [''env''] v)) k = fmlookup v k"
begin

lemmas meta_kept = owner_labels kind_kept name_kept namespace_kept pod_kept

end

section \<open>An instance\<close>

definition path_error :: go_error where
  "path_error = new_error ''value is of another type''"

fun get_path :: "string list \<Rightarrow> json \<Rightarrow> json option res" where
  "get_path [] j = Inr (Some j)"
| "get_path (k # ks) j = (case j of
     JObj m \<Rightarrow> (case fmlookup m k of None \<Rightarrow> Inr None | Some x \<Rightarrow> get_path ks x)
   | _ \<Rightarrow> Inl path_error)"

fun set_path :: "string list \<Rightarrow> json \<Rightarrow> jmap \<Rightarrow> jmap \<times> go_error option" where
  "set_path [] x m = (m, Some path_error)"
| "set_path [k] x m = (fmupd k x m, None)"
| "set_path (k # l # ks) x m = (case fmlookup m k of
     None \<Rightarrow> (case set_path (l # ks) x fmempty of (n, e) \<Rightarrow> (fmupd k (JObj n) m, e))
   | Some (JObj u) \<Rightarrow> (case set_path (l # ks) x u of (n, e) \<Rightarrow> (fmupd k (JObj n) m, e))
   | Some _ \<Rightarrow> (m, Some path_error))"

definition typed :: "(json \<Rightarrow> 'a option) \<Rightarrow> json option res \<Rightarrow> 'a option res" where
  "typed f r = (case r of
     Inl e \<Rightarrow> Inl e
   | Inr None \<Rightarrow> Inr None
   | Inr (Some j) \<Rightarrow> (case f j of None \<Rightarrow> Inl path_error | Some x \<Rightarrow> Inr (Some x)))"

fun json_str :: "json \<Rightarrow> string option" where
  "json_str (JStr s) = Some s" | "json_str _ = None"

fun json_num :: "json \<Rightarrow> int option" where
  "json_num (JNum n) = Some n" | "json_num _ = None"

fun json_arr :: "json \<Rightarrow> json list option" where
  "json_arr (JArr xs) = Some xs" | "json_arr _ = None"

fun json_obj :: "json \<Rightarrow> jmap option" where
  "json_obj (JObj m) = Some m" | "json_obj _ = None"

definition text_or_empty :: "json \<Rightarrow> string" where
  "text_or_empty j = (case json_str j of None \<Rightarrow> [] | Some s \<Rightarrow> s)"

fun json_labels :: "json \<Rightarrow> labels option" where
  "json_labels (JObj m) = Some (fmmap text_or_empty m)" | "json_labels _ = None"

fun json_strs :: "json \<Rightarrow> string list option" where
  "json_strs (JArr xs) = Some (map text_or_empty xs)" | "json_strs _ = None"

definition labels_json :: "labels \<Rightarrow> json" where
  "labels_json l = JObj (fmmap JStr l)"

lemma json_labels_json [simp]: "json_labels (labels_json l) = Some l"
proof -
  have "text_or_empty \<circ> JStr = id" by (simp add: fun_eq_iff text_or_empty_def)
  then show ?thesis by (simp add: labels_json_def fmap.map_comp fmap.map_id)
qed

definition meta :: "jmap \<Rightarrow> jmap" where
  "meta v = (case fmlookup v ''metadata'' of Some (JObj m) \<Rightarrow> m | _ \<Rightarrow> fmempty)"

definition set_meta :: "string \<Rightarrow> json \<Rightarrow> jmap \<Rightarrow> jmap" where
  "set_meta k j v = fmupd ''metadata'' (JObj (fmupd k j (meta v))) v"

definition meta_text :: "string \<Rightarrow> jmap \<Rightarrow> string" where
  "meta_text k v = (case fmlookup (meta v) k of Some j \<Rightarrow> text_or_empty j | None \<Rightarrow> [])"

definition top_text :: "string \<Rightarrow> jmap \<Rightarrow> string" where
  "top_text k v = (case fmlookup v k of Some j \<Rightarrow> text_or_empty j | None \<Rightarrow> [])"

lemma meta_set [simp]:
  "fmlookup (meta (set_meta k j v)) k' = (if k' = k then Some j else fmlookup (meta v) k')"
  "k' \<noteq> k \<Longrightarrow> meta_text k' (set_meta k j v) = meta_text k' v"
  "k' \<noteq> ''metadata'' \<Longrightarrow> fmlookup (set_meta k j v) k' = fmlookup v k'"
  "k' \<noteq> ''metadata'' \<Longrightarrow> top_text k' (set_meta k j v) = top_text k' v"
  by (auto simp: set_meta_def meta_def meta_text_def top_text_def)

definition owner_json :: "owner_reference \<Rightarrow> json" where
  "owner_json r = jobj ([(''apiVersion'', JStr (or_APIVersion r)), (''kind'', JStr (or_Kind r)),
     (''name'', JStr (or_Name r)), (''uid'', JStr (or_UID r))] @
     (case or_Controller r of None \<Rightarrow> [] | Some b \<Rightarrow> [(''controller'', JBool b)]))"

definition json_owner :: "json \<Rightarrow> owner_reference" where
  "json_owner j = (let m = (case json_obj j of Some m \<Rightarrow> m | None \<Rightarrow> fmempty) in
     \<lparr>or_APIVersion = top_text ''apiVersion'' m, or_Kind = top_text ''kind'' m,
      or_Name = top_text ''name'' m, or_UID = top_text ''uid'' m,
      or_Controller = (case fmlookup m ''controller'' of Some (JBool b) \<Rightarrow> Some b | _ \<Rightarrow> None)\<rparr>)"

lemma json_owner_json [simp]: "json_owner (owner_json r) = r"
  by (cases r) (auto simp: json_owner_def owner_json_def jobj_def top_text_def text_or_empty_def
      fmlookup_of_list split: option.splits)

definition sample_unstr :: unstr where
  "sample_unstr =
     \<lparr>un_GetKind = top_text ''kind'', un_GetName = meta_text ''name'', un_GetNamespace = meta_text ''namespace'',
      un_GetAPIVersion = top_text ''apiVersion'', un_GetUID = meta_text ''uid'',
      un_GetResourceVersion = meta_text ''resourceVersion'',
      un_GetGeneration = (\<lambda>v. case fmlookup (meta v) ''generation'' of Some (JNum n) \<Rightarrow> n | _ \<Rightarrow> 0),
      un_GetDeletionTimestamp = (\<lambda>v. case fmlookup (meta v) ''deletionTimestamp'' of Some (JStr t) \<Rightarrow> Some t | _ \<Rightarrow> None),
      un_GetFinalizers = (\<lambda>v. case fmlookup (meta v) ''finalizers'' of Some (JArr xs) \<Rightarrow> map text_or_empty xs | _ \<Rightarrow> []),
      un_GetOwnerReferences = (\<lambda>v. case fmlookup (meta v) ''ownerReferences'' of Some (JArr xs) \<Rightarrow> map json_owner xs | _ \<Rightarrow> []),
      un_GetLabels = (\<lambda>v. case fmlookup (meta v) ''labels'' of Some j \<Rightarrow> json_labels j | None \<Rightarrow> None),
      un_SetName = (\<lambda>s. set_meta ''name'' (JStr s)), un_SetNamespace = (\<lambda>s. set_meta ''namespace'' (JStr s)),
      un_SetUID = (\<lambda>s. set_meta ''uid'' (JStr s)), un_SetResourceVersion = (\<lambda>s. set_meta ''resourceVersion'' (JStr s)),
      un_SetFinalizers = (\<lambda>fs. set_meta ''finalizers'' (jstrs fs)),
      un_SetOwnerReferences = (\<lambda>rs. set_meta ''ownerReferences'' (JArr (map owner_json rs))),
      un_SetLabels = (\<lambda>l. set_meta ''labels'' (labels_json l)),
      un_NestedFieldNoCopy = (\<lambda>v p. get_path p (JObj v)),
      un_NestedSlice = (\<lambda>v p. typed json_arr (get_path p (JObj v))),
      un_NestedMap = (\<lambda>v p. typed json_obj (get_path p (JObj v))),
      un_NestedString = (\<lambda>v p. typed json_str (get_path p (JObj v))),
      un_NestedInt64 = (\<lambda>v p. typed json_num (get_path p (JObj v))),
      un_NestedStringMap = (\<lambda>v p. typed json_labels (get_path p (JObj v))),
      un_NestedStringSlice = (\<lambda>v p. typed json_strs (get_path p (JObj v))),
      un_SetNestedField = (\<lambda>j p. set_path p j),
      un_SetNestedSlice = (\<lambda>xs p. set_path p (JArr xs)),
      un_SetNestedMap = (\<lambda>m p. set_path p (JObj m)),
      un_SetNestedStringMap = (\<lambda>l p. set_path p (labels_json l)),
      un_SetNestedStringSlice = (\<lambda>xs p. set_path p (jstrs xs)),
      un_ParseGroupVersion = (\<lambda>s. case split_on (CHR ''/'') s of [v] \<Rightarrow> ([], v) | g # v # _ \<Rightarrow> (g, v) | [] \<Rightarrow> ([], [])),
      un_IsDNS1123Subdomain = (\<lambda>s. s \<noteq> [] \<and> list_all (\<lambda>c. c \<in> set ''abcdefghijklmnopqrstuvwxyz0123456789-.'') s)\<rparr>"

lemma get_template [simp]: "get_path template_spec (JObj (set_meta k j v)) = get_path template_spec (JObj v)"
  by (simp add: template_spec_def)

lemma typed_Some: "typed f r = Inr (Some x) \<longleftrightarrow> (\<exists>j. r = Inr (Some j) \<and> f j = Some x)"
  by (auto simp: typed_def split: sum.splits option.splits)

lemma template_path:
  "get_path template_spec (JObj v) = Inr (Some j) \<longleftrightarrow>
    (\<exists>a b. fmlookup v ''spec'' = Some (JObj a) \<and> fmlookup a ''template'' = Some (JObj b) \<and> fmlookup b ''spec'' = Some j)"
  by (auto simp: template_spec_def split: option.splits json.splits)

lemma set_template:
  assumes "get_path template_spec (JObj v) = Inr (Some j)"
  shows "get_path template_spec (JObj (fst (set_path template_annotations y (fst (set_path template_spec x v))))) = Inr (Some x)"
  using assms unfolding template_path
  by (auto simp: template_spec_def template_annotations_def split: option.splits json.splits prod.splits)

lemma set_path_top: "k \<noteq> k' \<Longrightarrow> fmlookup (fst (set_path (k # ks) x v)) k' = fmlookup v k'"
  by (cases ks) (auto split: option.splits json.splits prod.splits)

interpretation sample_lib: unstructured_lib sample_unstr
proof
  fix v :: jmap and pod a p
  assume "un_NestedMap sample_unstr v template_spec = Inr (Some p)"
  then show "un_NestedMap sample_unstr (fst (un_SetNestedStringMap sample_unstr a template_annotations
      (fst (un_SetNestedMap sample_unstr pod template_spec v)))) template_spec = Inr (Some pod)"
    using set_template [of v _ "labels_json a" "JObj pod"]
    by (auto simp: sample_unstr_def typed_Some)
next
  fix v :: jmap and pod a
  show "un_GetKind sample_unstr (fst (un_SetNestedStringMap sample_unstr a template_annotations
      (fst (un_SetNestedMap sample_unstr pod template_spec v)))) = un_GetKind sample_unstr v"
    by (simp add: sample_unstr_def template_spec_def template_annotations_def top_text_def set_path_top
        del: set_path.simps)
qed (simp_all add: sample_unstr_def comp_def top_text_def text_or_empty_def)

end
