(* ===== verification/Wire_Formats.thy ===== *)
theory Wire_Formats
  imports Kube_Json
begin

text \<open>
  The JSON coding that the driver defines itself: the progress of a task
  (\<open>pkg/common/backward_compability.go\<close>) and objectives with their unknown fields (\<open>pkg/common/hs_types.go\<close>).
  The coding of plain values is that of the JSON library, a parameter. Floating-point numbers are an arbitrary
  type with the operations the code uses.
\<close>

section \<open>Progress\<close>

record 'f float64 =
  fl_OfInt :: "int \<Rightarrow> 'f"
  fl_Div :: "'f \<Rightarrow> 'f \<Rightarrow> 'f"
  fl_Mul :: "'f \<Rightarrow> 'f \<Rightarrow> 'f"
  fl_Trunc :: "'f \<Rightarrow> int"

definition Progress_UnmarshalJSON :: "'f float64 \<Rightarrow> (string \<Rightarrow> 'f res) \<Rightarrow> (string \<Rightarrow> int res) \<Rightarrow> string \<Rightarrow> 'f res" where
  "Progress_UnmarshalJSON F decFloat decInt data =
     (case decFloat data of
        Inr floatVal \<Rightarrow> Inr floatVal
      | Inl _ \<Rightarrow> (case decInt data of
          Inr intVal \<Rightarrow> Inr (fl_Div F (fl_OfInt F intVal) (fl_OfInt F 100))
        | Inl _ \<Rightarrow> Inl (new_error (''invalid progress format: '' @ data))))"

definition Percentage :: "'f float64 \<Rightarrow> 'f \<Rightarrow> int" where
  "Percentage F p = fl_Trunc F (fl_Mul F p (fl_OfInt F 100))"

text \<open>
  An integer is also a number: where the library reads an integer, it reads the same text as a floating-point
  number. So the progress of the old format, 1 to 100, is never brought to the scale from 0 to 1.
\<close>

lemma progress_not_scaled:
  assumes "\<And>d n. decInt d = Inr n \<Longrightarrow> decFloat d = Inr (fl_OfInt F n)" and "decInt data = Inr n"
  shows "Progress_UnmarshalJSON F decFloat decInt data = Inr (fl_OfInt F n)"
  using assms by (simp add: Progress_UnmarshalJSON_def)

section \<open>Objectives\<close>

text \<open>The fields of an objective; \<open>None\<close> is the nil map that decoding \<open>null\<close> gives.\<close>

record objective =
  oj_Name :: string
  oj_Fields :: "jmap option"

definition objective_UnmarshalJSON :: "(string \<Rightarrow> jmap option res) \<Rightarrow> objective \<Rightarrow> string \<Rightarrow> objective res" where
  "objective_UnmarshalJSON decode v data =
     (case decode data of
        Inl e \<Rightarrow> Inl e
      | Inr fs \<Rightarrow> Inr (v\<lparr>oj_Fields := fs,
          oj_Name := (case fs of
              Some m \<Rightarrow> (case fmlookup m ''name'' of Some (JStr name) \<Rightarrow> name | _ \<Rightarrow> oj_Name v)
            | None \<Rightarrow> oj_Name v)\<rparr>))"

definition objective_MarshalJSON :: "(json \<Rightarrow> string res) \<Rightarrow> objective \<Rightarrow> string res" where
  "objective_MarshalJSON encode v =
     (case oj_Fields v of
        Some fs \<Rightarrow> encode (JObj fs)
      | None \<Rightarrow> encode (jobj [(''name'', JStr (oj_Name v))]))"

text \<open>An objective that was read is written back with every field it came with, known or not.\<close>

lemma objective_roundtrip:
  assumes "\<And>m d. encode (JObj m) = Inr d \<Longrightarrow> decode d = Inr (Some m)"
    and "decode data = Inr (Some m)" and "encode (JObj m) = Inr data'"
    and "objective_UnmarshalJSON decode v0 data = Inr v"
  shows "objective_MarshalJSON encode v = Inr data' \<and> objective_UnmarshalJSON decode v0 data' = Inr v"
  using assms by (auto simp: objective_UnmarshalJSON_def objective_MarshalJSON_def)

end
