(* ===== verification/Go_Encoding.thy ===== *)
theory Go_Encoding
  imports Go_Strings "HOL-Library.Char_ord" "HOL-Library.List_Lexorder"
begin

text \<open>
  What the operator uses of Go's packages \<open>sort\<close> and \<open>encoding/base64\<close>. Strings are ordered by their bytes;
  the standard base64 decoder skips line ends, wants padding, and refuses anything after it. The encoder is
  the reference the decoder is checked against.
\<close>

section \<open>Sorting\<close>

definition sort_Strings :: "string list \<Rightarrow> string list" where
  "sort_Strings xs = sort xs"

lemma sort_Strings_Nil [simp]: "sort_Strings xs = [] \<longleftrightarrow> xs = []"
  by (metis length_0_conv length_sort sort_Strings_def)

section \<open>Decoding\<close>

definition base64_alphabet :: string where
  "base64_alphabet = ''ABCDEFGHIJKLMNOPQRSTUVWXYZabcdefghijklmnopqrstuvwxyz0123456789+/''"

fun index_of :: "char \<Rightarrow> string \<Rightarrow> nat option" where
  "index_of c [] = None"
| "index_of c (x # xs) = (if x = c then Some 0 else map_option Suc (index_of c xs))"

definition sextet :: "char \<Rightarrow> nat option" where
  "sextet c = index_of c base64_alphabet"

definition byte1 :: "nat \<Rightarrow> nat \<Rightarrow> char" where "byte1 a b = char_of (a * 4 + b div 16)"
definition byte2 :: "nat \<Rightarrow> nat \<Rightarrow> char" where "byte2 b c = char_of (b mod 16 * 16 + c div 4)"
definition byte3 :: "nat \<Rightarrow> nat \<Rightarrow> char" where "byte3 c d = char_of (c mod 4 * 64 + d)"

definition pad :: char where "pad = CHR ''=''"

fun base64_quanta :: "string \<Rightarrow> string option" where
  "base64_quanta [] = Some []"
| "base64_quanta (a # b # c # d # rest) =
     (case (sextet a, sextet b) of
        (Some i, Some j) \<Rightarrow>
          if c = pad then (if d = pad \<and> rest = [] then Some [byte1 i j] else None)
          else (case sextet c of
              None \<Rightarrow> None
            | Some k \<Rightarrow>
                if d = pad then (if rest = [] then Some [byte1 i j, byte2 j k] else None)
                else (case sextet d of
                    None \<Rightarrow> None
                  | Some l \<Rightarrow> map_option (\<lambda>r. byte1 i j # byte2 j k # byte3 k l # r) (base64_quanta rest)))
      | _ \<Rightarrow> None)"
| "base64_quanta _ = None"

definition base64_DecodeString :: "string \<Rightarrow> string option" where
  "base64_DecodeString s = base64_quanta (filter (\<lambda>c. c \<noteq> CHR 0x0A \<and> c \<noteq> CHR 0x0D) s)"

section \<open>The encoder\<close>

definition digit64 :: "nat \<Rightarrow> char" where
  "digit64 n = base64_alphabet ! n"

fun base64_encode :: "string \<Rightarrow> string" where
  "base64_encode [] = []"
| "base64_encode [x] = (let m = of_char x in [digit64 (m div 4), digit64 (m mod 4 * 16), pad, pad])"
| "base64_encode [x, y] = (let m = of_char x; n = of_char y in
     [digit64 (m div 4), digit64 (m mod 4 * 16 + n div 16), digit64 (n mod 16 * 4), pad])"
| "base64_encode (x # y # z # rest) = (let m = of_char x; n = of_char y; q = of_char z in
     [digit64 (m div 4), digit64 (m mod 4 * 16 + n div 16), digit64 (n mod 16 * 4 + q div 64), digit64 (q mod 64)] @
     base64_encode rest)"

lemma index_of_nth: "distinct xs \<Longrightarrow> i < length xs \<Longrightarrow> index_of (xs ! i) xs = Some i"
proof (induction xs arbitrary: i)
  case (Cons x xs)
  then show ?case by (cases i) (auto simp: nth_mem)
qed simp

lemma alphabet_facts: "distinct base64_alphabet" "length base64_alphabet = 64"
  "pad \<notin> set base64_alphabet" "CHR 0x0A \<notin> set base64_alphabet" "CHR 0x0D \<notin> set base64_alphabet"
  by code_simp+

lemma digit64:
  assumes "n < 64"
  shows "sextet (digit64 n) = Some n" "digit64 n \<noteq> pad" "digit64 n \<noteq> CHR 0x0A" "digit64 n \<noteq> CHR 0x0D"
proof -
  show "sextet (digit64 n) = Some n"
    using assms by (simp add: sextet_def digit64_def index_of_nth alphabet_facts)
  have "digit64 n \<in> set base64_alphabet" using assms by (simp add: digit64_def alphabet_facts)
  then show "digit64 n \<noteq> pad" "digit64 n \<noteq> CHR 0x0A" "digit64 n \<noteq> CHR 0x0D"
    using alphabet_facts(3-5) by metis+
qed

lemma of_char_less: "(of_char c :: nat) < 256"
  using of_char_mod_256 [of c, where 'a = nat] by (metis mod_less_divisor zero_less_numeral)

lemma split_bytes:
  fixes m n q :: nat
  assumes "n < 256" and "q < 256"
  shows "m div 4 * 4 + (m mod 4 * 16 + n div 16) div 16 = m"
    and "(m mod 4 * 16 + n div 16) mod 16 * 16 + (n mod 16 * 4 + q div 64) div 4 = n"
    and "(n mod 16 * 4 + q div 64) mod 4 * 64 + q mod 64 = q"
proof -
  have small: "n div 16 < 16" "q div 64 < 4" using assms by (auto intro: less_mult_imp_div_less)
  then have "(m mod 4 * 16 + n div 16) div 16 = m mod 4" by (simp only: div_mult_self3 div_less)
  then show "m div 4 * 4 + (m mod 4 * 16 + n div 16) div 16 = m" by simp
  from small have "(m mod 4 * 16 + n div 16) mod 16 = n div 16" by (simp only: mod_mult_self3 mod_less)
  moreover from small have "(n mod 16 * 4 + q div 64) div 4 = n mod 16" by (simp only: div_mult_self3 div_less)
  ultimately show "(m mod 4 * 16 + n div 16) mod 16 * 16 + (n mod 16 * 4 + q div 64) div 4 = n" by simp
  from small have "(n mod 16 * 4 + q div 64) mod 4 = q div 64" by (simp only: mod_mult_self3 mod_less)
  then show "(n mod 16 * 4 + q div 64) mod 4 * 64 + q mod 64 = q" by simp
qed

lemma bytes:
  fixes x y z :: char
  defines "m \<equiv> of_char x :: nat" and "n \<equiv> of_char y :: nat" and "q \<equiv> of_char z :: nat"
  shows "byte1 (m div 4) (m mod 4 * 16 + n div 16) = x" and "byte1 (m div 4) (m mod 4 * 16) = x"
    and "byte2 (m mod 4 * 16 + n div 16) (n mod 16 * 4 + q div 64) = y"
    and "byte2 (m mod 4 * 16 + n div 16) (n mod 16 * 4) = y"
    and "byte3 (n mod 16 * 4 + q div 64) (q mod 64) = z"
proof -
  have n: "n < 256" and q: "q < 256" by (simp_all add: n_def q_def of_char_less)
  show "byte1 (m div 4) (m mod 4 * 16 + n div 16) = x" "byte2 (m mod 4 * 16 + n div 16) (n mod 16 * 4 + q div 64) = y"
    "byte3 (n mod 16 * 4 + q div 64) (q mod 64) = z"
    unfolding byte1_def byte2_def byte3_def split_bytes [OF n q] by (simp_all add: m_def n_def q_def)
  show "byte1 (m div 4) (m mod 4 * 16) = x" "byte2 (m mod 4 * 16 + n div 16) (n mod 16 * 4) = y"
    using split_bytes(1) [of 0 0 m] split_bytes(2) [OF n, of 0 m] unfolding byte1_def byte2_def
    by (simp_all add: m_def n_def del: div_mult_self3 mod_mult_self3)
qed

lemma digits_small:
  "(of_char x :: nat) div 4 < 64" "(of_char x :: nat) mod 4 * 16 + of_char y div 16 < 64" "(of_char x :: nat) mod 4 * 16 < 64"
  "(of_char y :: nat) mod 16 * 4 + of_char z div 64 < 64" "(of_char y :: nat) mod 16 * 4 < 64" "(of_char z :: nat) mod 64 < 64"
proof -
  have d: "(of_char x :: nat) div 4 < 64" "(of_char y :: nat) div 16 < 16" "(of_char z :: nat) div 64 < 4" for x y z :: char
    using of_char_less [of x] of_char_less [of y] of_char_less [of z] by (auto intro: less_mult_imp_div_less)
  have r: "(of_char x :: nat) mod 4 < 4" "(of_char y :: nat) mod 16 < 16" by simp_all
  show "(of_char x :: nat) div 4 < 64" by (rule d)
  show "(of_char x :: nat) mod 4 * 16 + of_char y div 16 < 64" "(of_char x :: nat) mod 4 * 16 < 64"
    "(of_char y :: nat) mod 16 * 4 + of_char z div 64 < 64" "(of_char y :: nat) mod 16 * 4 < 64"
    using d(2) [of y] d(3) [of z] r by linarith+
  show "(of_char z :: nat) mod 64 < 64" by simp
qed

lemma base64_roundtrip: "base64_DecodeString (base64_encode s) = Some s"
proof -
  have plain: "filter (\<lambda>c. c \<noteq> CHR 0x0A \<and> c \<noteq> CHR 0x0D) (base64_encode t) = base64_encode t" for t
    by (induction t rule: base64_encode.induct) (simp_all add: Let_def digit64 digits_small pad_def)
  have "base64_quanta (base64_encode t) = Some t" for t
    by (induction t rule: base64_encode.induct) (simp_all add: Let_def digit64 digits_small bytes)
  then show ?thesis by (simp add: base64_DecodeString_def plain)
qed

end
