(* ===== verification/Operand_Manifests.thy ===== *)
theory Operand_Manifests
  imports Kube_Json Go_Encoding
begin

text \<open>
  The package that derives what the operator installs from the deployment manifest
  (\<open>operator/internal/manifests\<close>: \<open>generate.go\<close>, \<open>images.go\<close>, \<open>rbac.go\<close>) and the command around it
  (\<open>operator/cmd/generate-operands\<close>). A YAML stream is the list of documents its decoder gives before the
  end, or before the error the decoder then reports; encoders are parameters.

  The theorems: the image inventory names for every container of every workload the one image it runs, and
  the check of delegated permissions accepts exactly the manifests in which the operator holds, without
  restriction to names, every permission it hands out.
\<close>

type_synonym yaml_stream = "jmap list \<times> go_error option"

section \<open>Operands (generate.go)\<close>

definition hasName :: "json list \<Rightarrow> string \<Rightarrow> bool" where
  "hasName entries name = (\<exists>j \<in> set entries. case j of JObj v \<Rightarrow> has_text v ''name'' name | _ \<Rightarrow> False)"

text \<open>The resources of a rule without those the driver does not need.\<close>

definition retained_resources :: "string list \<Rightarrow> string list \<Rightarrow> string list" where
  "retained_resources groups resources =
     filter (\<lambda>r. \<not> (length groups = 1 \<and>
       (groups ! 0 = [] \<and> r = ''secrets'' \<or>
        groups ! 0 = ''apiextensions.k8s.io'' \<and> r = ''customresourcedefinitions''))) resources"

definition filter_rule :: "unstr \<Rightarrow> jmap \<Rightarrow> jmap option" where
  "filter_rule L rule =
     (let groups = or_zero [] (un_NestedStringSlice L rule [''apiGroups'']);
          resources = or_zero [] (un_NestedStringSlice L rule [''resources'']);
          retained = retained_resources groups resources
      in if retained = [] then None
         else Some (fst (un_SetNestedStringSlice L retained [''resources''] rule)))"

definition filter_rules :: "unstr \<Rightarrow> string \<Rightarrow> json list \<Rightarrow> json list res" where
  "filter_rules L name rules =
     (case each (\<lambda>entry. case entry of
          JObj rule \<Rightarrow> Inr (filter_rule L rule)
        | _ \<Rightarrow> Inl (new_error (name @ '': invalid RBAC rule''))) rules of
        Inl e \<Rightarrow> Inl e
      | Inr kept \<Rightarrow> Inr (map JObj (concat (map (\<lambda>r. case r of None \<Rightarrow> [] | Some m \<Rightarrow> [m]) kept))))"

text \<open>The defaults of one container. The two resource requests are set in the order of a Go map, which is
  not specified; they are independent fields.\<close>

definition default_request :: "unstr \<Rightarrow> string \<times> string \<Rightarrow> jmap \<Rightarrow> jmap" where
  "default_request L rv container =
     (case un_NestedFieldNoCopy L container [''resources'', ''requests'', fst rv] of
        Inr (Some _) \<Rightarrow> container
      | _ \<Rightarrow> fst (un_SetNestedField L (JStr (snd rv)) [''resources'', ''requests'', fst rv] container))"

definition drop_preStop :: "jmap \<Rightarrow> jmap" where
  "drop_preStop container =
     (case fmlookup container ''lifecycle'' of
        Some (JObj lifecycle) \<Rightarrow>
          (let l = fmdrop ''preStop'' lifecycle
           in if l = fmempty then fmdrop ''lifecycle'' container else fmupd ''lifecycle'' (JObj l) container)
      | _ \<Rightarrow> container)"

definition rootshare_mount :: json where
  "rootshare_mount = jobj [(''name'', JStr ''rootshare-dir''), (''mountPath'', JStr ''/var/lib/hammerspace/''),
     (''mountPropagation'', JStr ''Bidirectional'')]"

definition rootshare_volume :: json where
  "rootshare_volume = jobj [(''name'', JStr ''rootshare-dir''),
     (''hostPath'', jobj [(''path'', JStr ''/var/lib/hammerspace/''), (''type'', JStr ''DirectoryOrCreate'')])]"

definition configure_container :: "unstr \<Rightarrow> json \<Rightarrow> json res" where
  "configure_container L entry =
     (case entry of
        JObj c0 \<Rightarrow>
          (let c1 = fmupd ''imagePullPolicy'' (JStr ''IfNotPresent'') c0;
               c2 = default_request L (''memory'', ''64Mi'') (default_request L (''cpu'', ''10m'') c1);
               c3 = (if has_text c2 ''name'' ''driver-registrar'' then drop_preStop c2 else c2)
           in if has_text c3 ''name'' ''hs-csi-plugin-controller'' then
                (case un_NestedSlice L c3 [''volumeMounts''] of
                   Inl e \<Rightarrow> Inl e
                 | Inr found \<Rightarrow>
                     (let mounts = (case found of None \<Rightarrow> [] | Some ms \<Rightarrow> ms);
                          mounts1 = (if hasName mounts ''rootshare-dir'' then mounts else mounts @ [rootshare_mount])
                      in Inr (JObj (fst (un_SetNestedSlice L mounts1 [''volumeMounts''] c3)))))
              else Inr (JObj c3))
      | _ \<Rightarrow> Inl (new_error ''invalid container''))"

definition configure_volume :: "unstr \<Rightarrow> json \<Rightarrow> json res" where
  "configure_volume L entry =
     (case entry of
        JObj volume \<Rightarrow>
          if has_text volume ''name'' ''rootshare-dir'' then
            (case un_NestedFieldNoCopy L volume [''hostPath'', ''type''] of
               Inr (Some _) \<Rightarrow> Inr entry
             | _ \<Rightarrow> Inr (JObj (fst (un_SetNestedField L (JStr ''DirectoryOrCreate'') [''hostPath'', ''type''] volume))))
          else Inr entry
      | _ \<Rightarrow> Inl (new_error ''invalid volume''))"

definition move_service_account :: "jmap \<Rightarrow> jmap" where
  "move_service_account pod =
     (case fmlookup pod ''serviceAccount'' of
        None \<Rightarrow> pod
      | Some account \<Rightarrow> fmdrop ''serviceAccount''
          (if fmlookup pod ''serviceAccountName'' = None then fmupd ''serviceAccountName'' account pod else pod))"

definition configure_volumes :: "unstr \<Rightarrow> jmap \<Rightarrow> jmap res" where
  "configure_volumes L pod =
     (case un_NestedSlice L pod [''volumes''] of
        Inl e \<Rightarrow> Inl e
      | Inr found \<Rightarrow>
          (let volumes = (case found of None \<Rightarrow> [] | Some vs \<Rightarrow> vs);
               volumes1 = (if hasName volumes ''rootshare-dir'' then volumes else volumes @ [rootshare_volume])
           in (case each (configure_volume L) volumes1 of
                 Inl e \<Rightarrow> Inl e
               | Inr volumes2 \<Rightarrow> Inr (fst (un_SetNestedSlice L volumes2 [''volumes''] pod)))))"

definition configureWorkload :: "unstr \<Rightarrow> jmap \<Rightarrow> jmap res" where
  "configureWorkload L v =
     (case un_NestedMap L v template_spec of
        Inr (Some pod0) \<Rightarrow>
          (let pod1 = fst (un_SetNestedField L (JStr ''linux'') [''nodeSelector'', ''kubernetes.io/os'']
                        (move_service_account pod0))
           in (case un_NestedSlice L pod1 [''containers''] of
                 Inr (Some (c # cs)) \<Rightarrow>
                   (case each (configure_container L) (c # cs) of
                      Inl e \<Rightarrow> Inl e
                    | Inr containers \<Rightarrow>
                        (case configure_volumes L (fst (un_SetNestedSlice L containers [''containers''] pod1)) of
                           Inl e \<Rightarrow> Inl e
                         | Inr pod2 \<Rightarrow> (case un_SetNestedMap L pod2 template_spec v of
                             (w, None) \<Rightarrow> Inr w
                           | (w, Some e) \<Rightarrow> Inl e)))
               | _ \<Rightarrow> Inl (new_error ''missing containers'')))
      | _ \<Rightarrow> Inl (new_error ''missing pod spec''))"

definition rename_role :: "unstr \<Rightarrow> jmap \<Rightarrow> jmap res" where
  "rename_role L v0 =
     (let v = un_SetName L (''hammerspace-'' @ un_GetName L v0) v0 in
      case un_NestedSlice L v [''rules''] of
        Inl e \<Rightarrow> Inl e
      | Inr found \<Rightarrow> (case filter_rules L (un_GetName L v) (case found of None \<Rightarrow> [] | Some rs \<Rightarrow> rs) of
          Inl e \<Rightarrow> Inl e
        | Inr filtered \<Rightarrow> Inr (fst (un_SetNestedSlice L filtered [''rules''] v))))"

definition rename_binding :: "unstr \<Rightarrow> jmap \<Rightarrow> jmap res" where
  "rename_binding L v0 =
     (let v = un_SetName L (''hammerspace-'' @ un_GetName L v0) v0 in
      case un_NestedString L v [''roleRef'', ''name''] of
        Inr (Some (c # cs)) \<Rightarrow>
          Inr (fst (un_SetNestedField L (JStr (''hammerspace-'' @ c # cs)) [''roleRef'', ''name''] v))
      | _ \<Rightarrow> Inl (new_error (un_GetName L v @ '': missing roleRef.name'')))"

definition generate_object :: "unstr \<Rightarrow> jmap \<Rightarrow> jmap res" where
  "generate_object L v0 =
     (if un_GetName L v0 = [] \<or> un_GetAPIVersion L v0 = [] then
        Inl (new_error ''manifest object requires apiVersion and metadata.name'')
      else
        (let v = un_SetNamespace L [] v0; kind = un_GetKind L v in
         if kind \<in> {''CSIDriver'', ''Service'', ''ServiceAccount'', ''ConfigMap''} then Inr v
         else if kind = ''ClusterRole'' then rename_role L v
         else if kind = ''ClusterRoleBinding'' then rename_binding L v
         else if kind = ''StatefulSet'' \<or> kind = ''DaemonSet'' then
           (case configureWorkload L v of
              Inl e \<Rightarrow> Inl (wrap_error (un_GetName L v @ '': '' @ err_text e) e)
            | Inr w \<Rightarrow> Inr w)
         else Inl (new_error (''unsupported operand kind '' @ go_quote kind))))"

definition generate_objects :: "unstr \<Rightarrow> yaml_stream \<Rightarrow> jmap list res" where
  "generate_objects L source =
     (case each (generate_object L) (filter (\<lambda>v. v \<noteq> fmempty) (fst source)) of
        Inl e \<Rightarrow> Inl e
      | Inr objects \<Rightarrow> (case snd source of
          Some e \<Rightarrow> Inl (wrap_error (''decode source manifest: '' @ err_text e) e)
        | None \<Rightarrow>
            if objects = [] then Inl (new_error ''source manifest contains no operands'') else Inr objects))"

definition Generate :: "unstr \<Rightarrow> (jmap list \<Rightarrow> string) \<Rightarrow> yaml_stream \<Rightarrow> string res" where
  "Generate L encode source = (case generate_objects L source of
     Inl e \<Rightarrow> Inl e
   | Inr objects \<Rightarrow> Inr (encode objects @ [CHR 0x0A]))"

section \<open>Images (images.go)\<close>

definition ContainerImageKey :: "string \<Rightarrow> string option" where
  "ContainerImageKey = map_of
     [(''hs-csi-plugin-controller'', ''driver''), (''hs-csi-plugin-node'', ''driver''),
      (''csi-provisioner'', ''provisioner''), (''csi-attacher'', ''attacher''),
      (''csi-snapshotter'', ''snapshotter''), (''csi-resizer'', ''resizer''),
      (''driver-registrar'', ''registrar''), (''liveness-probe'', ''livenessprobe'')]"

definition image_of :: "labels \<Rightarrow> string \<Rightarrow> string" where
  "image_of images key = (case fmlookup images key of None \<Rightarrow> [] | Some i \<Rightarrow> i)"

definition entry_text :: "jmap \<Rightarrow> string \<Rightarrow> string" where
  "entry_text m k = (case fmlookup m k of Some (JStr s) \<Rightarrow> s | _ \<Rightarrow> [])"

definition add_image :: "json \<Rightarrow> labels \<Rightarrow> labels res" where
  "add_image item images =
     (case item of
        JObj container \<Rightarrow>
          (case ContainerImageKey (entry_text container ''name'') of
             None \<Rightarrow> Inl (new_error (''no release image mapping for container '' @ go_quote (entry_text container ''name'')))
           | Some key \<Rightarrow>
               (let image = entry_text container ''image'' in
                if image = [] \<or> (image_of images key \<noteq> [] \<and> image_of images key \<noteq> image)
                then Inl (new_error (''missing or conflicting image for '' @ key))
                else Inr (fmupd key image images)))
      | _ \<Rightarrow> Inl (new_error ''invalid operand container''))"

fun add_images :: "json list \<Rightarrow> labels \<Rightarrow> labels res" where
  "add_images [] images = Inr images"
| "add_images (c # cs) images = (case add_image c images of Inl e \<Rightarrow> Inl e | Inr i \<Rightarrow> add_images cs i)"

definition is_workload :: "jmap \<Rightarrow> bool" where
  "is_workload v \<longleftrightarrow> has_text v ''kind'' ''StatefulSet'' \<or> has_text v ''kind'' ''DaemonSet''"

definition pod_containers :: "string list" where
  "pod_containers = [''spec'', ''template'', ''spec'', ''containers'']"

fun image_defaults :: "unstr \<Rightarrow> jmap list \<Rightarrow> labels \<Rightarrow> labels res" where
  "image_defaults L [] images = Inr images"
| "image_defaults L (v # vs) images =
     (if \<not> is_workload v then image_defaults L vs images
      else (case un_NestedSlice L v pod_containers of
        Inl e \<Rightarrow> Inl e
      | Inr found \<Rightarrow> (case add_images (case found of None \<Rightarrow> [] | Some cs \<Rightarrow> cs) images of
          Inl e \<Rightarrow> Inl e
        | Inr i \<Rightarrow> image_defaults L vs i)))"

definition ImageDefaults :: "unstr \<Rightarrow> jmap list res \<Rightarrow> labels res" where
  "ImageDefaults L operands = (case operands of
     Inl e \<Rightarrow> Inl e | Inr objects \<Rightarrow> image_defaults L objects fmempty)"

text \<open>\<open>strings.ToLower\<close> and \<open>strings.ToUpper\<close> on the letters of ASCII, which names of variables consist of.\<close>

definition to_lower :: "string \<Rightarrow> string" where
  "to_lower = map (\<lambda>c. if 65 \<le> (of_char c :: nat) \<and> (of_char c :: nat) \<le> 90 then char_of (of_char c + 32 :: nat) else c)"

definition to_upper :: "string \<Rightarrow> string" where
  "to_upper = map (\<lambda>c. if 97 \<le> (of_char c :: nat) \<and> (of_char c :: nat) \<le> 122 then char_of (of_char c - 32 :: nat) else c)"

text \<open>One variable of the manager: the entry, and the image keys seen so far.\<close>

definition set_image_variable :: "labels \<Rightarrow> json \<Rightarrow> string list \<Rightarrow> (json \<times> string list) res" where
  "set_image_variable images item seen =
     (case item of
        JObj variable \<Rightarrow>
          (let name = entry_text variable ''name'';
               key = to_lower (trim_prefix name ''RELATED_IMAGE_'') in
           if \<not> has_prefix name ''RELATED_IMAGE_'' then Inr (item, seen)
           else if image_of images key = [] \<or> key \<in> set seen then
             Inl (new_error (''unknown or duplicate manager image '' @ key))
           else Inr (JObj (fmdrop ''valueFrom'' (fmupd ''value'' (JStr (image_of images key)) variable)), key # seen))
      | _ \<Rightarrow> Inl (new_error ''invalid manager environment variable''))"

fun set_image_variables :: "labels \<Rightarrow> json list \<Rightarrow> string list \<Rightarrow> (json list \<times> string list) res" where
  "set_image_variables images [] seen = Inr ([], seen)"
| "set_image_variables images (x # xs) seen =
     (case set_image_variable images x seen of
        Inl e \<Rightarrow> Inl e
      | Inr (y, seen1) \<Rightarrow> (case set_image_variables images xs seen1 of
          Inl e \<Rightarrow> Inl e | Inr (ys, seen2) \<Rightarrow> Inr (y # ys, seen2)))"

text \<open>The error for a missing image also names the key, the first in the unspecified order of a Go map; here it
  is left out.\<close>

definition setManagerImages :: "unstr \<Rightarrow> labels \<Rightarrow> jmap \<Rightarrow> jmap res" where
  "setManagerImages L images container =
     (case un_NestedSlice L container [''env''] of
        Inl e \<Rightarrow> Inl e
      | Inr found \<Rightarrow> (case set_image_variables images (case found of None \<Rightarrow> [] | Some es \<Rightarrow> es) [] of
          Inl e \<Rightarrow> Inl e
        | Inr (env, seen) \<Rightarrow>
            if fmdom' images \<subseteq> set seen then
              (case un_SetNestedSlice L env [''env''] container of (c, None) \<Rightarrow> Inr c | (c, Some e) \<Rightarrow> Inl e)
            else Inl (new_error ''manager environment is missing image'')))"

definition set_manager_container :: "unstr \<Rightarrow> labels \<Rightarrow> json \<Rightarrow> (json \<times> bool) res" where
  "set_manager_container L images item =
     (case as_obj item of
        Inl e \<Rightarrow> Inl e
      | Inr container \<Rightarrow>
          if \<not> has_text container ''name'' ''manager'' then Inr (item, False)
          else (case setManagerImages L images container of Inl e \<Rightarrow> Inl e | Inr c \<Rightarrow> Inr (JObj c, True)))"

definition manager_object :: "unstr \<Rightarrow> labels \<Rightarrow> jmap \<Rightarrow> (jmap \<times> bool) res" where
  "manager_object L images v =
     (if has_text v ''kind'' ''Deployment'' then
        (case un_NestedSlice L v pod_containers of
           Inl e \<Rightarrow> Inl e
         | Inr found \<Rightarrow>
             (case each (set_manager_container L images) (case found of None \<Rightarrow> [] | Some cs \<Rightarrow> cs) of
                Inl e \<Rightarrow> Inl e
              | Inr cs \<Rightarrow> Inr (fst (un_SetNestedSlice L (map fst cs) pod_containers v), list_ex snd cs)))
      else Inr (v, False))"

definition manager_header :: string where
  "manager_header =
     ''# RELATED_IMAGE_* defaults are generated by make generate from the canonical plugin.yaml.'' @ [CHR 0x0A]"

definition ManagerImages :: "unstr \<Rightarrow> (jmap \<Rightarrow> string) \<Rightarrow> yaml_stream \<Rightarrow> labels \<Rightarrow> string res" where
  "ManagerImages L encode source images =
     (case each (manager_object L images) (filter (\<lambda>v. v \<noteq> fmempty) (fst source)) of
        Inl e \<Rightarrow> Inl e
      | Inr vs \<Rightarrow> (case snd source of
          Some e \<Rightarrow> Inl e
        | None \<Rightarrow>
            if \<not> list_ex snd vs then Inl (new_error ''manager Deployment is missing'')
            else Inr (manager_header @ join_with (''---'' @ [CHR 0x0A]) (map (encode \<circ> fst) vs))))"

section \<open>Delegated permissions (rbac.go)\<close>

record policyRule =
  pr_APIGroups :: "string list"
  pr_Resources :: "string list"
  pr_Verbs :: "string list"
  pr_ResourceNames :: "string list"
  pr_NonResourceURLs :: "string list"

record ruleHolder =
  rh_Kind :: string
  rh_Name :: string
  rh_Rules :: "policyRule list"

fun operatorClusterRules :: "ruleHolder list \<Rightarrow> go_error option \<Rightarrow> policyRule list res" where
  "operatorClusterRules [] e = (case e of
     None \<Rightarrow> Inl (new_error ''operator RBAC manifest has no ClusterRole'')
   | Some err \<Rightarrow> Inl (wrap_error (''decode operator RBAC manifest: '' @ err_text err) err))"
| "operatorClusterRules (h # hs) e = (if rh_Kind h = ''ClusterRole'' then Inr (rh_Rules h) else operatorClusterRules hs e)"

definition permission_key :: "string \<Rightarrow> string \<Rightarrow> string \<Rightarrow> string" where
  "permission_key g resource verb = g @ ''|'' @ resource @ ''|'' @ verb"

text \<open>The keys a rule grants; the loop over verbs stops at \<open>escalate\<close>.\<close>

definition rule_keys :: "policyRule \<Rightarrow> string list" where
  "rule_keys rule = concat (map (\<lambda>v. concat (map (\<lambda>g. map (\<lambda>r. permission_key g r v) (pr_Resources rule))
     (pr_APIGroups rule))) (pr_Verbs rule))"

fun granted_keys :: "policyRule list \<Rightarrow> string list res" where
  "granted_keys [] = Inr []"
| "granted_keys (rule # rules) =
     (if pr_ResourceNames rule \<noteq> [] then granted_keys rules
      else if ''escalate'' \<in> set (pr_Verbs rule) then
        Inl (new_error ''operator ClusterRole must not hold the escalate verb'')
      else (case granted_keys rules of Inl e \<Rightarrow> Inl e | Inr ks \<Rightarrow> Inr (rule_keys rule @ ks)))"

text \<open>\<open>fmt.Sprintf("%v")\<close> of a list of strings.\<close>

definition go_list :: "string list \<Rightarrow> string" where
  "go_list xs = ''['' @ join_with '' '' xs @ '']''"

definition missing_of_rule :: "string list \<Rightarrow> string \<Rightarrow> policyRule \<Rightarrow> string list" where
  "missing_of_rule granted name rule =
     (if pr_NonResourceURLs rule \<noteq> [] then [name @ '': nonResourceURLs '' @ go_list (pr_NonResourceURLs rule)] else []) @
     concat (map (\<lambda>g. concat (map (\<lambda>r. concat (map (\<lambda>v.
       if permission_key g r v \<in> set granted then []
       else [name @ '': '' @ v @ '' '' @ go_quote g @ ''/'' @ r]) (pr_Verbs rule))) (pr_Resources rule))) (pr_APIGroups rule))"

definition missing_permissions :: "string list \<Rightarrow> ruleHolder list \<Rightarrow> string list" where
  "missing_permissions granted objects =
     concat (map (\<lambda>h. if rh_Kind h \<noteq> ''ClusterRole'' then []
       else concat (map (missing_of_rule granted (rh_Name h)) (rh_Rules h))) objects)"

definition missing_text :: "string list \<Rightarrow> string" where
  "missing_text missing =
     ''config/rbac.yaml operator ClusterRole lacks permissions it must delegate to operand ClusterRoles; add unscoped grants for:''
     @ [CHR 0x0A] @ ''  '' @ join_with ([CHR 0x0A] @ ''  '') (sort_Strings missing)"

definition CheckDelegatedRBAC :: "ruleHolder list res \<Rightarrow> ruleHolder list \<Rightarrow> go_error option
    \<Rightarrow> unit res" where
  "CheckDelegatedRBAC operands manifest manifestErr =
     (case operands of
        Inl e \<Rightarrow> Inl (wrap_error (''decode operands: '' @ err_text e) e)
      | Inr objects \<Rightarrow> (case operatorClusterRules manifest manifestErr of
          Inl e \<Rightarrow> Inl e
        | Inr held \<Rightarrow> (case granted_keys held of
            Inl e \<Rightarrow> Inl e
          | Inr granted \<Rightarrow>
              (let missing = missing_permissions granted objects in
               if missing \<noteq> [] then Inl (new_error (missing_text missing)) else Inr ()))))"

section \<open>The command (generate-operands)\<close>

text \<open>Files are a map from paths to contents; a file that is absent cannot be read.\<close>

type_synonym files = "string \<rightharpoonup> string"

definition read_file :: "files \<Rightarrow> string \<Rightarrow> string res" where
  "read_file fs p = (case fs p of
     None \<Rightarrow> Inl ((new_error (''open '' @ p @ '': no such file or directory''))\<lparr>err_errno := Some ErrNotExist\<rparr>)
   | Some d \<Rightarrow> Inr d)"

definition writeGenerated :: "(string \<Rightarrow> go_error option) \<Rightarrow> string \<Rightarrow> string \<Rightarrow> bool \<Rightarrow> files \<Rightarrow> unit res \<times> files" where
  "writeGenerated writeErr output data check fs =
     (if read_file fs output = Inr data then (Inr (), fs)
      else if check then (Inl (new_error (output @ '' is stale; run make -C operator generate from the repository root'')), fs)
      else (case writeErr output of Some e \<Rightarrow> (Inl e, fs) | None \<Rightarrow> (Inr (), fs(output \<mapsto> data))))"

text \<open>The decoders and encoders, and the outcome of writing a file.\<close>

record codecs =
  cd_Yaml :: "string \<Rightarrow> yaml_stream"
  cd_Operands :: "string \<Rightarrow> jmap list res"
  cd_Rules :: "string \<Rightarrow> ruleHolder list res"
  cd_RuleStream :: "string \<Rightarrow> ruleHolder list \<times> go_error option"
  cd_EncObjects :: "jmap list \<Rightarrow> string"
  cd_EncImages :: "labels \<Rightarrow> string"
  cd_EncYaml :: "jmap \<Rightarrow> string"
  cd_WriteErr :: "string \<Rightarrow> go_error option"

definition run_generate :: "unstr \<Rightarrow> codecs \<Rightarrow> string \<Rightarrow> string \<Rightarrow> bool \<Rightarrow> files \<Rightarrow> unit res \<times> files" where
  "run_generate L C source output check fs =
     (case read_file fs source of
        Inl e \<Rightarrow> (Inl e, fs)
      | Inr f \<Rightarrow> (case Generate L (cd_EncObjects C) (cd_Yaml C f) of
          Inl e \<Rightarrow> (Inl e, fs)
        | Inr data \<Rightarrow> writeGenerated (cd_WriteErr C) output data check fs))"

definition syncImages :: "unstr \<Rightarrow> codecs \<Rightarrow> string \<Rightarrow> string \<Rightarrow> string \<Rightarrow> bool \<Rightarrow> files \<Rightarrow> unit res \<times> files" where
  "syncImages L C operands imagesOutput manager check fs =
     (case read_file fs operands of
        Inl e \<Rightarrow> (Inl e, fs)
      | Inr data \<Rightarrow> (case ImageDefaults L (cd_Operands C data) of
          Inl e \<Rightarrow> (Inl e, fs)
        | Inr images \<Rightarrow> (case read_file fs manager of
            Inl e \<Rightarrow> (Inl e, fs)
          | Inr f \<Rightarrow> (case ManagerImages L (cd_EncYaml C) (cd_Yaml C f) images of
              Inl e \<Rightarrow> (Inl e, fs)
            | Inr deployment \<Rightarrow>
                (case writeGenerated (cd_WriteErr C) imagesOutput (cd_EncImages C images @ [CHR 0x0A]) check fs of
                   (Inl e, fs1) \<Rightarrow> (Inl e, fs1)
                 | (Inr _, fs1) \<Rightarrow> writeGenerated (cd_WriteErr C) manager deployment check fs1)))))"

definition checkRBAC :: "codecs \<Rightarrow> string \<Rightarrow> string \<Rightarrow> files \<Rightarrow> unit res" where
  "checkRBAC C operands rbac fs =
     (case read_file fs operands of
        Inl e \<Rightarrow> Inl e
      | Inr data \<Rightarrow> (case read_file fs rbac of
          Inl e \<Rightarrow> Inl e
        | Inr f \<Rightarrow> CheckDelegatedRBAC (cd_Rules C data) (fst (cd_RuleStream C f)) (snd (cd_RuleStream C f))))"

text \<open>\<open>main\<close>: the three stages in order; an error ends the process with status 1.\<close>

definition generate_main :: "unstr \<Rightarrow> codecs \<Rightarrow> string \<Rightarrow> string \<Rightarrow> string \<Rightarrow> string \<Rightarrow> string \<Rightarrow> bool \<Rightarrow> files
    \<Rightarrow> unit res \<times> files" where
  "generate_main L C source output imagesOutput manager rbac check fs =
     (case run_generate L C source output check fs of
        (Inl e, fs1) \<Rightarrow> (Inl e, fs1)
      | (Inr _, fs1) \<Rightarrow> (case syncImages L C output imagesOutput manager check fs1 of
          (Inl e, fs2) \<Rightarrow> (Inl e, fs2)
        | (Inr _, fs2) \<Rightarrow> (checkRBAC C output rbac fs2, fs2)))"

section \<open>Images of workloads\<close>

text \<open>The containers of the workloads among the operands.\<close>

definition workload_containers :: "unstr \<Rightarrow> jmap \<Rightarrow> json list" where
  "workload_containers L v =
     (if is_workload v then or_zero [] (un_NestedSlice L v pod_containers) else [])"

definition runs_image :: "labels \<Rightarrow> json \<Rightarrow> bool" where
  "runs_image images item \<longleftrightarrow> (\<exists>c key. item = JObj c \<and> ContainerImageKey (entry_text c ''name'') = Some key \<and>
     entry_text c ''image'' \<noteq> [] \<and> image_of images key = entry_text c ''image'')"

lemma add_image_Inr:
  assumes "add_image c i = Inr j"
  shows "runs_image j c" and "\<And>k. image_of i k \<noteq> [] \<Longrightarrow> image_of j k = image_of i k"
  using assms by (auto simp: add_image_def runs_image_def image_of_def Let_def split: json.splits option.splits if_splits)

lemma runs_image_mono:
  "runs_image i c \<Longrightarrow> (\<And>k. image_of i k \<noteq> [] \<Longrightarrow> image_of j k = image_of i k) \<Longrightarrow> runs_image j c"
  by (metis runs_image_def)

lemma add_images_Inr:
  assumes "add_images cs i = Inr j"
  shows "list_all (runs_image j) cs" and "\<And>k. image_of i k \<noteq> [] \<Longrightarrow> image_of j k = image_of i k"
proof -
  have "list_all (runs_image j) cs \<and> (\<forall>k. image_of i k \<noteq> [] \<longrightarrow> image_of j k = image_of i k)"
    using assms
  proof (induction cs arbitrary: i)
    case (Cons c cs)
    then obtain i1 where 1: "add_image c i = Inr i1" and 2: "add_images cs i1 = Inr j"
      by (auto split: sum.splits)
    note tail = Cons.IH [OF 2]
    have "runs_image j c" using add_image_Inr(1) [OF 1] by (rule runs_image_mono) (use tail in blast)
    moreover have "image_of j k = image_of i k" if "image_of i k \<noteq> []" for k
      using add_image_Inr(2) [OF 1 that] that tail by metis
    ultimately show ?case using tail by simp
  qed simp
  then show "list_all (runs_image j) cs" and "\<And>k. image_of i k \<noteq> [] \<Longrightarrow> image_of j k = image_of i k"
    by blast+
qed

lemma image_defaults_Inr:
  assumes "image_defaults L vs i = Inr j"
  shows "(\<forall>v \<in> set vs. list_all (runs_image j) (workload_containers L v)) \<and>
    (\<forall>k. image_of i k \<noteq> [] \<longrightarrow> image_of j k = image_of i k)"
  using assms
proof (induction vs arbitrary: i)
  case (Cons v vs)
  show ?case
  proof (cases "is_workload v")
    case False
    with Cons.prems have "image_defaults L vs i = Inr j" by simp
    from Cons.IH [OF this] False show ?thesis by (simp add: workload_containers_def)
  next
    case True
    with Cons.prems obtain found i1 where f: "un_NestedSlice L v pod_containers = Inr found"
      and 1: "add_images (case found of None \<Rightarrow> [] | Some cs \<Rightarrow> cs) i = Inr i1" and 2: "image_defaults L vs i1 = Inr j"
      by (auto split: sum.splits)
    note tail = Cons.IH [OF 2]
    have "workload_containers L v = (case found of None \<Rightarrow> [] | Some cs \<Rightarrow> cs)"
      using True f by (auto simp: workload_containers_def or_zero_def split: option.splits)
    moreover have "list_all (runs_image j) (case found of None \<Rightarrow> [] | Some cs \<Rightarrow> cs)"
      using add_images_Inr(1) [OF 1] by (rule list.pred_mono_strong) (erule runs_image_mono, use tail in blast)
    moreover have "image_of j k = image_of i k" if "image_of i k \<noteq> []" for k
      using add_images_Inr(2) [OF 1 that] that tail by metis
    ultimately show ?thesis using tail by simp
  qed
qed simp

section \<open>Permissions\<close>

definition holds :: "policyRule list \<Rightarrow> string \<Rightarrow> string \<Rightarrow> string \<Rightarrow> bool" where
  "holds rules g r v \<longleftrightarrow> (\<exists>rule \<in> set rules. pr_ResourceNames rule = [] \<and> g \<in> set (pr_APIGroups rule) \<and>
     r \<in> set (pr_Resources rule) \<and> v \<in> set (pr_Verbs rule))"

text \<open>No name holds the separator of the keys, as Kubernetes requires of groups, resources and verbs.\<close>

definition plain_rule :: "policyRule \<Rightarrow> bool" where
  "plain_rule rule \<longleftrightarrow> list_all (\<lambda>x. CHR ''|'' \<notin> set x) (pr_APIGroups rule @ pr_Resources rule @ pr_Verbs rule)"

lemma permission_key_inj:
  assumes "CHR ''|'' \<notin> set g" "CHR ''|'' \<notin> set r" "CHR ''|'' \<notin> set v"
    and "CHR ''|'' \<notin> set g'" "CHR ''|'' \<notin> set r'" "CHR ''|'' \<notin> set v'"
    and "permission_key g r v = permission_key g' r' v'"
  shows "g = g' \<and> r = r' \<and> v = v'"
proof -
  have "split_on (CHR ''|'') (permission_key a b c) = [a, b, c]"
    if "CHR ''|'' \<notin> set a" "CHR ''|'' \<notin> set b" "CHR ''|'' \<notin> set c" for a b c
    using that by (simp add: permission_key_def split_on_append_sep split_on_no_sep)
  with assms show ?thesis by (metis list.inject)
qed

lemma granted_keys_Inr:
  "granted_keys rules = Inr ks \<longleftrightarrow>
    (\<forall>rule \<in> set rules. pr_ResourceNames rule = [] \<longrightarrow> ''escalate'' \<notin> set (pr_Verbs rule)) \<and>
    ks = concat (map rule_keys (filter (\<lambda>rule. pr_ResourceNames rule = []) rules))"
proof (induction rules arbitrary: ks)
  case (Cons rule rules)
  show ?case
  proof (cases "granted_keys rules")
    case (Inl e)
    then have "\<not> (\<forall>rule \<in> set rules. pr_ResourceNames rule = [] \<longrightarrow> ''escalate'' \<notin> set (pr_Verbs rule))"
      using Cons.IH by auto
    with Inl show ?thesis by auto
  next
    case (Inr ls)
    then show ?thesis using Cons.IH [of ls] by auto
  qed
qed auto

lemma granted_iff_holds:
  assumes "list_all plain_rule rules" and "CHR ''|'' \<notin> set g" "CHR ''|'' \<notin> set r" "CHR ''|'' \<notin> set v"
  shows "permission_key g r v \<in> set (concat (map rule_keys (filter (\<lambda>rule. pr_ResourceNames rule = []) rules)))
    \<longleftrightarrow> holds rules g r v"
proof
  assume "permission_key g r v \<in> set (concat (map rule_keys (filter (\<lambda>rule. pr_ResourceNames rule = []) rules)))"
  then obtain rule g' r' v' where rule: "rule \<in> set rules" "pr_ResourceNames rule = []"
    and mem: "g' \<in> set (pr_APIGroups rule)" "r' \<in> set (pr_Resources rule)" "v' \<in> set (pr_Verbs rule)"
    and eq: "permission_key g r v = permission_key g' r' v'"
    by (auto simp: rule_keys_def)
  have "CHR ''|'' \<notin> set g'" "CHR ''|'' \<notin> set r'" "CHR ''|'' \<notin> set v'"
    using assms(1) rule(1) mem by (auto simp: list_all_iff plain_rule_def)
  with eq assms(2-4) have "g = g' \<and> r = r' \<and> v = v'" by (intro permission_key_inj) auto
  with rule mem show "holds rules g r v" by (auto simp: holds_def)
qed (auto simp: holds_def rule_keys_def)

lemma concat_map_Nil: "concat (map f xs) = [] \<longleftrightarrow> (\<forall>x \<in> set xs. f x = [])"
  by (induction xs) auto

lemma missing_of_rule_Nil:
  "missing_of_rule granted name rule = [] \<longleftrightarrow> pr_NonResourceURLs rule = [] \<and>
    (\<forall>g \<in> set (pr_APIGroups rule). \<forall>r \<in> set (pr_Resources rule). \<forall>v \<in> set (pr_Verbs rule).
      permission_key g r v \<in> set granted)"
  by (auto simp: missing_of_rule_def concat_map_Nil simp del: concat_eq_Nil_conv split: if_splits)

text \<open>What an operand role grants that the operator must hold itself.\<close>

definition delegated :: "policyRule list \<Rightarrow> ruleHolder list \<Rightarrow> bool" where
  "delegated held objects \<longleftrightarrow> (\<forall>h \<in> set objects. rh_Kind h = ''ClusterRole'' \<longrightarrow>
     (\<forall>rule \<in> set (rh_Rules h). pr_NonResourceURLs rule = [] \<and>
       (\<forall>g \<in> set (pr_APIGroups rule). \<forall>r \<in> set (pr_Resources rule). \<forall>v \<in> set (pr_Verbs rule). holds held g r v)))"

lemma missing_permissions_iff:
  "missing_permissions granted objects = [] \<longleftrightarrow> (\<forall>h \<in> set objects. rh_Kind h = ''ClusterRole'' \<longrightarrow>
    (\<forall>rule \<in> set (rh_Rules h). missing_of_rule granted (rh_Name h) rule = []))"
  by (auto simp: missing_permissions_def concat_map_Nil simp del: concat_eq_Nil_conv split: if_splits)

lemma missing_permissions_Nil:
  assumes "list_all plain_rule held" and "\<forall>h \<in> set objects. list_all plain_rule (rh_Rules h)"
  shows "missing_permissions (concat (map rule_keys (filter (\<lambda>rule. pr_ResourceNames rule = []) held))) objects = []
    \<longleftrightarrow> delegated held objects"
proof -
  define K where "K = concat (map rule_keys (filter (\<lambda>rule. pr_ResourceNames rule = []) held))"
  have "(permission_key g r v \<in> set K) = holds held g r v"
    if "h \<in> set objects" "rule \<in> set (rh_Rules h)" "g \<in> set (pr_APIGroups rule)" "r \<in> set (pr_Resources rule)"
      "v \<in> set (pr_Verbs rule)" for h rule g r v
    unfolding K_def using that assms by (intro granted_iff_holds) (auto simp: list_all_iff plain_rule_def)
  then show ?thesis unfolding K_def [symmetric] missing_permissions_iff missing_of_rule_Nil delegated_def by blast
qed

section \<open>Checking generated files\<close>

lemma writeGenerated_check: "snd (writeGenerated we p d True fs) = fs"
  by (simp add: writeGenerated_def)

lemma generate_check_writes_nothing: "snd (generate_main L C src out img man rb True fs) = fs"
proof -
  have "snd (run_generate L C src out True fs) = fs"
    by (auto simp: run_generate_def writeGenerated_check split: sum.splits)
  moreover have "snd (syncImages L C out img man True fs) = fs"
    by (auto simp: syncImages_def writeGenerated_check split: sum.splits prod.splits)
      (metis snd_conv writeGenerated_check)+
  ultimately show ?thesis
    by (auto simp: generate_main_def split: prod.splits sum.splits)
qed

lemma run_generate_then_check:
  assumes "run_generate L C src out False fs = (Inr (), fs')" and "src \<noteq> out"
  shows "run_generate L C src out True fs' = (Inr (), fs')"
proof -
  obtain f data where f: "read_file fs src = Inr f" and g: "Generate L (cd_EncObjects C) (cd_Yaml C f) = Inr data"
    and w: "writeGenerated (cd_WriteErr C) out data False fs = (Inr (), fs')"
    using assms(1) by (auto simp: run_generate_def split: sum.splits)
  have "fs' = fs \<or> fs' = fs(out \<mapsto> data)" "read_file fs' out = Inr data"
    using w by (auto simp: writeGenerated_def read_file_def split: if_splits option.splits)
  with f assms(2) have "read_file fs' src = Inr f" by (auto simp: read_file_def)
  with g \<open>read_file fs' out = Inr data\<close> show ?thesis by (simp add: run_generate_def writeGenerated_def)
qed

section \<open>Properties\<close>

text \<open>C28. The check of delegated permissions is exact: for manifests whose names do not hold the separator, it
  passes just when the operator's role holds no unrestricted \<open>escalate\<close> and holds, by rules without resource
  names, every permission that an operand role grants, and no operand role grants URLs.\<close>

theorem delegated_rbac_exact:
  assumes "list_all plain_rule held" and "\<forall>h \<in> set objects. list_all plain_rule (rh_Rules h)"
    and "operatorClusterRules manifest merr = Inr held"
  shows "CheckDelegatedRBAC (Inr objects) manifest merr = Inr () \<longleftrightarrow>
    (\<forall>rule \<in> set held. pr_ResourceNames rule = [] \<longrightarrow> ''escalate'' \<notin> set (pr_Verbs rule)) \<and> delegated held objects"
proof (cases "granted_keys held")
  case (Inl e)
  then have "\<not> (\<forall>rule \<in> set held. pr_ResourceNames rule = [] \<longrightarrow> ''escalate'' \<notin> set (pr_Verbs rule))"
    using granted_keys_Inr [of held] by auto
  with Inl show ?thesis by (simp add: CheckDelegatedRBAC_def assms(3))
next
  case (Inr ks)
  then show ?thesis
    using missing_permissions_Nil [OF assms(1,2)] granted_keys_Inr [of held ks]
    by (auto simp: CheckDelegatedRBAC_def assms(3) Let_def)
qed

definition pod_rule :: "string list \<Rightarrow> policyRule" where
  "pod_rule verbs = \<lparr>pr_APIGroups = [''apps''], pr_Resources = [''pods''], pr_Verbs = verbs, pr_ResourceNames = [],
     pr_NonResourceURLs = []\<rparr>"

theorem delegated_rbac_exact_witness:
  "CheckDelegatedRBAC (Inr [\<lparr>rh_Kind = ''ClusterRole'', rh_Name = ''r'', rh_Rules = [pod_rule [''get'']]\<rparr>])
     [\<lparr>rh_Kind = ''ClusterRole'', rh_Name = ''op'', rh_Rules = [pod_rule [''list'', ''get'']]\<rparr>] None = Inr ()"
  by (subst delegated_rbac_exact [where held = "[pod_rule [''list'', ''get'']]"])
    (simp_all add: plain_rule_def delegated_def holds_def pod_rule_def)

text \<open>The image inventory is the images that run: when it can be derived from the operands, every container of
  every workload among them has an image, and the inventory names that image under the key of the container;
  so no two containers of one key run different images.\<close>

theorem image_inventory_exact:
  assumes "ImageDefaults L (Inr objects) = Inr images" and "v \<in> set objects"
  shows "list_all (runs_image images) (workload_containers L v)"
  using assms image_defaults_Inr [of L objects fmempty images] by (simp add: ImageDefaults_def)

definition sample_workload :: jmap where
  "sample_workload = fmap_of_list [(''kind'', JStr ''DaemonSet''), (''spec'', jobj [(''template'', jobj [(''spec'',
     jobj [(''containers'', JArr [jobj [(''name'', JStr ''csi-resizer''), (''image'', JStr ''img:1'')]])])])])]"

theorem image_inventory_exact_witness:
  "list_all (runs_image (fmupd ''resizer'' ''img:1'' fmempty)) (workload_containers sample_unstr sample_workload)"
  by (rule image_inventory_exact [of sample_unstr "[sample_workload]"])
    (simp_all add: ImageDefaults_def sample_workload_def is_workload_def has_text_def pod_containers_def
      sample_unstr_def jobj_def typed_def fmlookup_of_list add_image_def ContainerImageKey_def entry_text_def image_of_def)

end
