(* ===== verification/Operator_Render.thy ===== *)
theory Operator_Render
  imports Operand_Manifests
begin

text \<open>
  What the operator installs (\<open>operator/internal/operator/render.go\<close>): the settings of the custom resource, and
  the objects rendered from them, the embedded operands and the release images. The decoding of the settings
  and of the embedded operands are parameters.

  The theorems: every rendered object carries the operator's label and is owned by the custom resource, and
  every container of a rendered workload runs the release image of its key.
\<close>

section \<open>Settings\<close>

definition DefaultNamespace :: string where "DefaultNamespace = ''hammerspace-csi''"
definition DriverName :: string where "DriverName = ''com.hammerspace.csi''"
definition Finalizer :: string where "Finalizer = ''storage.hammerspace.com/operands''"

record StorageClass =
  sc_Name :: string
  sc_Mode :: string
  sc_BackingShareName :: string

record Spec =
  sp_CredentialsSecretName :: string
  sp_TLSVerify :: "bool option"
  sp_LogLevel :: string
  sp_NodeSelector :: labels
  sp_Tolerations :: "json list"
  sp_StorageClasses :: "StorageClass list"

definition ImageKeys :: "string list" where
  "ImageKeys = [''driver'', ''provisioner'', ''attacher'', ''snapshotter'', ''resizer'', ''registrar'', ''livenessprobe'']"

definition check_class :: "unstr \<Rightarrow> string list \<Rightarrow> StorageClass \<Rightarrow> go_error option" where
  "check_class L names sc =
     (if \<not> un_IsDNS1123Subdomain L (sc_Name sc) \<or> sc_Name sc \<in> set names then
        Some (new_error ''StorageClass names must be valid and unique'')
      else if sc_Mode sc = ''NFS'' then
        (if sc_BackingShareName sc \<noteq> [] then
           Some (new_error ''NFS classes use independent shares; omit backingShareName'') else None)
      else if sc_Mode sc \<in> {''Block'', ''ext4'', ''xfs''} then
        (if sc_BackingShareName sc = [] \<or> (\<exists>c \<in> set (sc_BackingShareName sc). c \<in> {CHR ''/'', CHR ''|'', CHR 0x0A}) then
           Some (new_error ''file-backed classes require a backing share name without path separators'') else None)
      else Some (new_error ''unsupported StorageClass mode''))"

fun check_classes :: "unstr \<Rightarrow> string list \<Rightarrow> StorageClass list \<Rightarrow> go_error option" where
  "check_classes L names [] = None"
| "check_classes L names (sc # scs) = (case check_class L names sc of
     Some e \<Rightarrow> Some e
   | None \<Rightarrow> check_classes L (sc_Name sc # names) scs)"

text \<open>The result is the pair of Go: the settings as far as they were read, and the error.\<close>

definition ParseSpec :: "unstr \<Rightarrow> (json option \<Rightarrow> Spec \<times> go_error option) \<Rightarrow> jmap \<Rightarrow> Spec \<times> go_error option" where
  "ParseSpec L decode cr =
     (case decode (fmlookup cr ''spec'') of
        (spec, Some e) \<Rightarrow> (spec, Some e)
      | (spec, None) \<Rightarrow>
          if un_GetName L cr \<noteq> ''cluster'' then (spec, Some (new_error ''only the singleton named cluster is supported''))
          else if \<not> un_IsDNS1123Subdomain L (sp_CredentialsSecretName spec) then
            (spec, Some (new_error ''credentialsSecretName must be a valid Secret name''))
          else
            (let spec1 = (if sp_LogLevel spec = [] then spec\<lparr>sp_LogLevel := ''info''\<rparr> else spec) in
             if sp_LogLevel spec1 \<notin> {''error'', ''warn'', ''info'', ''debug''} then
               (spec1, Some (new_error ''invalid logLevel''))
             else if (case fmlookup (sp_NodeSelector spec1) ''kubernetes.io/os'' of None \<Rightarrow> False | Some v \<Rightarrow> v \<noteq> ''linux'') then
               (spec1, Some (new_error ''only Linux nodes are supported''))
             else (spec1, check_classes L [] (sp_StorageClasses spec1))))"

section \<open>Rendering\<close>

definition render_env :: "Spec \<Rightarrow> json \<Rightarrow> json res" where
  "render_env spec entry =
     (case as_obj entry of
        Inl e \<Rightarrow> Inl e
      | Inr env \<Rightarrow>
          (let env1 = (case fmlookup env ''valueFrom'' of
                 Some (JObj r) \<Rightarrow> (case fmlookup r ''secretKeyRef'' of
                     Some (JObj secret) \<Rightarrow> fmupd ''valueFrom'' (JObj (fmupd ''secretKeyRef''
                       (JObj (fmupd ''name'' (JStr (sp_CredentialsSecretName spec)) secret)) r)) env
                   | _ \<Rightarrow> env)
               | _ \<Rightarrow> env);
               env2 = (if has_text env1 ''name'' ''HS_TLS_VERIFY''
                       then fmupd ''value'' (JStr (FormatBool (sp_TLSVerify spec \<in> {None, Some True}))) env1 else env1);
               env3 = (if has_text env2 ''name'' ''LOG_LEVEL''
                       then fmupd ''value'' (JStr (sp_LogLevel spec)) env2 else env2)
           in Inr (JObj env3)))"

definition render_container :: "unstr \<Rightarrow> Spec \<Rightarrow> labels \<Rightarrow> json \<Rightarrow> json res" where
  "render_container L spec images entry =
     (case as_obj entry of
        Inl e \<Rightarrow> Inl e
      | Inr container \<Rightarrow> (case fmlookup container ''name'' of
          Some (JStr name) \<Rightarrow>
            (case ContainerImageKey name of
               None \<Rightarrow> Inl (new_error (''no release image for container '' @ go_quote name))
             | Some key \<Rightarrow>
                 if image_of images key = [] then Inl (new_error (''no release image for container '' @ go_quote name))
                 else
                   (let c1 = fmupd ''image'' (JStr (image_of images key)) container in
                    (case un_NestedSlice L c1 [''env''] of
                       Inl e \<Rightarrow> Inl e
                     | Inr found \<Rightarrow> (case each (render_env spec) (case found of None \<Rightarrow> [] | Some es \<Rightarrow> es) of
                         Inl e \<Rightarrow> Inl e
                       | Inr envVars \<Rightarrow> Inr (JObj (fst (un_SetNestedSlice L envVars [''env''] c1)))))))
        | _ \<Rightarrow> Inl (type_panic ''container name is not a string'')))"

definition node_selector :: "Spec \<Rightarrow> labels" where
  "node_selector spec = fmadd (fmupd ''kubernetes.io/os'' ''linux'' fmempty) (sp_NodeSelector spec)"

definition render_pod :: "unstr \<Rightarrow> Spec \<Rightarrow> labels \<Rightarrow> jmap \<Rightarrow> jmap res" where
  "render_pod L spec images pod =
     (case fmlookup pod ''containers'' of
        Some (JArr cs) \<Rightarrow>
          (case each (render_container L spec images) cs of
             Inl e \<Rightarrow> Inl e
           | Inr containers \<Rightarrow>
               (let pod1 = fmupd ''nodeSelector'' (JObj (fmmap JStr (node_selector spec)))
                      (fmupd ''containers'' (JArr containers) pod)
                in Inr (if sp_Tolerations spec \<noteq> [] then fmupd ''tolerations'' (JArr (sp_Tolerations spec)) pod1 else pod1)))
      | _ \<Rightarrow> Inl (type_panic ''containers is not a list''))"

definition render_workload :: "unstr \<Rightarrow> Spec \<Rightarrow> labels \<Rightarrow> string \<Rightarrow> jmap \<Rightarrow> jmap res" where
  "render_workload L spec images secretVersion v =
     (case render_pod L spec images (or_zero fmempty (un_NestedMap L v template_spec)) of
        Inl e \<Rightarrow> Inl e
      | Inr pod \<Rightarrow>
          (let v1 = fst (un_SetNestedMap L pod template_spec v) in
           (case un_NestedStringMap L v1 template_annotations of
              Inl e \<Rightarrow> Inl e
            | Inr found \<Rightarrow>
                Inr (fst (un_SetNestedStringMap L
                  (fmupd ''storage.hammerspace.com/credentials-version'' secretVersion
                    (case found of None \<Rightarrow> fmempty | Some a \<Rightarrow> a)) template_annotations v1)))))"

definition set_subject_namespace :: "string \<Rightarrow> json \<Rightarrow> json res" where
  "set_subject_namespace namespace sub =
     (case as_obj sub of Inl e \<Rightarrow> Inl e | Inr m \<Rightarrow> Inr (JObj (fmupd ''namespace'' (JStr namespace) m)))"

definition set_namespaces :: "unstr \<Rightarrow> string \<Rightarrow> jmap \<Rightarrow> jmap res" where
  "set_namespaces L namespace v =
     (let v1 = (if un_GetKind L v \<in> {''Service'', ''ServiceAccount'', ''ConfigMap'', ''StatefulSet'', ''DaemonSet''}
                then un_SetNamespace L namespace v else v) in
      if un_GetKind L v1 = ''ClusterRoleBinding'' then
        (case each (set_subject_namespace namespace) (or_zero [] (un_NestedSlice L v1 [''subjects''])) of
           Inl e \<Rightarrow> Inl e
         | Inr subjects \<Rightarrow> Inr (fst (un_SetNestedSlice L subjects [''subjects''] v1)))
      else Inr v1)"

definition workload :: "unstr \<Rightarrow> jmap \<Rightarrow> bool" where
  "workload L v \<longleftrightarrow> un_GetKind L v = ''StatefulSet'' \<or> un_GetKind L v = ''DaemonSet''"

definition render_operand :: "unstr \<Rightarrow> Spec \<Rightarrow> labels \<Rightarrow> string \<Rightarrow> string \<Rightarrow> jmap \<Rightarrow> jmap res" where
  "render_operand L spec images secretVersion namespace v =
     (case set_namespaces L namespace v of
        Inl e \<Rightarrow> Inl e
      | Inr v1 \<Rightarrow> if workload L v1 then render_workload L spec images secretVersion v1 else Inr v1)"

text \<open>The parameters of a class, as the driver reads them.\<close>

definition class_parameters :: "StorageClass \<Rightarrow> (string \<times> string) list" where
  "class_parameters sc =
     (if sc_Mode sc = ''NFS'' then [(''volumeNameFormat'', ''csi-%s''), (''fsType'', ''nfs'')]
      else if sc_Mode sc = ''Block'' then
        [(''volumeNameFormat'', ''csi-%s''), (''blockBackingShareName'', sc_BackingShareName sc)]
      else [(''volumeNameFormat'', ''csi-%s''), (''fsType'', sc_Mode sc), (''mountBackingShareName'', sc_BackingShareName sc)])"

definition render_class :: "StorageClass \<Rightarrow> jmap" where
  "render_class sc = fmap_of_list
     [(''apiVersion'', JStr ''storage.k8s.io/v1''), (''kind'', JStr ''StorageClass''),
      (''metadata'', jobj [(''name'', JStr (sc_Name sc))]), (''provisioner'', JStr DriverName),
      (''parameters'', jobj (map (\<lambda>(k, v). (k, JStr v)) (class_parameters sc))),
      (''reclaimPolicy'', JStr ''Retain''), (''volumeBindingMode'', JStr ''WaitForFirstConsumer''),
      (''allowVolumeExpansion'', JBool True)]"

definition run_as_any :: json where "run_as_any = jobj [(''type'', JStr ''RunAsAny'')]"

definition render_scc :: "string \<Rightarrow> jmap" where
  "render_scc namespace = fmap_of_list
     [(''apiVersion'', JStr ''security.openshift.io/v1''), (''kind'', JStr ''SecurityContextConstraints''),
      (''metadata'', jobj [(''name'', JStr ''hammerspace-csi'')]),
      (''allowPrivilegedContainer'', JBool True), (''allowPrivilegeEscalation'', JBool True),
      (''allowHostDirVolumePlugin'', JBool True), (''allowHostNetwork'', JBool True), (''allowHostPorts'', JBool True),
      (''allowHostPID'', JBool False), (''allowHostIPC'', JBool False),
      (''allowedCapabilities'', jstrs [''SYS_ADMIN'']), (''requiredDropCapabilities'', JArr []),
      (''runAsUser'', run_as_any), (''seLinuxContext'', run_as_any), (''fsGroup'', run_as_any),
      (''supplementalGroups'', run_as_any),
      (''volumes'', jstrs [''hostPath'', ''emptyDir'', ''secret'', ''configMap'', ''projected'', ''downwardAPI'']),
      (''users'', jstrs [''system:serviceaccount:'' @ namespace @ '':csi-node'',
         ''system:serviceaccount:'' @ namespace @ '':csi-provisioner'']),
      (''groups'', JArr []), (''readOnlyRootFilesystem'', JBool False)]"

definition owner_of :: "unstr \<Rightarrow> jmap \<Rightarrow> owner_reference" where
  "owner_of L cr = \<lparr>or_APIVersion = un_GetAPIVersion L cr, or_Kind = un_GetKind L cr, or_Name = un_GetName L cr,
     or_UID = un_GetUID L cr, or_Controller = Some True\<rparr>"

definition own_and_label :: "unstr \<Rightarrow> jmap \<Rightarrow> jmap \<Rightarrow> jmap" where
  "own_and_label L cr v =
     (let v1 = un_SetOwnerReferences L [owner_of L cr] v;
          l = (case un_GetLabels L v1 of None \<Rightarrow> fmempty | Some l \<Rightarrow> l)
      in un_SetLabels L (fmupd ''app.kubernetes.io/managed-by'' ''hammerspace-csi-operator'' l) v1)"

definition Render :: "unstr \<Rightarrow> jmap list res \<Rightarrow> jmap \<Rightarrow> Spec \<Rightarrow> labels \<Rightarrow> string \<Rightarrow> string \<Rightarrow> jmap list res" where
  "Render L operands cr spec images secretVersion namespace =
     (case filter (\<lambda>key. image_of images key = []) ImageKeys of
        key # _ \<Rightarrow> Inl (new_error (''missing release image '' @ key))
      | [] \<Rightarrow> (case operands of
          Inl e \<Rightarrow> Inl e
        | Inr raw \<Rightarrow> (case each (render_operand L spec images secretVersion namespace) raw of
            Inl e \<Rightarrow> Inl e
          | Inr objs \<Rightarrow> Inr (map (own_and_label L cr)
              (objs @ map render_class (sp_StorageClasses spec) @ [render_scc namespace])))))"

section \<open>Resources\<close>

definition plurals :: "string \<rightharpoonup> string" where
  "plurals = map_of
     [(''CSIDriver'', ''csidrivers''), (''Service'', ''services''), (''ServiceAccount'', ''serviceaccounts''),
      (''ConfigMap'', ''configmaps''), (''StatefulSet'', ''statefulsets''), (''DaemonSet'', ''daemonsets''),
      (''ClusterRole'', ''clusterroles''), (''ClusterRoleBinding'', ''clusterrolebindings''),
      (''StorageClass'', ''storageclasses''), (''SecurityContextConstraints'', ''securitycontextconstraints'')]"

record gvr =
  gr_Group :: string
  gr_Version :: string
  gr_Resource :: string

definition DriverResource :: gvr where
  "DriverResource = \<lparr>gr_Group = ''storage.hammerspace.com'', gr_Version = ''v1alpha1'', gr_Resource = ''hammerspacecsidrivers''\<rparr>"

definition Resource :: "unstr \<Rightarrow> jmap \<Rightarrow> gvr" where
  "Resource L v = (case un_ParseGroupVersion L (un_GetAPIVersion L v) of
     (g, ver) \<Rightarrow> \<lparr>gr_Group = g, gr_Version = ver, gr_Resource = mget plurals (un_GetKind L v)\<rparr>)"

definition ownedBy :: "unstr \<Rightarrow> jmap \<Rightarrow> jmap \<Rightarrow> bool" where
  "ownedBy L v cr = list_ex (\<lambda>r. or_UID r = un_GetUID L cr \<and> or_APIVersion r = un_GetAPIVersion L cr \<and>
     or_Kind r = un_GetKind L cr \<and> or_Controller r = Some True) (un_GetOwnerReferences L v)"

section \<open>Rendered objects\<close>

definition managed_label :: "unstr \<Rightarrow> jmap \<Rightarrow> bool" where
  "managed_label L v \<longleftrightarrow> (\<exists>l. un_GetLabels L v = Some l \<and>
     fmlookup l ''app.kubernetes.io/managed-by'' = Some ''hammerspace-csi-operator'')"

text \<open>A container that runs the release image of its key.\<close>

definition pinned :: "labels \<Rightarrow> json \<Rightarrow> bool" where
  "pinned images c \<longleftrightarrow> (\<exists>m name key. c = JObj m \<and> fmlookup m ''name'' = Some (JStr name) \<and>
     ContainerImageKey name = Some key \<and> image_of images key \<noteq> [] \<and>
     fmlookup m ''image'' = Some (JStr (image_of images key)))"

definition pinned_pod :: "unstr \<Rightarrow> labels \<Rightarrow> jmap \<Rightarrow> bool" where
  "pinned_pod L images v \<longleftrightarrow> (\<exists>pod cs. un_NestedMap L v template_spec = Inr (Some pod) \<and>
     fmlookup pod ''containers'' = Some (JArr cs) \<and> list_all (pinned images) cs)"

context unstructured_lib
begin

lemma own_and_label_owned: "ownedBy L (own_and_label L cr v) cr" "managed_label L (own_and_label L cr v)"
  by (simp_all add: ownedBy_def own_and_label_def owner_of_def Let_def owner_set owner_labels managed_label_def labels_set)

lemma own_and_label_pod:
  "pinned_pod L images (own_and_label L cr v) = pinned_pod L images v"
  "workload L (own_and_label L cr v) = workload L v"
  by (simp_all add: own_and_label_def Let_def pinned_pod_def workload_def meta_kept)

lemma render_container_pinned: "render_container L spec images c = Inr c' \<Longrightarrow> pinned images c'"
  by (auto simp: render_container_def pinned_def as_obj_def env_kept Let_def
      split: json.splits option.splits if_splits sum.splits)

lemma render_pod_pinned:
  assumes "render_pod L spec images pod = Inr pod'"
  shows "\<exists>cs. fmlookup pod' ''containers'' = Some (JArr cs) \<and> list_all (pinned images) cs"
proof -
  obtain cs cs' where "each (render_container L spec images) cs = Inr cs'"
    and "fmlookup pod' ''containers'' = Some (JArr cs')"
    using assms by (auto simp: render_pod_def Let_def split: json.splits option.splits sum.splits if_splits)
  then show ?thesis
    using each_set [of "render_container L spec images" cs cs'] render_container_pinned by (auto simp: list_all_iff) blast
qed

lemma render_workload_pinned:
  assumes "render_workload L spec images sv v = Inr w"
  shows "pinned_pod L images w" and "un_GetKind L w = un_GetKind L v"
proof -
  obtain pod a where r: "render_pod L spec images (or_zero fmempty (un_NestedMap L v template_spec)) = Inr pod"
    and w: "w = fst (un_SetNestedStringMap L a template_annotations (fst (un_SetNestedMap L pod template_spec v)))"
    using assms by (auto simp: render_workload_def Let_def split: sum.splits)
  have "or_zero fmempty (un_NestedMap L v template_spec) \<noteq> fmempty"
    using r by (auto simp: render_pod_def)
  then obtain p where "un_NestedMap L v template_spec = Inr (Some p)"
    by (auto simp: or_zero_def split: sum.splits option.splits)
  from pod_set [OF this] render_pod_pinned [OF r] w show "pinned_pod L images w" by (auto simp: pinned_pod_def)
  show "un_GetKind L w = un_GetKind L v" using w pod_kind by simp
qed

lemma render_operand_pinned:
  assumes "render_operand L spec images sv ns v = Inr w" and "workload L w"
  shows "pinned_pod L images w"
proof -
  obtain v1 where v1: "set_namespaces L ns v = Inr v1" and r: "(if workload L v1 then render_workload L spec images sv v1 else Inr v1) = Inr w"
    using assms(1) by (auto simp: render_operand_def split: sum.splits)
  show ?thesis
  proof (cases "workload L v1")
    case True
    with r have "render_workload L spec images sv v1 = Inr w" by simp
    then show ?thesis by (rule render_workload_pinned)
  next
    case False
    with r assms(2) show ?thesis by simp
  qed
qed

lemma fixed_not_workload: "\<not> workload L (render_class sc)" "\<not> workload L (render_scc ns)"
proof -
  have "un_GetKind L (render_class sc) = ''StorageClass''"
    by (rule kind_text) (simp add: render_class_def fmlookup_of_list)
  then show "\<not> workload L (render_class sc)" by (simp add: workload_def)
  have "un_GetKind L (render_scc ns) = ''SecurityContextConstraints''"
    by (rule kind_text) (simp add: render_scc_def fmlookup_of_list)
  then show "\<not> workload L (render_scc ns)" by (simp add: workload_def)
qed

lemma Render_objects:
  assumes "Render L operands cr spec images sv ns = Inr objs" and "v \<in> set objs"
  shows "ownedBy L v cr" and "managed_label L v" and "workload L v \<Longrightarrow> pinned_pod L images v"
proof -
  obtain raw objs0 where e: "each (render_operand L spec images sv ns) raw = Inr objs0"
    and objs: "objs = map (own_and_label L cr) (objs0 @ map render_class (sp_StorageClasses spec) @ [render_scc ns])"
    using assms(1) by (auto simp: Render_def split: list.splits sum.splits)
  from assms(2) objs obtain u where v: "v = own_and_label L cr u"
    and u: "u \<in> set objs0 \<or> (\<exists>sc. u = render_class sc) \<or> u = render_scc ns" by auto
  show "ownedBy L v cr" and "managed_label L v" using v own_and_label_owned by simp_all
  show "pinned_pod L images v" if "workload L v"
    using that u each_set [OF e] render_operand_pinned fixed_not_workload unfolding v own_and_label_pod by blast
qed

end

section \<open>Properties\<close>

text \<open>C23. What the operator installs is its own and runs the release images: every object rendered for a custom
  resource is owned by that resource in the sense in which reconciliation checks ownership and carries the
  operator's label, and every container of a rendered workload runs the release image of its key, never one
  from the embedded template.\<close>

theorem rendered_owned_and_pinned:
  assumes "unstructured_lib L" and "Render L operands cr spec images sv ns = Inr objs" and "v \<in> set objs"
  shows "ownedBy L v cr \<and> managed_label L v \<and> (workload L v \<longrightarrow> pinned_pod L images v)"
  using unstructured_lib.Render_objects [OF assms] by blast

definition sample_images :: labels where
  "sample_images = fmap_of_list (map (\<lambda>k. (k, ''img:1'')) ImageKeys)"

definition sample_spec :: Spec where
  "sample_spec = \<lparr>sp_CredentialsSecretName = ''creds'', sp_TLSVerify = None, sp_LogLevel = ''info'',
     sp_NodeSelector = fmempty, sp_Tolerations = [],
     sp_StorageClasses = [\<lparr>sc_Name = ''fast'', sc_Mode = ''ext4'', sc_BackingShareName = ''backing''\<rparr>]\<rparr>"

lemma sample_images_all: "filter (\<lambda>key. image_of sample_images key = []) ImageKeys = []"
  by (simp add: ImageKeys_def sample_images_def image_of_def fmlookup_of_list)

theorem rendered_owned_and_pinned_witness:
  "ownedBy sample_unstr (own_and_label sample_unstr fmempty (render_scc ''ns'')) fmempty"
proof -
  have "Render sample_unstr (Inr []) fmempty sample_spec sample_images [] ''ns'' = Inr (map (own_and_label sample_unstr fmempty)
      (map render_class (sp_StorageClasses sample_spec) @ [render_scc ''ns'']))"
    by (simp add: Render_def sample_images_all)
  from rendered_owned_and_pinned [OF sample_lib.unstructured_lib_axioms this, of "own_and_label sample_unstr fmempty (render_scc ''ns'')"]
  show ?thesis by simp
qed

end
