(* ===== verification/Operator_Reconcile.thy ===== *)
theory Operator_Reconcile
  imports Operator_Render
begin

text \<open>
  The reconciliation loop of the operator (\<open>operator/internal/operator/reconcile.go\<close>, \<open>operator/cmd/main.go\<close>):
  one round reads the custom resource, checks the settings and credentials, renders the operands, checks that
  none of them belongs to someone else, applies them and reports a condition; for a resource that is being
  deleted it removes the operands, workloads first, and then its finalizer.

  The Kubernetes API is the record \<open>kube\<close>, over an arbitrary type of worlds: each request gives an answer and the
  next world, so that other clients may change anything between two requests. The state keeps the history of
  requests, newest first; a read is recorded with its answer.
\<close>

section \<open>The Kubernetes API\<close>

record kref =
  kr_gvr :: gvr
  kr_ns :: string
  kr_name :: string

datatype kevent =
    K_Get kref "jmap res"
  | K_Create kref jmap
  | K_Apply kref jmap
  | K_ManagedFields kref string
  | K_Delete kref string
  | K_Update jmap
  | K_UpdateStatus jmap
  | K_List string labels

record 'w kube =
  kb_Get :: "kref \<Rightarrow> 'w \<Rightarrow> jmap res \<times> 'w"
  kb_Create :: "kref \<Rightarrow> jmap \<Rightarrow> 'w \<Rightarrow> unit res \<times> 'w"
  kb_Apply :: "kref \<Rightarrow> string \<Rightarrow> 'w \<Rightarrow> unit res \<times> 'w"
  kb_JsonPatch :: "kref \<Rightarrow> string \<Rightarrow> 'w \<Rightarrow> jmap res \<times> 'w"
  kb_Delete :: "kref \<Rightarrow> string \<Rightarrow> 'w \<Rightarrow> unit res \<times> 'w"
  kb_Update :: "jmap \<Rightarrow> 'w \<Rightarrow> jmap res \<times> 'w"
  kb_UpdateStatus :: "jmap \<Rightarrow> 'w \<Rightarrow> unit res \<times> 'w"
  kb_ListPods :: "string \<Rightarrow> labels \<Rightarrow> 'w \<Rightarrow> jmap list res \<times> 'w"
  kb_Now :: "'w \<Rightarrow> string"
  kb_Marshal :: "jmap \<Rightarrow> string res"
  kb_UpgradePatch :: "jmap \<Rightarrow> string option res"
  kb_DecodeSpec :: "json option \<Rightarrow> Spec \<times> go_error option"
  kb_Operands :: "jmap list res"

record 'w kstate =
  ks_world :: 'w
  ks_trace :: "kevent list"

type_synonym ('w, 'a) kgo = "('w kstate, 'a) state"

definition kcall :: "('a \<Rightarrow> kevent) \<Rightarrow> ('w \<Rightarrow> 'a \<times> 'w) \<Rightarrow> ('w, 'a) kgo" where
  "kcall ev f = State (\<lambda>s. case f (ks_world s) of
     (r, w) \<Rightarrow> (r, s\<lparr>ks_world := w, ks_trace := ev r # ks_trace s\<rparr>))"

definition IsNotFound :: "go_error \<Rightarrow> bool" where
  "IsNotFound e \<longleftrightarrow> err_code e = Some NotFound"

record Reconciler =
  rc_Images :: labels
  rc_Namespace :: string

definition namespace :: "Reconciler \<Rightarrow> string" where
  "namespace R = (if rc_Namespace R = [] then DefaultNamespace else rc_Namespace R)"

definition ref_of :: "unstr \<Rightarrow> jmap \<Rightarrow> kref" where
  "ref_of L v = \<lparr>kr_gvr = Resource L v, kr_ns = un_GetNamespace L v, kr_name = un_GetName L v\<rparr>"

definition driver_ref :: kref where
  "driver_ref = \<lparr>kr_gvr = DriverResource, kr_ns = [], kr_name = ''cluster''\<rparr>"

definition secret_ref :: "string \<Rightarrow> string \<Rightarrow> kref" where
  "secret_ref ns name = \<lparr>kr_gvr = \<lparr>gr_Group = [], gr_Version = ''v1'', gr_Resource = ''secrets''\<rparr>, kr_ns = ns, kr_name = name\<rparr>"

definition k_Get :: "'w kube \<Rightarrow> kref \<Rightarrow> ('w, jmap res) kgo" where
  "k_Get K r = kcall (K_Get r) (kb_Get K r)"

section \<open>Conditions\<close>

text \<open>The time of the last transition: the last old condition of the same type and status that has one.\<close>

fun transition_time :: "string \<Rightarrow> string \<Rightarrow> string \<Rightarrow> json list \<Rightarrow> string res" where
  "transition_time name value t [] = Inr t"
| "transition_time name value t (c # cs) = (case as_obj c of
     Inl e \<Rightarrow> Inl e
   | Inr m \<Rightarrow> transition_time name value
       (if has_text m ''type'' name \<and> has_text m ''status'' value then
          (case fmlookup m ''lastTransitionTime'' of Some (JStr s) \<Rightarrow> s | _ \<Rightarrow> t) else t) cs)"

definition condition_json :: "string \<Rightarrow> string \<Rightarrow> string \<Rightarrow> string \<Rightarrow> int \<Rightarrow> string \<Rightarrow> json" where
  "condition_json name value reason message gen t =
     jobj [(''type'', JStr name), (''status'', JStr value), (''reason'', JStr reason), (''message'', JStr message),
       (''observedGeneration'', JNum gen), (''lastTransitionTime'', JStr t)]"

definition one_condition :: "json list \<Rightarrow> string \<Rightarrow> string \<Rightarrow> int \<Rightarrow> string \<Rightarrow> string \<times> bool \<Rightarrow> json res" where
  "one_condition old reason message gen nw item =
     (let value = (if snd item then ''True'' else ''False'') in
      (case transition_time (fst item) value nw old of
         Inl e \<Rightarrow> Inl e
       | Inr t \<Rightarrow> Inr (condition_json (fst item) value reason message gen t)))"

definition status_of :: "unstr \<Rightarrow> Reconciler \<Rightarrow> string \<Rightarrow> jmap \<Rightarrow> bool \<Rightarrow> bool \<Rightarrow> string \<Rightarrow> string \<Rightarrow> json res" where
  "status_of L R nw cr available progressing reason message =
     (let old = or_zero [] (un_NestedSlice L cr [''status'', ''conditions'']); gen = un_GetGeneration L cr in
      (case each (one_condition old reason message gen nw)
          [(''Available'', available), (''Progressing'', progressing), (''Degraded'', \<not> available \<and> \<not> progressing)] of
         Inl e \<Rightarrow> Inl e
       | Inr conditions \<Rightarrow> Inr (jobj [(''observedGeneration'', JNum gen), (''conditions'', JArr conditions),
           (''images'', JObj (fmmap JStr (rc_Images R)))])))"

definition condition :: "'w kube \<Rightarrow> unstr \<Rightarrow> Reconciler \<Rightarrow> jmap \<Rightarrow> bool \<Rightarrow> bool \<Rightarrow> string \<Rightarrow> string \<Rightarrow> ('w, unit res) kgo" where
  "condition K L R cr available progressing reason message = do {
     nw \<leftarrow> gets (\<lambda>s. kb_Now K (ks_world s));
     (case status_of L R nw cr available progressing reason message of
        Inl e \<Rightarrow> fail e
      | Inr status \<Rightarrow>
          if fmlookup cr ''status'' = Some status then ok ()
          else kcall (\<lambda>_. K_UpdateStatus (fmupd ''status'' status cr)) (kb_UpdateStatus K (fmupd ''status'' status cr)))
   }"

section \<open>Workloads\<close>

definition crashLoopRestarts :: int where "crashLoopRestarts = 3"

definition stuckWaitingReasons :: "string set" where
  "stuckWaitingReasons = {''ImagePullBackOff'', ''InvalidImageName'', ''CreateContainerConfigError'', ''CreateContainerError''}"

definition container_failure :: "unstr \<Rightarrow> jmap \<Rightarrow> jmap \<Rightarrow> json \<Rightarrow> string option" where
  "container_failure L v pod item =
     (case item of
        JObj c \<Rightarrow>
          (let name = or_zero [] (un_NestedString L c [''name'']);
               reason = or_zero [] (un_NestedString L c [''state'', ''waiting'', ''reason'']);
               restarts = or_zero 0 (un_NestedInt64 L c [''restartCount''])
           in if reason \<in> stuckWaitingReasons \<or> (reason = ''CrashLoopBackOff'' \<and> crashLoopRestarts \<le> restarts) then
                Some (un_GetKind L v @ '' '' @ un_GetName L v @ '': pod '' @ un_GetName L pod @ '' container '' @ name @
                  '' is '' @ reason @ '' ('' @ FormatInt restarts @ '' restarts); inspect the pod events and container logs'')
              else None)
      | _ \<Rightarrow> None)"

definition pod_failure :: "unstr \<Rightarrow> jmap \<Rightarrow> jmap \<Rightarrow> string option" where
  "pod_failure L v pod =
     (case concat (map (\<lambda>item. case container_failure L v pod item of None \<Rightarrow> [] | Some m \<Rightarrow> [m])
         (or_zero [] (un_NestedSlice L pod [''status'', ''containerStatuses'']))) of
        [] \<Rightarrow> None | m # _ \<Rightarrow> Some m)"

definition workloadFailure :: "'w kube \<Rightarrow> unstr \<Rightarrow> jmap \<Rightarrow> ('w, string option res) kgo" where
  "workloadFailure K L v =
     (case un_NestedStringMap L v [''spec'', ''selector'', ''matchLabels''] of
        Inl e \<Rightarrow> fail e
      | Inr found \<Rightarrow>
          (let selector = (case found of None \<Rightarrow> fmempty | Some m \<Rightarrow> m) in
           if selector = fmempty then ok None
           else tryE (kcall (\<lambda>_. K_List (un_GetNamespace L v) selector) (kb_ListPods K (un_GetNamespace L v) selector)) id (\<lambda>pods.
             ok (case concat (map (\<lambda>pod. case pod_failure L v pod of None \<Rightarrow> [] | Some m \<Rightarrow> [m]) pods) of
                   [] \<Rightarrow> None | m # _ \<Rightarrow> Some m))))"

definition workloadReady :: "unstr \<Rightarrow> jmap \<Rightarrow> bool" where
  "workloadReady L v =
     (let get = (\<lambda>p. or_zero 0 (un_NestedInt64 L v p)); text = (\<lambda>p. or_zero [] (un_NestedString L v p)) in
      if get [''status'', ''observedGeneration''] < un_GetGeneration L v then False
      else if un_GetKind L v = ''StatefulSet'' then
        (let want = get [''spec'', ''replicas'']; cur = text [''status'', ''currentRevision''];
             upd = text [''status'', ''updateRevision'']
         in want > 0 \<and> get [''status'', ''readyReplicas''] = want \<and> get [''status'', ''updatedReplicas''] = want \<and>
            cur \<noteq> [] \<and> cur = upd)
      else
        (let want = get [''status'', ''desiredNumberScheduled'']
         in want > 0 \<and> get [''status'', ''numberReady''] = want \<and> get [''status'', ''updatedNumberScheduled''] = want \<and>
            get [''status'', ''numberUnavailable''] = 0))"

section \<open>Applying\<close>

text \<open>The rounds left after this one; the code makes three attempts.\<close>

fun upgrade_rounds :: "nat \<Rightarrow> 'w kube \<Rightarrow> unstr \<Rightarrow> jmap \<Rightarrow> ('w, jmap res) kgo" where
  "upgrade_rounds n K L current =
     (case kb_UpgradePatch K current of
        Inl e \<Rightarrow> fail e
      | Inr None \<Rightarrow> ok current
      | Inr (Some patch) \<Rightarrow> do {
          r \<leftarrow> kcall (\<lambda>_. K_ManagedFields (ref_of L current) patch) (kb_JsonPatch K (ref_of L current) patch);
          (case r of
             Inr upgraded \<Rightarrow> ok upgraded
           | Inl e \<Rightarrow>
               (case n of
                  0 \<Rightarrow> fail e
                | Suc m \<Rightarrow> tryE (k_Get K (ref_of L current)) id (\<lambda>again. upgrade_rounds m K L again)))
        })"

definition upgradeManagedFields :: "'w kube \<Rightarrow> unstr \<Rightarrow> jmap \<Rightarrow> ('w, jmap res) kgo" where
  "upgradeManagedFields K L current = upgrade_rounds 2 K L current"

text \<open>The object as it is sent in a patch: bound to the UID of the object it is to change.\<close>

definition bound_to :: "unstr \<Rightarrow> string \<Rightarrow> jmap \<Rightarrow> jmap" where
  "bound_to L uid desired = un_SetUID L uid (un_SetResourceVersion L [] desired)"

definition patch_operand :: "'w kube \<Rightarrow> unstr \<Rightarrow> jmap \<Rightarrow> jmap \<Rightarrow> ('w, unit res) kgo" where
  "patch_operand K L desired current =
     (let d = bound_to L (un_GetUID L current) desired in
      (case kb_Marshal K d of
         Inl e \<Rightarrow> fail e
       | Inr b \<Rightarrow> kcall (\<lambda>_. K_Apply (ref_of L d) d) (kb_Apply K (ref_of L d) b)))"

definition apply_operand :: "'w kube \<Rightarrow> unstr \<Rightarrow> jmap \<Rightarrow> jmap \<Rightarrow> ('w, unit res) kgo" where
  "apply_operand K L cr desired = do {
     r \<leftarrow> k_Get K (ref_of L desired);
     (case r of
        Inl e \<Rightarrow>
          if IsNotFound e then kcall (\<lambda>_. K_Create (ref_of L desired) desired) (kb_Create K (ref_of L desired) desired)
          else fail e
      | Inr found \<Rightarrow>
          if \<not> ownedBy L found cr then
            fail (new_error (''ownership changed for '' @ un_GetKind L desired @ '' '' @ un_GetName L desired))
          else tryE (upgradeManagedFields K L found) id (patch_operand K L desired))
   }"

section \<open>Cleaning up\<close>

definition hasFinalizer :: "unstr \<Rightarrow> jmap \<Rightarrow> bool" where
  "hasFinalizer L cr \<longleftrightarrow> Finalizer \<in> set (un_GetFinalizers L cr)"

text \<open>One object of a pass: whether it is still there and ours, after asking for its deletion.\<close>

definition delete_one :: "'w kube \<Rightarrow> unstr \<Rightarrow> jmap \<Rightarrow> jmap \<Rightarrow> ('w, bool res) kgo" where
  "delete_one K L cr v = do {
     r \<leftarrow> k_Get K (ref_of L v);
     (case r of
        Inl e \<Rightarrow> if IsNotFound e then ok False else fail e
      | Inr current \<Rightarrow>
          if \<not> ownedBy L current cr then ok False
          else if un_GetDeletionTimestamp L current = None then do {
            d \<leftarrow> kcall (\<lambda>_. K_Delete (ref_of L v) (un_GetUID L current)) (kb_Delete K (ref_of L v) (un_GetUID L current));
            (case d of
               Inl e \<Rightarrow> if IsNotFound e then ok True else fail e
             | Inr _ \<Rightarrow> ok True)
          } else ok True)
   }"

fun delete_pass :: "'w kube \<Rightarrow> unstr \<Rightarrow> jmap \<Rightarrow> jmap list \<Rightarrow> ('w, bool res) kgo" where
  "delete_pass K L cr [] = ok False"
| "delete_pass K L cr (v # vs) =
     tryE (delete_one K L cr v) id (\<lambda>p. tryE (delete_pass K L cr vs) id (\<lambda>q. ok (p \<or> q)))"

definition removing :: "'w kube \<Rightarrow> unstr \<Rightarrow> Reconciler \<Rightarrow> jmap \<Rightarrow> ('w, unit res) kgo" where
  "removing K L R cr = condition K L R cr False True ''Removing''
     ''Removing Operator-owned resources; persistent data is retained''"

definition remove_finalizer :: "'w kube \<Rightarrow> unstr \<Rightarrow> jmap \<Rightarrow> ('w, unit res) kgo" where
  "remove_finalizer K L cr =
     (let cr1 = un_SetFinalizers L (filter (\<lambda>f. f \<noteq> Finalizer) (un_GetFinalizers L cr)) cr in
      tryE (kcall (\<lambda>_. K_Update cr1) (kb_Update K cr1)) id (\<lambda>_. ok ()))"

text \<open>The passes in the order of the code: first the workloads, then everything else, then the finalizer.\<close>

definition withdraw :: "'w kube \<Rightarrow> unstr \<Rightarrow> Reconciler \<Rightarrow> jmap \<Rightarrow> jmap list \<Rightarrow> ('w, unit res) kgo \<Rightarrow> ('w, unit res) kgo" where
  "withdraw K L R cr objects rest =
     tryE (delete_pass K L cr objects) id (\<lambda>pending. if pending then removing K L R cr else rest)"

definition cleanup :: "'w kube \<Rightarrow> unstr \<Rightarrow> Reconciler \<Rightarrow> jmap \<Rightarrow> Spec \<Rightarrow> ('w, unit res) kgo" where
  "cleanup K L R cr spec =
     (if \<not> hasFinalizer L cr then ok ()
      else (case Render L (kb_Operands K) cr spec (rc_Images R) [] (namespace R) of
        Inl e \<Rightarrow> fail e
      | Inr objects \<Rightarrow>
          withdraw K L R cr (filter (workload L) objects)
            (withdraw K L R cr (filter (\<lambda>v. \<not> workload L v) objects) (remove_finalizer K L cr))))"

section \<open>One round\<close>

definition preflight_one :: "'w kube \<Rightarrow> unstr \<Rightarrow> Reconciler \<Rightarrow> jmap \<Rightarrow> jmap \<Rightarrow> ('w, unit res option) kgo" where
  "preflight_one K L R cr v = do {
     r \<leftarrow> k_Get K (ref_of L v);
     (case r of
        Inl e \<Rightarrow> ret (if IsNotFound e then None else Some (Inl e))
      | Inr current \<Rightarrow>
          if \<not> ownedBy L current cr then do {
            c \<leftarrow> condition K L R cr False False ''OwnershipConflict''
              (un_GetKind L v @ '' '' @ un_GetName L v @ '' already exists without this Operator'' @ [CHR 0x27] @ ''s ownership'');
            ret (Some c)
          } else ret None)
   }"

definition apply_one :: "'w kube \<Rightarrow> unstr \<Rightarrow> Reconciler \<Rightarrow> jmap \<Rightarrow> jmap \<Rightarrow> ('w, unit res option) kgo" where
  "apply_one K L R cr v = do {
     r \<leftarrow> apply_operand K L cr v;
     (case r of
        Inr _ \<Rightarrow> ret None
      | Inl e \<Rightarrow> do {
          c \<leftarrow> condition K L R cr False False ''ReconcileFailed''
            ''An operand could not be reconciled; inspect Operator logs and cluster events'';
          ret (Some (case c of Inl se \<Rightarrow> Inl se | Inr _ \<Rightarrow> Inl e))
        })
   }"

text \<open>The loop over the workloads: \<open>Inl\<close> is the result to return at once, \<open>Inr\<close> whether all are ready.\<close>

fun check_ready :: "'w kube \<Rightarrow> unstr \<Rightarrow> Reconciler \<Rightarrow> jmap \<Rightarrow> jmap list \<Rightarrow> bool \<Rightarrow> ('w, unit res + bool) kgo" where
  "check_ready K L R cr [] ready = ret (Inr ready)"
| "check_ready K L R cr (v # vs) ready =
     (if \<not> workload L v then check_ready K L R cr vs ready
      else do {
        r \<leftarrow> k_Get K (ref_of L v);
        (case r of
           Inl e \<Rightarrow> ret (Inl (Inl e))
         | Inr current \<Rightarrow>
             if workloadReady L current then check_ready K L R cr vs ready
             else do {
               f \<leftarrow> workloadFailure K L current;
               (case f of
                  Inl e \<Rightarrow> ret (Inl (Inl e))
                | Inr (Some failure) \<Rightarrow> do {
                    c \<leftarrow> condition K L R cr False False ''WorkloadFailing'' failure;
                    ret (Inl c)
                  }
                | Inr None \<Rightarrow> check_ready K L R cr vs False)
             })
      })"

definition report_ready :: "'w kube \<Rightarrow> unstr \<Rightarrow> Reconciler \<Rightarrow> jmap \<Rightarrow> jmap list \<Rightarrow> ('w, unit res) kgo" where
  "report_ready K L R cr desired = do {
     r \<leftarrow> check_ready K L R cr desired True;
     (case r of
        Inl res \<Rightarrow> ret res
      | Inr ready \<Rightarrow>
          if ready then condition K L R cr True False ''Ready'' ''Controller and node workloads are ready''
          else condition K L R cr False True ''RollingOut'' ''Waiting for controller and node workloads'')
   }"

definition add_finalizer :: "'w kube \<Rightarrow> unstr \<Rightarrow> jmap \<Rightarrow> ('w, jmap res) kgo" where
  "add_finalizer K L cr =
     (if hasFinalizer L cr then ok cr
      else (let cr1 = un_SetFinalizers L (un_GetFinalizers L cr @ [Finalizer]) cr in
            kcall (\<lambda>_. K_Update cr1) (kb_Update K cr1)))"

text \<open>Stable sorting puts the workloads last.\<close>

definition workloads_last :: "unstr \<Rightarrow> jmap list \<Rightarrow> jmap list" where
  "workloads_last L vs = filter (\<lambda>v. \<not> workload L v) vs @ filter (workload L) vs"

definition install :: "'w kube \<Rightarrow> unstr \<Rightarrow> Reconciler \<Rightarrow> jmap \<Rightarrow> jmap list \<Rightarrow> ('w, unit res) kgo" where
  "install K L R cr desired =
     tryE (add_finalizer K L cr) id (\<lambda>cr1. do {
       failed \<leftarrow> first_some (apply_one K L R cr1) (workloads_last L desired);
       (case failed of
          Some res \<Rightarrow> ret res
        | None \<Rightarrow> report_ready K L R cr1 (workloads_last L desired))
     })"

definition good_credentials :: "unstr \<Rightarrow> jmap \<Rightarrow> bool" where
  "good_credentials L secret = list_all (\<lambda>key.
     (case base64_DecodeString (or_zero [] (un_NestedString L secret [''data'', key])) of None \<Rightarrow> False | Some d \<Rightarrow> d \<noteq> []))
     [''username'', ''password'', ''endpoint'']"

text \<open>Encoded texts are good credentials just when none is empty.\<close>

lemma good_credentials_encoded:
  assumes "\<And>key. key \<in> {''username'', ''password'', ''endpoint''} \<Longrightarrow>
      un_NestedString L secret [''data'', key] = Inr (Some (base64_encode (text key)))"
  shows "good_credentials L secret \<longleftrightarrow> text ''username'' \<noteq> [] \<and> text ''password'' \<noteq> [] \<and> text ''endpoint'' \<noteq> []"
  using assms by (simp add: good_credentials_def or_zero_def base64_roundtrip)

definition reconcile_live :: "'w kube \<Rightarrow> unstr \<Rightarrow> Reconciler \<Rightarrow> jmap \<Rightarrow> Spec \<Rightarrow> ('w, unit res) kgo" where
  "reconcile_live K L R cr spec = do {
     sr \<leftarrow> k_Get K (secret_ref (namespace R) (sp_CredentialsSecretName spec));
     (case sr of
        Inl _ \<Rightarrow> condition K L R cr False False ''CredentialsUnavailable'' ''Cannot read the referenced credentials Secret''
      | Inr secret \<Rightarrow>
          if \<not> good_credentials L secret then condition K L R cr False False ''InvalidCredentials''
            ''The Secret must contain nonempty username, password and endpoint keys''
          else (case Render L (kb_Operands K) cr spec (rc_Images R)
              (un_GetUID L secret @ ''/'' @ un_GetResourceVersion L secret) (namespace R) of
            Inl e \<Rightarrow> fail e
          | Inr desired \<Rightarrow> do {
              conflict \<leftarrow> first_some (preflight_one K L R cr) desired;
              (case conflict of
                 Some res \<Rightarrow> ret res
               | None \<Rightarrow> install K L R cr desired)
            }))
   }"

definition Reconcile :: "'w kube \<Rightarrow> unstr \<Rightarrow> Reconciler \<Rightarrow> ('w, unit res) kgo" where
  "Reconcile K L R = do {
     r \<leftarrow> k_Get K driver_ref;
     (case r of
        Inl e \<Rightarrow> if IsNotFound e then ok () else fail e
      | Inr cr \<Rightarrow> (case ParseSpec L (kb_DecodeSpec K) cr of
          (spec, err) \<Rightarrow>
            if un_GetDeletionTimestamp L cr \<noteq> None then cleanup K L R cr spec
            else (case err of
              Some e \<Rightarrow> condition K L R cr False False ''InvalidConfiguration'' (err_text e)
            | None \<Rightarrow> reconcile_live K L R cr spec)))
   }"

section \<open>The process\<close>

text \<open>The images come from the environment; a missing one ends the process.\<close>

definition related_images :: "(string \<Rightarrow> string) \<Rightarrow> string + labels" where
  "related_images getenv =
     (case filter (\<lambda>key. getenv (''RELATED_IMAGE_'' @ to_upper key) = []) ImageKeys of
        key # _ \<Rightarrow> Inl (''RELATED_IMAGE_'' @ to_upper key @ '' must be set'')
      | [] \<Rightarrow> Inr (fmap_of_list (map (\<lambda>key. (key, getenv (''RELATED_IMAGE_'' @ to_upper key))) ImageKeys)))"

text \<open>The start of the process up to the reconciler: \<open>setupErr\<close> is the outcome of making the API clients. \<open>Inl\<close> is the
  message with which the process ends.\<close>

definition operator_main :: "go_error option \<Rightarrow> (string \<Rightarrow> string) \<Rightarrow> string + Reconciler" where
  "operator_main setupErr getenv =
     (case related_images getenv of
        Inl m \<Rightarrow> Inl m
      | Inr images \<Rightarrow> (case setupErr of
          Some e \<Rightarrow> Inl (err_text e)
        | None \<Rightarrow>
            if getenv ''POD_NAME'' = [] \<or> getenv ''POD_NAMESPACE'' = [] then Inl ''POD_NAME and POD_NAMESPACE must be set''
            else Inr \<lparr>rc_Images = images, rc_Namespace = getenv ''POD_NAMESPACE''\<rparr>))"

text \<open>The leader reconciles once per tick; an error is logged and the next tick tries again.\<close>

fun leader :: "'w kube \<Rightarrow> unstr \<Rightarrow> Reconciler \<Rightarrow> nat \<Rightarrow> ('w, unit) kgo" where
  "leader K L R 0 = ret ()"
| "leader K L R (Suc ticks) = State_Monad.bind (Reconcile K L R) (\<lambda>_. leader K L R ticks)"

text \<open>
  The process around the leader. The lease names the pod as its holder; the handler of the health endpoint answers with
  an HTTP status. The election is the library's: whether the process leads at all, for how many ticks, and whether it
  stops because the context was cancelled are arguments. A lease that is lost otherwise ends the process.
\<close>

record lease_config =
  le_Name :: string
  le_Namespace :: string
  le_Identity :: string
  le_LeaseDuration :: int
  le_RenewDeadline :: int
  le_RetryPeriod :: int

definition operator_lease :: "(string \<Rightarrow> string) \<Rightarrow> lease_config" where
  "operator_lease getenv = \<lparr>le_Name = ''hammerspace-csi-operator'', le_Namespace = getenv ''POD_NAMESPACE'',
     le_Identity = getenv ''POD_NAME'', le_LeaseDuration = 30 * second, le_RenewDeadline = 20 * second,
     le_RetryPeriod = 5 * second\<rparr>"

definition health_handler :: "string \<Rightarrow> int" where
  "health_handler url_path = (if url_path \<noteq> ''/healthz'' then 404 else 200)"

datatype operator_end = Op_Fatal string | Op_Returned

definition OnStoppedLeading :: "bool \<Rightarrow> operator_end" where
  "OnStoppedLeading cancelled = (if \<not> cancelled then Op_Fatal ''leader lease lost'' else Op_Returned)"

definition operator_process :: "'w kube \<Rightarrow> unstr \<Rightarrow> go_error option \<Rightarrow> (string \<Rightarrow> string) \<Rightarrow> bool \<Rightarrow> nat \<Rightarrow> bool
    \<Rightarrow> ('w, operator_end) kgo" where
  "operator_process K L setupErr getenv leads ticks cancelled =
     (case operator_main setupErr getenv of
        Inl m \<Rightarrow> ret (Op_Fatal m)
      | Inr R \<Rightarrow> do {
          (if leads then leader K L R ticks else ret ());
          ret (OnStoppedLeading cancelled)
        })"

text \<open>The library demands of a lease that it outlasts the renewal deadline, and that the deadline leaves room for
  retries, which come up to a fifth late.\<close>

lemma operator_lease_valid:
  "le_RenewDeadline (operator_lease g) < le_LeaseDuration (operator_lease g)"
  "6 * le_RetryPeriod (operator_lease g) < 5 * le_RenewDeadline (operator_lease g)"
  by (simp_all add: operator_lease_def second_def)

text \<open>A process that does not lead, or does not start, writes nothing.\<close>

lemma operator_idle:
  assumes "\<not> leads \<or> (\<exists>m. operator_main setupErr getenv = Inl m)"
  shows "snd (run_state (operator_process K L setupErr getenv leads ticks cancelled) s) = s"
  using assms by (auto simp: operator_process_def split: sum.splits)

text \<open>A process that starts has every release image, so that rendering never fails for a missing one.\<close>

lemma started_has_images:
  assumes "operator_main setupErr getenv = Inr R"
  shows "filter (\<lambda>key. image_of (rc_Images R) key = []) ImageKeys = []"
proof -
  have f: "filter (\<lambda>key. getenv (''RELATED_IMAGE_'' @ to_upper key) = []) ImageKeys = []"
    and r: "rc_Images R = fmap_of_list (map (\<lambda>key. (key, getenv (''RELATED_IMAGE_'' @ to_upper key))) ImageKeys)"
    using assms by (auto simp: operator_main_def related_images_def split: list.splits option.splits if_splits)
  have "map_of (map (\<lambda>key. (key, g key)) xs) k = Some (g k)" if "k \<in> set xs" for g :: "string \<Rightarrow> string" and xs k
    using that by (induction xs) auto
  then show ?thesis using f by (auto simp: r filter_empty_conv image_of_def fmlookup_of_list)
qed

end
