(* ===== verification/Operator_Safety.thy ===== *)
theory Operator_Safety
  imports Operator_Reconcile
begin

text \<open>
  What one round of the operator may do to the cluster, read off the history of its requests. A rule says of
  a request and the history before it whether the request was in order; \<open>follows\<close> is the relation between
  the states before and after an operation all of whose requests were in order.

  The theorems: a round deletes only objects it has just read as owned by the custom resource, and only when
  that resource is being deleted; accounts and permissions go, and the finalizer is removed, only after the
  workloads are gone; nothing is created or changed before every object to be installed was found free or
  owned; and the reported conditions.
\<close>

section \<open>Rules on the history\<close>

type_synonym krule = "kevent \<Rightarrow> kevent list \<Rightarrow> bool"

fun obeys :: "krule \<Rightarrow> kevent list \<Rightarrow> kevent list \<Rightarrow> bool" where
  "obeys G [] base = True"
| "obeys G (e # h) base = (G e (h @ base) \<and> obeys G h base)"

definition follows :: "krule \<Rightarrow> 'w kstate \<Rightarrow> 'w kstate \<Rightarrow> bool" where
  "follows G s s' \<longleftrightarrow> (\<exists>new. ks_trace s' = new @ ks_trace s \<and> obeys G new (ks_trace s))"

lemma obeys_append: "obeys G (h @ g) base \<longleftrightarrow> obeys G h (g @ base) \<and> obeys G g base"
  by (induction h) auto

lemma obeys_split: "obeys G (post @ e # pre) base \<Longrightarrow> G e (pre @ base)"
  by (induction post) auto

lemma follows_refl: "follows G s s"
  unfolding follows_def by (rule exI [of _ "[]"]) simp

lemma follows_trans: "follows G s t \<Longrightarrow> follows G t u \<Longrightarrow> follows G s u"
  unfolding follows_def by (metis append.assoc obeys_append)

lemma follows_mono: "follows G s t \<Longrightarrow> set (ks_trace s) \<subseteq> set (ks_trace t)"
  by (auto simp: follows_def)

lemma follows_event:
  "follows G s t \<Longrightarrow> ks_trace u = e # ks_trace t \<Longrightarrow> G e (ks_trace t) \<Longrightarrow> follows G s u"
  by (rule follows_trans) (auto simp: follows_def intro!: exI [of _ "[e]"])

lemma follows_one: "follows G s (s\<lparr>ks_world := w, ks_trace := e # ks_trace s\<rparr>) \<longleftrightarrow> G e (ks_trace s)"
  by (auto simp: follows_def append_eq_Cons_conv Cons_eq_append_conv)

lemma follows_two:
  "follows G s (s\<lparr>ks_world := w, ks_trace := e # d # ks_trace s\<rparr>) \<longleftrightarrow> G e (d # ks_trace s) \<and> G d (ks_trace s)"
  by (auto simp: follows_def Cons_eq_append_conv)

interpretation follows: state_frame "follows G" for G
  by (rule state_frame.intro) (rule follows_refl, rule follows_trans)

lemma wp_kcall [wp_rules]:
  "wp (kcall ev f) Q s = (case f (ks_world s) of
     (r, w) \<Rightarrow> Q r (s\<lparr>ks_world := w, ks_trace := ev r # ks_trace s\<rparr>))"
  by (simp add: kcall_def wp_State split: prod.splits)

lemma follows_kcall: "(\<And>a h. G (ev a) h) \<Longrightarrow> state_io_rel (follows G) (kcall ev f)"
  by (auto simp: keep_iff_wp wp_kcall follows_def split: prod.splits intro!: exI [where x = "[_]"])

text \<open>The rules that allow the reads, the listing of pods and the report of a status.\<close>

definition reads_free :: "krule \<Rightarrow> bool" where
  "reads_free G \<longleftrightarrow> (\<forall>r a h. G (K_Get r a) h) \<and> (\<forall>n l h. G (K_List n l) h) \<and> (\<forall>v h. G (K_UpdateStatus v) h)"

lemma reads_follow:
  assumes "reads_free G"
  shows "state_io_rel (follows G) (k_Get K r)"
    and "state_io_rel (follows G) (condition K L R cr a p reason message)"
    and "state_io_rel (follows G) (workloadFailure K L v)"
  using assms unfolding reads_free_def k_Get_def condition_def workloadFailure_def Let_def
  by (auto intro!: follows.keep_bind follows.keep_gets follows.keep_case_sum follows.keep_return
      follows.keep_if follows.keep_tryE follows_kcall)

lemma check_ready_follows:
  "reads_free G \<Longrightarrow> state_io_rel (follows G) (check_ready K L R cr vs ready)"
  by (induction vs arbitrary: ready) (auto intro!: follows.keep_bind follows.keep_case_sum follows.keep_return
      follows.keep_if follows.keep_case_option reads_follow)

lemma report_ready_follows:
  "reads_free G \<Longrightarrow> state_io_rel (follows G) (report_ready K L R cr vs)"
  unfolding report_ready_def
  by (intro follows.keep_bind follows.keep_case_sum follows.keep_return follows.keep_if reads_follow check_ready_follows)

section \<open>Removal\<close>

text \<open>An object was seen gone: not found, or there with another owner.\<close>

definition gone :: "unstr \<Rightarrow> jmap \<Rightarrow> kevent list \<Rightarrow> kref \<Rightarrow> bool" where
  "gone L cr h r \<longleftrightarrow> (\<exists>a. K_Get r a \<in> set h \<and> (case a of Inl e \<Rightarrow> IsNotFound e | Inr c \<Rightarrow> \<not> ownedBy L c cr))"

definition removal_rule :: "unstr \<Rightarrow> jmap \<Rightarrow> jmap list \<Rightarrow> krule" where
  "removal_rule L cr objs e h = (case e of
     K_Delete r uid \<Rightarrow>
       (\<exists>c h'. h = K_Get r (Inr c) # h' \<and> ownedBy L c cr \<and> uid = un_GetUID L c \<and> un_GetDeletionTimestamp L c = None) \<and>
       (\<exists>v \<in> set objs. r = ref_of L v \<and> (workload L v \<or> (\<forall>w \<in> set objs. workload L w \<longrightarrow> gone L cr h (ref_of L w))))
   | K_Update v \<Rightarrow> \<forall>w \<in> set objs. gone L cr h (ref_of L w)
   | K_Create r v \<Rightarrow> False
   | K_Apply r v \<Rightarrow> False
   | K_ManagedFields r p \<Rightarrow> False
   | _ \<Rightarrow> True)"

lemma gone_mono: "gone L cr h r \<Longrightarrow> set h \<subseteq> set h' \<Longrightarrow> gone L cr h' r"
  by (auto simp: gone_def)

lemma gone_Cons: "gone L cr h r \<Longrightarrow> gone L cr (e # h) r"
  by (auto simp: gone_def)

lemma removal_reads: "reads_free (removal_rule L cr objs)"
  by (simp add: reads_free_def removal_rule_def)

lemma gone_get:
  "IsNotFound e \<Longrightarrow> gone L cr (K_Get r (Inl e) # h) r"
  "\<not> ownedBy L c cr \<Longrightarrow> gone L cr (K_Get r (Inr c) # h) r"
  by (force simp: gone_def)+

definition ready_for :: "unstr \<Rightarrow> jmap \<Rightarrow> jmap list \<Rightarrow> jmap list \<Rightarrow> kevent list \<Rightarrow> bool" where
  "ready_for L cr objs vs h \<longleftrightarrow> set vs \<subseteq> set objs \<and>
     ((\<forall>v \<in> set vs. workload L v) \<or> (\<forall>w \<in> set objs. workload L w \<longrightarrow> gone L cr h (ref_of L w)))"

lemma delete_one_safe:
  assumes "ready_for L cr objs [v] (ks_trace s)"
  shows "wp (delete_one K L cr v) (\<lambda>r s'. follows (removal_rule L cr objs) s s' \<and>
    (r = Inr False \<longrightarrow> gone L cr (ks_trace s') (ref_of L v))) s"
proof -
  have get: "removal_rule L cr objs (K_Get r a) h" for r a h by (simp add: removal_rule_def)
  have del: "removal_rule L cr objs (K_Delete (ref_of L v) (un_GetUID L c)) (K_Get (ref_of L v) (Inr c) # ks_trace s)"
    if "ownedBy L c cr" "un_GetDeletionTimestamp L c = None" for c
    using assms that by (auto simp: removal_rule_def ready_for_def gone_Cons intro!: bexI [of _ v])
  show ?thesis
    unfolding delete_one_def k_Get_def
    by (auto simp: wp_rules get del gone_get follows_one follows_two split: prod.splits sum.splits)
qed

lemma delete_pass_safe:
  assumes "ready_for L cr objs vs (ks_trace s)"
  shows "wp (delete_pass K L cr vs) (\<lambda>r s'. follows (removal_rule L cr objs) s s' \<and>
    (r = Inr False \<longrightarrow> (\<forall>v \<in> set vs. gone L cr (ks_trace s') (ref_of L v)))) s"
  using assms
proof (induction vs arbitrary: s)
  case (Cons v vs)
  have one: "ready_for L cr objs [v] (ks_trace s)" using Cons.prems by (auto simp: ready_for_def)
  have later: "ready_for L cr objs vs (ks_trace t)" if "follows (removal_rule L cr objs) s t" for t
    using Cons.prems follows_mono [OF that] by (auto simp: ready_for_def elim: gone_mono)
  show ?case
    unfolding delete_pass.simps wp_tryE wp_return
  proof (rule wp_mono [OF delete_one_safe [OF one]])
    fix r t
    assume t: "follows (removal_rule L cr objs) s t \<and> (r = Inr False \<longrightarrow> gone L cr (ks_trace t) (ref_of L v))"
    then have "wp (delete_pass K L cr vs) (\<lambda>q u. follows (removal_rule L cr objs) t u \<and>
        (q = Inr False \<longrightarrow> (\<forall>v \<in> set vs. gone L cr (ks_trace u) (ref_of L v)))) t"
      using Cons.IH later by blast
    then show "case r of Inl e \<Rightarrow> follows (removal_rule L cr objs) s t \<and> (Inl (id e) = Inr False \<longrightarrow> (\<forall>v \<in> set (v # vs). gone L cr (ks_trace t) (ref_of L v)))
      | Inr p \<Rightarrow> wp (delete_pass K L cr vs) (\<lambda>q u. case q of Inl e \<Rightarrow> follows (removal_rule L cr objs) s u \<and> (Inl (id e) = Inr False \<longrightarrow> (\<forall>v \<in> set (v # vs). gone L cr (ks_trace u) (ref_of L v)))
        | Inr q \<Rightarrow> follows (removal_rule L cr objs) s u \<and> (Inr (p \<or> q) = Inr False \<longrightarrow> (\<forall>v \<in> set (v # vs). gone L cr (ks_trace u) (ref_of L v)))) t"
      using t by (auto split: sum.splits elim!: wp_mono intro: follows_trans gone_mono [OF _ follows_mono])
  qed
qed (simp add: wp_return follows_refl)

lemma removing_follows: "state_io_rel (follows (removal_rule L cr objs)) (removing K L R cr)"
  unfolding removing_def by (rule reads_follow) (rule removal_reads)

lemma wp_follows: "follows G s t \<Longrightarrow> state_io_rel (follows G) m \<Longrightarrow> wp m (\<lambda>_. follows G s) t"
  by (rule wp_mono [OF follows.keep_wp]) (auto intro: follows_trans)

lemma withdraw_safe:
  assumes "ready_for L cr objs vs (ks_trace s)"
    and "\<And>t. follows (removal_rule L cr objs) s t \<Longrightarrow> \<forall>v \<in> set vs. gone L cr (ks_trace t) (ref_of L v) \<Longrightarrow>
      wp rest (\<lambda>_. follows (removal_rule L cr objs) t) t"
  shows "wp (withdraw K L R cr vs rest) (\<lambda>_. follows (removal_rule L cr objs) s) s"
  unfolding withdraw_def wp_tryE
proof (rule wp_mono [OF delete_pass_safe [OF assms(1)]], goal_cases)
  case (1 r t)
  then have st: "follows (removal_rule L cr objs) s t" by blast
  have "wp rest (\<lambda>_. follows (removal_rule L cr objs) s) t" if "r = Inr False"
    by (rule wp_mono [OF assms(2) [OF st]]) (use 1 that follows_trans [OF st] in auto)
  then show ?case
    using st wp_follows [OF st removing_follows] by (auto simp: wp_if split: sum.splits)
qed

lemma remove_finalizer_safe:
  "\<forall>v \<in> set objs. gone L cr (ks_trace s) (ref_of L v) \<Longrightarrow>
    wp (remove_finalizer K L cr) (\<lambda>_. follows (removal_rule L cr objs) s) s"
  by (auto simp: remove_finalizer_def Let_def wp_rules follows_one removal_rule_def split: prod.splits sum.splits)

lemma cleanup_safe:
  assumes "Render L (kb_Operands K) cr spec (rc_Images R) [] (namespace R) = Inr objs"
  shows "wp (cleanup K L R cr spec) (\<lambda>_. follows (removal_rule L cr objs) s) s"
proof -
  let ?ws = "filter (workload L) objs" and ?os = "filter (\<lambda>v. \<not> workload L v) objs"
  have "wp (withdraw K L R cr ?ws (withdraw K L R cr ?os (remove_finalizer K L cr)))
      (\<lambda>_. follows (removal_rule L cr objs) s) s"
  proof (intro withdraw_safe remove_finalizer_safe)
    show "\<forall>v \<in> set objs. gone L cr (ks_trace u) (ref_of L v)"
      if "follows (removal_rule L cr objs) t u" "\<forall>v \<in> set ?ws. gone L cr (ks_trace t) (ref_of L v)"
        "\<forall>v \<in> set ?os. gone L cr (ks_trace u) (ref_of L v)" for t u
      using that(2,3) gone_mono [OF _ follows_mono [OF that(1)]] by simp blast
  qed (simp_all add: ready_for_def)
  then show ?thesis by (simp add: cleanup_def assms wp_return follows_refl)
qed



section \<open>Installation\<close>

text \<open>An object was found free for the operator: not found, or owned by the custom resource.\<close>

definition cleared :: "unstr \<Rightarrow> jmap \<Rightarrow> jmap list \<Rightarrow> kevent list \<Rightarrow> bool" where
  "cleared L cr objs h \<longleftrightarrow> (\<forall>v \<in> set objs. \<exists>a. K_Get (ref_of L v) a \<in> set h \<and>
     (case a of Inl e \<Rightarrow> IsNotFound e | Inr c \<Rightarrow> ownedBy L c cr))"

definition applied :: "unstr \<Rightarrow> kevent list \<Rightarrow> jmap \<Rightarrow> bool" where
  "applied L h v \<longleftrightarrow> K_Create (ref_of L v) v \<in> set h \<or>
     (\<exists>uid. K_Apply (ref_of L (bound_to L uid v)) (bound_to L uid v) \<in> set h)"

definition in_turn :: "unstr \<Rightarrow> jmap list \<Rightarrow> kevent list \<Rightarrow> jmap \<Rightarrow> bool" where
  "in_turn L objs h v \<longleftrightarrow> v \<in> set objs \<and> (workload L v \<longrightarrow> (\<forall>u \<in> set objs. \<not> workload L u \<longrightarrow> applied L h u))"

definition install_rule :: "unstr \<Rightarrow> jmap \<Rightarrow> jmap list \<Rightarrow> krule" where
  "install_rule L cr objs e h = (case e of
     K_Create r v \<Rightarrow> cleared L cr objs h \<and> in_turn L objs h v \<and> r = ref_of L v \<and>
       (\<exists>x h'. h = K_Get r (Inl x) # h' \<and> IsNotFound x)
   | K_Apply r d \<Rightarrow> cleared L cr objs h \<and> (\<exists>v uid. in_turn L objs h v \<and> d = bound_to L uid v \<and> r = ref_of L d)
   | K_ManagedFields r p \<Rightarrow> cleared L cr objs h
   | K_Update v \<Rightarrow> cleared L cr objs h \<and> v = un_SetFinalizers L (un_GetFinalizers L cr @ [Finalizer]) cr
   | K_Delete r uid \<Rightarrow> False
   | _ \<Rightarrow> True)"

lemma install_reads: "reads_free (install_rule L cr objs)"
  by (simp add: reads_free_def install_rule_def)

lemma history_mono:
  "set h \<subseteq> set h' \<Longrightarrow> cleared L cr objs h \<Longrightarrow> cleared L cr objs h'"
  "set h \<subseteq> set h' \<Longrightarrow> applied L h v \<Longrightarrow> applied L h' v"
  "set h \<subseteq> set h' \<Longrightarrow> in_turn L objs h v \<Longrightarrow> in_turn L objs h' v"
  unfolding cleared_def applied_def in_turn_def by (meson subsetD)+

lemma install_events:
  "install_rule L cr objs (K_Get r a) h"
  "install_rule L cr objs (K_ManagedFields r p) h = cleared L cr objs h"
  by (simp_all add: install_rule_def)

lemma cleared_get:
  "IsNotFound e \<Longrightarrow> cleared L cr [v] (K_Get (ref_of L v) (Inl e) # h)"
  "ownedBy L c cr \<Longrightarrow> cleared L cr [v] (K_Get (ref_of L v) (Inr c) # h)"
  by (force simp: cleared_def)+

lemma cleared_Cons: "cleared L cr objs h \<Longrightarrow> cleared L cr objs (e # h)"
  by (auto intro: history_mono(1) [rotated])

lemma applied_create: "applied L (K_Create (ref_of L v) v # h) v"
  by (simp add: applied_def)

lemma preflight_one_safe:
  "wp (preflight_one K L R cr v) (\<lambda>r s'. follows (install_rule L cr objs) s s' \<and> (r = None \<longrightarrow> cleared L cr [v] (ks_trace s'))) s"
proof -
  have get: "follows (install_rule L cr objs) s (s\<lparr>ks_world := w, ks_trace := K_Get (ref_of L v) a # ks_trace s\<rparr>)" for w a
    by (simp add: follows_one install_rule_def)
  show ?thesis
    unfolding preflight_one_def k_Get_def
    using wp_mono [OF wp_follows [OF get reads_follow(2) [OF install_reads]]]
    by (auto simp: wp_rules get cleared_get split: prod.splits sum.splits)
qed

lemma preflight_safe:
  "wp (first_some (preflight_one K L R cr) vs) (\<lambda>r s'. follows (install_rule L cr objs) s s' \<and> (r = None \<longrightarrow> cleared L cr vs (ks_trace s'))) s"
proof (induction vs arbitrary: s)
  case (Cons v vs)
  show ?case
    unfolding first_some.simps wp_bind
  proof (rule wp_mono [OF preflight_one_safe [where objs = objs]], goal_cases)
    case (1 r t)
    have "wp (first_some (preflight_one K L R cr) vs)
        (\<lambda>r s'. follows (install_rule L cr objs) s s' \<and> (r = None \<longrightarrow> cleared L cr (v # vs) (ks_trace s'))) t" if "r = None"
      using that 1 history_mono(1) [OF follows_mono, of _ t _ L cr "[v]"]
      by (intro wp_mono [OF Cons.IH]) (auto simp: cleared_def intro: follows_trans)
    with 1 show ?case by (auto simp: wp_rules split: option.splits)
  qed
qed (simp add: wp_return follows_refl cleared_def)

lemma upgrade_safe:
  "cleared L cr objs (ks_trace s) \<Longrightarrow> wp (upgrade_rounds n K L current) (\<lambda>_. follows (install_rule L cr objs) s) s"
proof (induction n arbitrary: current s)
  case 0
  then show ?case
    by (auto simp: wp_rules follows_refl follows_one install_events split: sum.splits option.splits prod.splits)
next
  case (Suc n)
  have again: "wp (upgrade_rounds n K L c) (\<lambda>_. follows (install_rule L cr objs) s) (s\<lparr>ks_world := w, ks_trace := K_Get r a # K_ManagedFields r p # ks_trace s\<rparr>)"
    for c w r a p
    by (rule wp_mono [OF Suc.IH], simp add: Suc.prems cleared_Cons, erule follows_trans [rotated])
      (simp add: follows_two install_events Suc.prems)
  show ?case
    using Suc.prems
    by (subst upgrade_rounds.simps)
      (auto simp: wp_rules k_Get_def follows_refl follows_one follows_two again install_events simp del: upgrade_rounds.simps split: sum.splits option.splits prod.splits)
qed

lemma apply_operand_safe:
  assumes c: "cleared L cr objs (ks_trace s)" and v: "in_turn L objs (ks_trace s) v"
  shows "wp (apply_operand K L cr1 v) (\<lambda>r s'. follows (install_rule L cr objs) s s' \<and> (r = Inr () \<longrightarrow> applied L (ks_trace s') v)) s"
proof -
  let ?G = "install_rule L cr objs"
  have cr: "?G (K_Create (ref_of L v) v) (K_Get (ref_of L v) (Inl e) # ks_trace s)" if "IsNotFound e" for e
    using c v that by (auto simp: install_rule_def cleared_Cons intro: history_mono(3) [rotated])
  have ap: "?G (K_Apply (ref_of L (bound_to L uid v)) (bound_to L uid v)) (ks_trace t)" if "follows ?G s t" for uid t
    using history_mono(1,3) [OF follows_mono [OF that]] c v by (force simp: install_rule_def)
  have up: "wp (upgradeManagedFields K L found) (\<lambda>_. follows ?G s) (s\<lparr>ks_world := w, ks_trace := K_Get r a # ks_trace s\<rparr>)" for found w r a
    unfolding upgradeManagedFields_def
    by (rule wp_mono [OF upgrade_safe [where cr = cr and objs = objs]], simp add: c cleared_Cons, erule follows_trans [rotated]) (simp add: follows_one install_events)
  have pat: "wp (patch_operand K L v current) (\<lambda>r s'. follows ?G s s' \<and> (r = Inr () \<longrightarrow> applied L (ks_trace s') v)) t"
    if "follows ?G s t" for current t
    using that follows_event [OF that _ ap [OF that]]
    by (auto simp: patch_operand_def Let_def wp_rules applied_def split: sum.splits prod.splits)
  have own: "wp (tryE (upgradeManagedFields K L found) id (patch_operand K L v))
      (\<lambda>r s'. follows ?G s s' \<and> (r = Inr () \<longrightarrow> applied L (ks_trace s') v))
      (s\<lparr>ks_world := w, ks_trace := K_Get r a # ks_trace s\<rparr>)" for found w r a
    unfolding wp_tryE by (rule wp_mono [OF up]) (auto intro: pat split: sum.splits)
  show ?thesis
    unfolding apply_operand_def k_Get_def
    by (auto simp: wp_bind wp_kcall wp_case_sum wp_if wp_return own follows_one follows_two install_events cr applied_create
        split: prod.splits sum.splits)
qed

lemma apply_one_safe:
  assumes "cleared L cr objs (ks_trace s)" and "in_turn L objs (ks_trace s) v"
  shows "wp (apply_one K L R cr1 v) (\<lambda>r s'. follows (install_rule L cr objs) s s' \<and> (r = None \<longrightarrow> applied L (ks_trace s') v)) s"
  unfolding apply_one_def wp_bind
proof (rule wp_mono [OF apply_operand_safe [OF assms]], goal_cases)
  case (1 r t)
  then have st: "follows (install_rule L cr objs) s t" by blast
  show ?case
    using 1 by (auto simp: wp_rules split: sum.splits intro!: wp_mono [OF wp_follows [OF st reads_follow(2) [OF install_reads]]])
qed

lemma apply_all_safe:
  assumes "cleared L cr objs (ks_trace s)" and "set vs \<subseteq> set objs" and "sorted_wrt (\<lambda>x y. workload L x \<longrightarrow> workload L y) vs"
    and "\<forall>u \<in> set objs. workload L u \<or> applied L (ks_trace s) u \<or> u \<in> set vs"
  shows "wp (first_some (apply_one K L R cr1) vs) (\<lambda>_. follows (install_rule L cr objs) s) s"
  using assms
proof (induction vs arbitrary: s)
  case (Cons v vs)
  have turn: "in_turn L objs (ks_trace s) v" using Cons.prems by (auto simp: in_turn_def)
  show ?case
    unfolding first_some.simps wp_bind
  proof (rule wp_mono [OF apply_one_safe [OF Cons.prems(1) turn]], goal_cases)
    case (1 r t)
    then have st: "follows (install_rule L cr objs) s t" by blast
    have "wp (first_some (apply_one K L R cr1) vs) (\<lambda>_. follows (install_rule L cr objs) t) t" if "r = None"
      using that 1 Cons.prems history_mono(1,2) [OF follows_mono [OF st]] by (intro Cons.IH) auto
    then show ?case using st by (auto simp: wp_rules split: option.splits elim!: wp_mono intro: follows_trans)
  qed
qed (simp add: wp_return follows_refl)

lemma workloads_last_sorted:
  "sorted_wrt (\<lambda>x y. workload L x \<longrightarrow> workload L y) (workloads_last L vs)" "set (workloads_last L vs) = set vs"
  using sorted_wrt_partition [of "\<lambda>v. \<not> workload L v" vs] by (auto simp: workloads_last_def elim!: sorted_wrt_mono_rel [rotated])

lemma install_safe:
  assumes "cleared L cr objs (ks_trace s)"
  shows "wp (install K L R cr objs) (\<lambda>_. follows (install_rule L cr objs) s) s"
proof -
  let ?G = "install_rule L cr objs"
  have all: "wp (State_Monad.bind (first_some (apply_one K L R cr1) (workloads_last L objs)) (\<lambda>failed. case failed of
      Some res \<Rightarrow> ret res | None \<Rightarrow> report_ready K L R cr1 (workloads_last L objs))) (\<lambda>_. follows ?G s) t"
    if st: "follows ?G s t" for cr1 t
  proof -
    have "wp (first_some (apply_one K L R cr1) (workloads_last L objs)) (\<lambda>_. follows ?G t) t"
      using history_mono(1) [OF follows_mono [OF st] assms]
      by (rule apply_all_safe) (auto simp: workloads_last_sorted)
    then show ?thesis
      unfolding wp_bind
      by (rule wp_mono) (auto simp: wp_rules follows_trans [OF st] split: option.splits intro!: wp_follows report_ready_follows install_reads)
  qed
  have fin: "follows ?G s (s\<lparr>ks_world := w, ks_trace := K_Update (un_SetFinalizers L (un_GetFinalizers L cr @ [Finalizer]) cr) # ks_trace s\<rparr>)" for w
    using assms by (simp add: follows_one install_rule_def)
  show ?thesis
    unfolding install_def add_finalizer_def Let_def wp_tryE wp_if wp_return wp_kcall
    by (auto simp: fin all [OF follows_refl] all [OF fin] split: prod.splits sum.splits)
qed

section \<open>A round\<close>

definition quiet_rule :: krule where
  "quiet_rule e h = (case e of K_Get r a \<Rightarrow> True | K_List n l \<Rightarrow> True | K_UpdateStatus v \<Rightarrow> True | _ \<Rightarrow> False)"

lemma follows_weaken:
  assumes "follows G s s'" and "\<And>e h. G e (h @ ks_trace s) \<Longrightarrow> G' e (h @ ks_trace s)"
  shows "follows G' s s'"
proof -
  have "obeys G h (ks_trace s) \<Longrightarrow> obeys G' h (ks_trace s)" for h using assms(2) by (induction h) auto
  then show ?thesis using assms(1) by (auto simp: follows_def)
qed

lemma quiet_reads: "reads_free quiet_rule"
  by (simp add: reads_free_def quiet_rule_def)

lemma reconcile_live_safe:
  "wp (reconcile_live K L R cr spec) (\<lambda>_ s'. follows quiet_rule s s' \<or> (\<exists>sv objs.
     Render L (kb_Operands K) cr spec (rc_Images R) sv (namespace R) = Inr objs \<and> follows (install_rule L cr objs) s s')) s"
proof -
  have get: "follows quiet_rule s (s\<lparr>ks_world := w, ks_trace := K_Get r a # ks_trace s\<rparr>)"
    "follows (install_rule L cr objs) s (s\<lparr>ks_world := w, ks_trace := K_Get r a # ks_trace s\<rparr>)" for w r a objs
    by (simp_all add: follows_one quiet_rule_def install_events)
  have quiet: "wp (condition K L R cr a p reason msg) (\<lambda>_ s'. follows quiet_rule s s' \<or> X s')
      (s\<lparr>ks_world := w, ks_trace := K_Get r b # ks_trace s\<rparr>)" for a p reason msg w r b X
    by (rule wp_mono [OF wp_follows [OF get(1) reads_follow(2) [OF quiet_reads]]]) blast
  have inst: "wp (State_Monad.bind (first_some (preflight_one K L R cr) objs) (\<lambda>c. case c of
      Some res \<Rightarrow> ret res | None \<Rightarrow> install K L R cr objs)) (\<lambda>_ s'. follows (install_rule L cr objs) s s')
      (s\<lparr>ks_world := w, ks_trace := K_Get r b # ks_trace s\<rparr>)" for objs w r b
    unfolding wp_bind
    by (rule wp_mono [OF preflight_safe [where objs = objs]])
      (auto simp: wp_rules follows_trans [OF get(2)] split: option.splits intro!: wp_mono [OF install_safe] intro: follows_trans [OF follows_trans [OF get(2)]])
  show ?thesis
    unfolding reconcile_live_def k_Get_def wp_bind wp_kcall
    by (auto simp: wp_return wp_if get quiet split: prod.splits sum.splits intro!: wp_mono [OF inst])
qed



text \<open>What one round may do, by its first read and by what its settings render.\<close>

definition round_rule :: "'w kube \<Rightarrow> unstr \<Rightarrow> Reconciler \<Rightarrow> krule" where
  "round_rule K L R e h \<longleftrightarrow> quiet_rule e h \<or> (\<exists>cr sv objs. h \<noteq> [] \<and> last h = K_Get driver_ref (Inr cr) \<and>
     Render L (kb_Operands K) cr (fst (ParseSpec L (kb_DecodeSpec K) cr)) (rc_Images R) sv (namespace R) = Inr objs \<and>
     (if un_GetDeletionTimestamp L cr \<noteq> None then removal_rule L cr objs e h
      else snd (ParseSpec L (kb_DecodeSpec K) cr) = None \<and> install_rule L cr objs e h))"

lemma removal_round:
  assumes "wp m (\<lambda>_. follows (removal_rule L cr objs) t) t" and "ks_trace t = [K_Get driver_ref (Inr cr)]"
    and "un_GetDeletionTimestamp L cr \<noteq> None"
    and "Render L (kb_Operands K) cr (fst (ParseSpec L (kb_DecodeSpec K) cr)) (rc_Images R) sv (namespace R) = Inr objs"
  shows "wp m (\<lambda>_. follows (round_rule K L R) t) t"
  using assms(1)
proof (rule wp_mono)
  fix s' assume "follows (removal_rule L cr objs) t s'"
  then show "follows (round_rule K L R) t s'"
    by (rule follows_weaken) (use assms in \<open>auto simp: round_rule_def\<close>)
qed

lemma cleanup_round:
  assumes "ks_trace t = [K_Get driver_ref (Inr cr)]" and "un_GetDeletionTimestamp L cr \<noteq> None"
  shows "wp (cleanup K L R cr (fst (ParseSpec L (kb_DecodeSpec K) cr))) (\<lambda>_. follows (round_rule K L R) t) t"
proof (cases "Render L (kb_Operands K) cr (fst (ParseSpec L (kb_DecodeSpec K) cr)) (rc_Images R) [] (namespace R)")
  case (Inl e)
  then show ?thesis by (simp add: cleanup_def wp_return follows_refl)
next
  case (Inr objs)
  show ?thesis by (rule removal_round [OF cleanup_safe [OF Inr] assms Inr])
qed

lemma live_round:
  assumes "ks_trace t = [K_Get driver_ref (Inr cr)]" and "un_GetDeletionTimestamp L cr = None"
    and "snd (ParseSpec L (kb_DecodeSpec K) cr) = None"
  shows "wp (reconcile_live K L R cr (fst (ParseSpec L (kb_DecodeSpec K) cr))) (\<lambda>_. follows (round_rule K L R) t) t"
  by (rule wp_mono [OF reconcile_live_safe], elim disjE exE conjE; erule follows_weaken)
    (use assms in \<open>auto simp: round_rule_def\<close>)

lemma round_reads: "reads_free (round_rule K L R)"
  by (simp add: reads_free_def round_rule_def quiet_rule_def)

lemma Reconcile_round:
  assumes "ks_trace s = []"
  shows "wp (Reconcile K L R) (\<lambda>_. follows (round_rule K L R) s) s"
proof -
  have get: "follows (round_rule K L R) s (s\<lparr>ks_world := w, ks_trace := [K_Get driver_ref a]\<rparr>)" for w a
    using follows_one [where s = s and w = w and G = "round_rule K L R" and e = "K_Get driver_ref a"] assms by (simp add: round_rule_def quiet_rule_def)
  have go: "wp m (\<lambda>_. follows (round_rule K L R) s) (s\<lparr>ks_world := w, ks_trace := [K_Get driver_ref a]\<rparr>)"
    if "\<And>t. ks_trace t = [K_Get driver_ref a] \<Longrightarrow> wp m (\<lambda>_. follows (round_rule K L R) t) t" for m :: "('a, unit res) kgo" and w a
    by (rule wp_mono [OF that]) (simp, erule follows_trans [OF get])
  have clean: "ks_trace t = [K_Get driver_ref (Inr cr)] \<Longrightarrow> un_GetDeletionTimestamp L cr \<noteq> None \<Longrightarrow>
      ParseSpec L (kb_DecodeSpec K) cr = (spec, err) \<Longrightarrow> wp (cleanup K L R cr spec) (\<lambda>_. follows (round_rule K L R) t) t"
    for t :: "'a kstate" and cr spec err using cleanup_round [of t cr L K R] by simp
  have live: "ks_trace t = [K_Get driver_ref (Inr cr)] \<Longrightarrow> un_GetDeletionTimestamp L cr = None \<Longrightarrow>
      ParseSpec L (kb_DecodeSpec K) cr = (spec, None) \<Longrightarrow> wp (reconcile_live K L R cr spec) (\<lambda>_. follows (round_rule K L R) t) t"
    for t :: "'a kstate" and cr spec using live_round [of t cr L K R] by simp
  have report: "wp (condition K L R cr a p reason msg) (\<lambda>_. follows (round_rule K L R) t) t"
    for t :: "'a kstate" and cr a p reason msg by (rule follows.keep_wp [OF reads_follow(2) [OF round_reads]])
  show ?thesis
    unfolding Reconcile_def k_Get_def wp_bind wp_kcall assms
    by (auto simp: wp_return wp_if get split: prod.splits sum.splits option.splits
        intro!: go report intro: clean live)
qed

lemma round_event:
  assumes "ks_trace s = []" and "run_state (Reconcile K L R) s = (res, s')" and "ks_trace s' = post @ e # pre"
  shows "round_rule K L R e pre"
  using wp_run [OF Reconcile_round [OF assms(1)] assms(2)] assms(1,3) obeys_split [of _ post e pre "[]"]
  by (auto simp: follows_def)

text \<open>A request that installs or changes the object \<open>v\<close>.\<close>

fun changes_operand :: "unstr \<Rightarrow> jmap \<Rightarrow> kevent \<Rightarrow> bool" where
  "changes_operand L v (K_Create r d) = (r = ref_of L v \<and> d = v)"
| "changes_operand L v (K_Apply r d) = (\<exists>uid. d = bound_to L uid v \<and> r = ref_of L d)"
| "changes_operand L v _ = False"



section \<open>A cluster\<close>

text \<open>A cluster that holds one installed set of objects; the world is the list of those that were deleted.\<close>

definition not_found :: go_error where
  "not_found = (new_error ''not found'')\<lparr>err_code := Some NotFound\<rparr>"

definition sample_cr :: "(string \<times> json) list \<Rightarrow> jmap" where
  "sample_cr marks = fmap_of_list [(''apiVersion'', JStr ''storage.hammerspace.com/v1alpha1''), (''kind'', JStr ''HammerspaceCSIDriver''),
     (''metadata'', jobj ([(''name'', JStr ''cluster''), (''uid'', JStr ''u1'')] @ marks))]"

definition leaving :: jmap where
  "leaving = sample_cr [(''finalizers'', jstrs [Finalizer]), (''deletionTimestamp'', JStr ''now'')]"

definition small_spec :: Spec where
  "small_spec = sample_spec\<lparr>sp_StorageClasses := []\<rparr>"

definition sample_secret :: jmap where
  "sample_secret = fmap_of_list [(''data'', jobj [(''username'', JStr ''YQ==''), (''password'', JStr ''Yg==''), (''endpoint'', JStr ''Yw=='')])]"

definition sample_kube :: "jmap \<Rightarrow> kref list kube" where
  "sample_kube cr = \<lparr>
     kb_Get = (\<lambda>r w. (if r = driver_ref then Inr cr
       else if r = secret_ref ''ns'' ''creds'' then Inr sample_secret
       else if r \<in> set w then Inl not_found
       else Inr (set_meta ''uid'' (JStr ''u2'') (own_and_label sample_unstr cr fmempty)), w)),
     kb_Create = (\<lambda>r v w. (Inr (), w)),
     kb_Apply = (\<lambda>r b w. (Inr (), w)),
     kb_JsonPatch = (\<lambda>r p w. (Inl (new_error ''conflict''), w)),
     kb_Delete = (\<lambda>r uid w. (Inr (), r # w)),
     kb_Update = (\<lambda>v w. (Inr v, w)),
     kb_UpdateStatus = (\<lambda>v w. (Inr (), w)),
     kb_ListPods = (\<lambda>n l w. (Inr [], w)),
     kb_Now = (\<lambda>w. ''t1''),
     kb_Marshal = (\<lambda>v. Inr []),
     kb_UpgradePatch = (\<lambda>v. Inr None),
     kb_DecodeSpec = (\<lambda>j. (small_spec, None)),
     kb_Operands = Inr []\<rparr>"

definition sample_reconciler :: Reconciler where
  "sample_reconciler = \<lparr>rc_Images = sample_images, rc_Namespace = ''ns''\<rparr>"

definition scc_ref :: "jmap \<Rightarrow> kref" where
  "scc_ref cr = ref_of sample_unstr (own_and_label sample_unstr cr (render_scc ''ns''))"

text \<open>The history of one round on a cluster in which the given objects do not exist.\<close>

definition round_history :: "jmap \<Rightarrow> kref list \<Rightarrow> kevent list" where
  "round_history cr w = ks_trace (snd (run_state (Reconcile (sample_kube cr) sample_unstr sample_reconciler)
     \<lparr>ks_world = w, ks_trace = []\<rparr>))"




section \<open>Properties of a round\<close>

text \<open>C3. The operator deletes only what is its own, and only on the way out. When a round asks for a deletion, the
  custom resource it read first is being deleted, the request just before it read the object, that object is
  owned by the resource and not yet being deleted, and the deletion is bound to the UID that was read. The
  object is one of those the settings render; and unless it is a workload, every rendered workload was seen gone
  earlier in the round, so accounts and permissions outlive the pods that need them.\<close>

theorem deletes_only_owned:
  assumes "ks_trace s = []" and "run_state (Reconcile K L R) s = (res, s')"
    and "ks_trace s' = post @ K_Delete r uid # pre"
  shows "\<exists>cr c objs sv. last pre = K_Get driver_ref (Inr cr) \<and> un_GetDeletionTimestamp L cr \<noteq> None \<and>
    hd pre = K_Get r (Inr c) \<and> ownedBy L c cr \<and> uid = un_GetUID L c \<and> un_GetDeletionTimestamp L c = None \<and>
    Render L (kb_Operands K) cr (fst (ParseSpec L (kb_DecodeSpec K) cr)) (rc_Images R) sv (namespace R) = Inr objs \<and>
    (\<exists>v \<in> set objs. r = ref_of L v \<and> (workload L v \<or> (\<forall>w \<in> set objs. workload L w \<longrightarrow> gone L cr pre (ref_of L w))))"
  using round_event [OF assms]
  by (fastforce simp: round_rule_def quiet_rule_def removal_rule_def install_rule_def split: if_splits)

theorem deletes_only_owned_witness:
  "\<exists>cr c. last (drop 2 (round_history leaving [])) = K_Get driver_ref (Inr cr) \<and>
     hd (drop 2 (round_history leaving [])) = K_Get (scc_ref leaving) (Inr c) \<and> ownedBy sample_unstr c cr"
proof -
  have "ks_trace (snd (run_state (Reconcile (sample_kube leaving) sample_unstr sample_reconciler) \<lparr>ks_world = [], ks_trace = []\<rparr>)) =
      take 1 (round_history leaving []) @ K_Delete (scc_ref leaving) ''u2'' # drop 2 (round_history leaving [])"
    unfolding round_history_def [symmetric] by code_simp
  from deletes_only_owned [OF _ surjective_pairing this] show ?thesis by auto
qed

text \<open>C21. The finalizer goes last: when a round on a custom resource that is being deleted updates it, which is how it
  takes its finalizer off, every object the settings render was seen gone, or with another owner, earlier in
  that round.\<close>

theorem finalizer_last:
  assumes "ks_trace s = []" and "run_state (Reconcile K L R) s = (res, s')"
    and "ks_trace s' = post @ K_Update v # pre" and "last pre = K_Get driver_ref (Inr cr)"
    and "un_GetDeletionTimestamp L cr \<noteq> None"
  shows "\<exists>objs sv. Render L (kb_Operands K) cr (fst (ParseSpec L (kb_DecodeSpec K) cr)) (rc_Images R) sv (namespace R) = Inr objs \<and>
    (\<forall>w \<in> set objs. gone L cr pre (ref_of L w))"
  using round_event [OF assms(1-3)] assms(4,5)
  by (auto simp: round_rule_def quiet_rule_def removal_rule_def)

theorem finalizer_last_witness:
  "\<exists>objs sv. Render sample_unstr (Inr []) leaving small_spec sample_images sv ''ns'' = Inr objs \<and>
     (\<forall>w \<in> set objs. gone sample_unstr leaving (drop 1 (round_history leaving [scc_ref leaving])) (ref_of sample_unstr w))"
proof -
  let ?h = "round_history leaving [scc_ref leaving]"
  have t: "ks_trace (snd (run_state (Reconcile (sample_kube leaving) sample_unstr sample_reconciler)
      \<lparr>ks_world = [scc_ref leaving], ks_trace = []\<rparr>)) = [] @ K_Update (un_SetFinalizers sample_unstr [] leaving) # drop 1 ?h"
    unfolding round_history_def [symmetric] by code_simp
  have l: "last (drop 1 ?h) = K_Get driver_ref (Inr leaving)" by code_simp
  have d: "un_GetDeletionTimestamp sample_unstr leaving \<noteq> None"
    "fst (ParseSpec sample_unstr (kb_DecodeSpec (sample_kube leaving)) leaving) = small_spec"
    "kb_Operands (sample_kube leaving) = Inr []" "rc_Images sample_reconciler = sample_images" "namespace sample_reconciler = ''ns''"
    by code_simp+
  from finalizer_last [OF _ surjective_pairing t l d(1)] show ?thesis by (simp add: d)
qed

text \<open>C6. Nothing is taken over. When a round on a custom resource that stays makes any request other than a read, a
  listing or a report of its status, its settings were valid, and every object the settings render had already
  been found either missing or owned by the resource in that round; it never asks for a deletion; and a request
  that creates or patches an object does so for a rendered one in its turn: a workload only after every account,
  permission and configuration object was created or patched.\<close>

theorem preflight_before_changes:
  assumes "ks_trace s = []" and "run_state (Reconcile K L R) s = (res, s')"
    and "ks_trace s' = post @ e # pre" and "\<not> quiet_rule e pre" and "last pre = K_Get driver_ref (Inr cr)"
    and "un_GetDeletionTimestamp L cr = None"
  shows "\<exists>objs sv. Render L (kb_Operands K) cr (fst (ParseSpec L (kb_DecodeSpec K) cr)) (rc_Images R) sv (namespace R) = Inr objs \<and>
    snd (ParseSpec L (kb_DecodeSpec K) cr) = None \<and> cleared L cr objs pre \<and>
    (\<forall>r d. e \<noteq> K_Delete r d) \<and>
    (\<forall>r d. e = K_Create r d \<or> e = K_Apply r d \<longrightarrow> (\<exists>v. changes_operand L v e \<and> in_turn L objs pre v))"
  using round_event [OF assms(1-3)] assms(4-6)
  by (cases e) (auto simp: round_rule_def quiet_rule_def install_rule_def)

theorem preflight_before_changes_witness:
  "\<exists>objs. cleared sample_unstr (sample_cr []) objs (drop 2 (round_history (sample_cr []) [scc_ref leaving])) \<and>
     (\<exists>v. in_turn sample_unstr objs (drop 2 (round_history (sample_cr []) [scc_ref leaving])) v)"
proof -
  let ?cr = "sample_cr []" and ?v = "own_and_label sample_unstr (sample_cr []) (render_scc ''ns'')"
  let ?h = "round_history ?cr [scc_ref leaving]"
  have t: "ks_trace (snd (run_state (Reconcile (sample_kube ?cr) sample_unstr sample_reconciler)
      \<lparr>ks_world = [scc_ref leaving], ks_trace = []\<rparr>)) = take 1 ?h @ K_Create (scc_ref leaving) ?v # drop 2 ?h"
    unfolding round_history_def [symmetric] by code_simp
  have l: "last (drop 2 ?h) = K_Get driver_ref (Inr ?cr)" by code_simp
  have d: "un_GetDeletionTimestamp sample_unstr ?cr = None" by code_simp
  have q: "\<not> quiet_rule (K_Create (scc_ref leaving) ?v) (drop 2 ?h)" by (simp add: quiet_rule_def)
  from preflight_before_changes [OF _ surjective_pairing t q l d] show ?thesis by auto
qed

section \<open>Replaced objects\<close>

text \<open>
  Without a hand-over of managed fields, a patch is bound to the UID of the object whose ownership was checked
  in the request before it.
\<close>

lemma apply_bound_to_checked:
  assumes "\<And>c. kb_UpgradePatch K c = Inr None" and "run_state (apply_operand K L cr v) s = (res, s')"
    and "ks_trace s' = K_Apply r d # pre"
  shows "pre = ks_trace s \<or> (\<exists>c. pre = K_Get (ref_of L v) (Inr c) # ks_trace s \<and> ownedBy L c cr \<and> d = bound_to L (un_GetUID L c) v)"
proof -
  have "wp (apply_operand K L cr v) (\<lambda>_ s'. ks_trace s' = K_Apply r d # pre \<longrightarrow>
    pre = ks_trace s \<or> (\<exists>c. pre = K_Get (ref_of L v) (Inr c) # ks_trace s \<and> ownedBy L c cr \<and> d = bound_to L (un_GetUID L c) v)) s"
    by (auto simp: apply_operand_def k_Get_def wp_rules upgradeManagedFields_def assms(1) patch_operand_def Let_def
        split: prod.splits sum.splits)
  from wp_run [OF this assms(2)] assms(3) show ?thesis by blast
qed

text \<open>C38. The patch can take over a replacement. The ownership of an object is checked once; when handing its
  managed fields over fails, because the object was replaced meanwhile, the object is read again and not checked
  again. If the replacement belongs to someone else, and has no fields to hand over, the patch that follows is
  bound to the UID of the replacement.\<close>

theorem apply_adopts_replacement:
  assumes "kb_Get K (ref_of L v) w = (Inr c0, w1)" and "ownedBy L c0 cr"
    and "kb_UpgradePatch K c0 = Inr (Some p)" and "kb_JsonPatch K (ref_of L c0) p w1 = (Inl e, w2)"
    and "kb_Get K (ref_of L c0) w2 = (Inr c1, w3)" and "\<not> ownedBy L c1 cr"
    and "kb_UpgradePatch K c1 = Inr None" and "kb_Marshal K (bound_to L (un_GetUID L c1) v) = Inr b"
  shows "hd (ks_trace (snd (run_state (apply_operand K L cr v) \<lparr>ks_world = w, ks_trace = h\<rparr>))) =
    K_Apply (ref_of L (bound_to L (un_GetUID L c1) v)) (bound_to L (un_GetUID L c1) v)"
  using assms
  by (simp add: apply_operand_def k_Get_def kcall_def upgradeManagedFields_def numeral_2_eq_2 tryE_def patch_operand_def
      Let_def split: prod.splits)

text \<open>A cluster in which the object is replaced after the first read.\<close>

definition replaced_kube :: "nat kube" where
  "replaced_kube = \<lparr>
     kb_Get = (\<lambda>r w. (Inr (set_meta ''uid'' (JStr (if w = 0 then ''u2'' else ''u3''))
        (if w = 0 then own_and_label sample_unstr leaving fmempty else fmempty)), w)),
     kb_Create = (\<lambda>r v w. (Inr (), w)),
     kb_Apply = (\<lambda>r b w. (Inr (), w)),
     kb_JsonPatch = (\<lambda>r p w. (Inl (new_error ''conflict''), Suc w)),
     kb_Delete = (\<lambda>r uid w. (Inr (), w)),
     kb_Update = (\<lambda>v w. (Inr v, w)),
     kb_UpdateStatus = (\<lambda>v w. (Inr (), w)),
     kb_ListPods = (\<lambda>n l w. (Inr [], w)),
     kb_Now = (\<lambda>w. ''t1''),
     kb_Marshal = (\<lambda>v. Inr []),
     kb_UpgradePatch = (\<lambda>v. Inr (if meta_text ''uid'' v = ''u2'' then Some [] else None)),
     kb_DecodeSpec = (\<lambda>j. (small_spec, None)),
     kb_Operands = Inr []\<rparr>"

theorem apply_adopts_replacement_witness:
  "hd (ks_trace (snd (run_state (apply_operand replaced_kube sample_unstr leaving (render_scc ''ns'')) \<lparr>ks_world = 0, ks_trace = []\<rparr>))) =
     K_Apply (ref_of sample_unstr (bound_to sample_unstr ''u3'' (render_scc ''ns''))) (bound_to sample_unstr ''u3'' (render_scc ''ns''))"
proof -
  let ?c0 = "set_meta ''uid'' (JStr ''u2'') (own_and_label sample_unstr leaving fmempty)"
  let ?c1 = "set_meta ''uid'' (JStr ''u3'') fmempty"
  have own: "ownedBy sample_unstr ?c0 leaving" "\<not> ownedBy sample_unstr ?c1 leaving" by code_simp+
  have uid: "un_GetUID sample_unstr ?c1 = ''u3''" by code_simp
  show ?thesis
    using apply_adopts_replacement [of replaced_kube sample_unstr "render_scc ''ns''" 0 ?c0 0 leaving "[]" _ 1 ?c1 1 "[]" "[]"]
    by (simp add: replaced_kube_def own uid meta_text_def text_or_empty_def)
qed

section \<open>Reported conditions\<close>

lemma transition_condition:
  "transition_time n v t (condition_json n' v' reason message g t' # cs) =
    transition_time n v (if n' = n \<and> v' = v then t' else t) cs"
  by (simp add: condition_json_def as_obj_def jobj_def has_text_def fmlookup_of_list)

text \<open>What the report relies on: the status is read back as it was set, and setting it leaves the generation alone.\<close>

locale status_lib = unstructured_lib +
  assumes conditions_set: "fmlookup st ''conditions'' = Some (JArr cs) \<Longrightarrow>
      un_NestedSlice L (fmupd ''status'' (JObj st) v) [''status'', ''conditions''] = Inr (Some cs)"
    and generation_kept: "un_GetGeneration L (fmupd ''status'' j v) = un_GetGeneration L v"
begin

lemma status_of_stable:
  assumes "status_of L R nw cr a p reason message = Inr st"
  shows "status_of L R nw' (fmupd ''status'' st cr) a p reason message = Inr st"
proof -
  let ?g = "un_GetGeneration L cr" and ?v = "\<lambda>b. if b then ''True'' else ''False''"
  obtain t1 t2 t3 where st: "st = jobj [(''observedGeneration'', JNum ?g),
      (''conditions'', JArr [condition_json ''Available'' (?v a) reason message ?g t1,
         condition_json ''Progressing'' (?v p) reason message ?g t2,
         condition_json ''Degraded'' (?v (\<not> a \<and> \<not> p)) reason message ?g t3]),
      (''images'', JObj (fmmap JStr (rc_Images R)))]"
    using assms by (auto simp: status_of_def one_condition_def Let_def split: sum.splits)
  have read: "un_NestedSlice L (fmupd ''status'' st cr) [''status'', ''conditions''] =
      Inr (Some [condition_json ''Available'' (?v a) reason message ?g t1,
         condition_json ''Progressing'' (?v p) reason message ?g t2,
         condition_json ''Degraded'' (?v (\<not> a \<and> \<not> p)) reason message ?g t3])"
    unfolding st jobj_def by (intro conditions_set) (simp add: fmlookup_of_list)
  show ?thesis
    unfolding status_of_def read generation_kept
    by (cases a; cases p) (simp_all add: one_condition_def or_zero_def transition_condition Let_def st del: transition_time.simps(2))
qed

end

interpretation sample_status: status_lib sample_unstr
  by unfold_locales (auto simp: sample_unstr_def typed_def meta_def)

text \<open>A condition that holds is reported once: with the status of the last report in the custom resource,
  reporting the same again, at any later time, writes nothing and succeeds. The times of the transitions are
  those of the first report, so a resource at rest causes no further writes.\<close>

theorem condition_reported_once:
  assumes "status_lib L" and "status_of L R nw cr a p reason message = Inr st"
  shows "run_state (condition K L R (fmupd ''status'' st cr) a p reason message) s = (Inr (), s)"
  using status_lib.status_of_stable [OF assms] by (simp add: condition_def)

theorem condition_reported_once_witness:
  "run_state (condition (sample_kube leaving) sample_unstr sample_reconciler
     (fmupd ''status'' (projr (status_of sample_unstr sample_reconciler ''t0'' leaving True False ''Ready'' ''ok'')) leaving)
     True False ''Ready'' ''ok'') \<lparr>ks_world = [], ks_trace = []\<rparr> = (Inr (), \<lparr>ks_world = [], ks_trace = []\<rparr>)"
proof -
  have "\<not> isl (status_of sample_unstr sample_reconciler ''t0'' leaving True False ''Ready'' ''ok'')" by code_simp
  from condition_reported_once [OF sample_status.status_lib_axioms sum.collapse(2) [OF this, symmetric]] show ?thesis .
qed

end
