(* ===== verification/Operator_Liveness.thy ===== *)
theory Operator_Liveness
  imports Operator_Safety
begin

text \<open>
  The end of a removal. A deletion with foreground propagation does not remove an object at once: it marks it, and the
  object stays until the garbage collector has removed what hangs on it. On a cluster that carries such deletions
  out, the operator's rounds end with every operand gone and the finalizer off the custom resource. The locale states
  what is asked of the cluster.
\<close>

section \<open>Clusters\<close>

text \<open>Two versions of the custom resource that differ at most in their status.\<close>

definition same_resource :: "unstr \<Rightarrow> jmap \<Rightarrow> jmap \<Rightarrow> bool" where
  "same_resource L a b \<longleftrightarrow> un_GetAPIVersion L b = un_GetAPIVersion L a \<and> un_GetKind L b = un_GetKind L a \<and>
     un_GetName L b = un_GetName L a \<and> un_GetUID L b = un_GetUID L a \<and>
     un_GetDeletionTimestamp L b = un_GetDeletionTimestamp L a \<and> un_GetFinalizers L b = un_GetFinalizers L a \<and>
     fmlookup b ''spec'' = fmlookup a ''spec''"

lemma same_resource_facts:
  assumes "same_resource L a b"
  shows "ownedBy L c b = ownedBy L c a" and "hasFinalizer L b = hasFinalizer L a"
    and "ParseSpec L dec b = ParseSpec L dec a" and "Render L ops b spec images sv ns = Render L ops a spec images sv ns"
proof -
  show "ownedBy L c b = ownedBy L c a" "hasFinalizer L b = hasFinalizer L a"
    using assms by (simp_all add: same_resource_def ownedBy_def hasFinalizer_def)
  have n: "un_GetName L b = un_GetName L a" and f: "fmlookup b ''spec'' = fmlookup a ''spec''"
    using assms by (auto simp: same_resource_def)
  show "ParseSpec L dec b = ParseSpec L dec a" unfolding ParseSpec_def n f ..
  have "own_and_label L b = own_and_label L a"
    using assms by (simp add: same_resource_def own_and_label_def owner_of_def fun_eq_iff)
  then show "Render L ops b spec images sv ns = Render L ops a spec images sv ns" unfolding Render_def by (rule ssubst) (rule refl)
qed

lemma same_resource_refl: "same_resource L a a"
  by (simp add: same_resource_def)

lemma same_resource_trans: "same_resource L a b \<Longrightarrow> same_resource L b c \<Longrightarrow> same_resource L a c"
  by (simp add: same_resource_def)

text \<open>
  What a cluster does with an object on its own account: an object that is not there stays away, one that is marked for
  deletion may go, and one that stays keeps its UID, its owners and its mark. \<open>wait\<close> says how many more times an
  object that is marked will be found by a read.
\<close>

definition marked :: "unstr \<Rightarrow> jmap \<Rightarrow> bool" where
  "marked L c \<longleftrightarrow> un_GetDeletionTimestamp L c \<noteq> None"

definition same_object :: "unstr \<Rightarrow> jmap \<Rightarrow> jmap \<Rightarrow> bool" where
  "same_object L a b \<longleftrightarrow> un_GetUID L b = un_GetUID L a \<and> un_GetOwnerReferences L b = un_GetOwnerReferences L a \<and>
     (marked L b \<longleftrightarrow> marked L a)"

definition lasts :: "unstr \<Rightarrow> (kref \<rightharpoonup> jmap) \<Rightarrow> (kref \<Rightarrow> nat) \<Rightarrow> (kref \<rightharpoonup> jmap) \<Rightarrow> (kref \<Rightarrow> nat) \<Rightarrow> kref \<Rightarrow> bool" where
  "lasts L m n m' n' q \<longleftrightarrow> (case m q of
     None \<Rightarrow> m' q = None
   | Some a \<Rightarrow> (case m' q of
       None \<Rightarrow> marked L a
     | Some b \<Rightarrow> same_object L a b \<and> n' q \<le> n q))"

text \<open>A removal that has come to its end: no rendered object of the resource is left, and the finalizer is off.\<close>

definition removed :: "unstr \<Rightarrow> jmap \<Rightarrow> jmap list \<Rightarrow> (kref \<rightharpoonup> jmap) \<Rightarrow> bool" where
  "removed L cr objs m \<longleftrightarrow> (case m driver_ref of None \<Rightarrow> True | Some c \<Rightarrow> \<not> hasFinalizer L c) \<and>
     list_all (\<lambda>v. case m (ref_of L v) of None \<Rightarrow> True | Some c \<Rightarrow> \<not> ownedBy L c cr) objs"

locale finishing_cluster =
  fixes K :: "'w kube" and L :: unstr and store :: "'w \<Rightarrow> kref \<rightharpoonup> jmap" and wait :: "'w \<Rightarrow> kref \<Rightarrow> nat" and grace :: nat
  assumes get: "kb_Get K r w = (a, w') \<Longrightarrow> store w' driver_ref = store w driver_ref \<and>
      (\<forall>q. q \<noteq> driver_ref \<longrightarrow> lasts L (store w) (wait w) (store w') (wait w') q) \<and>
      (case store w' r of None \<Rightarrow> \<exists>e. a = Inl e \<and> IsNotFound e | Some c \<Rightarrow> a = Inr c)"
    and collects: "kb_Get K r w = (a, w') \<Longrightarrow> r \<noteq> driver_ref \<Longrightarrow> store w r = Some c \<Longrightarrow> marked L c \<Longrightarrow>
      store w' r \<noteq> None \<Longrightarrow> wait w' r < wait w r"
    and graceful: "wait w r \<le> grace"
    and delete: "kb_Delete K r (un_GetUID L c) w = (b, w') \<Longrightarrow> r \<noteq> driver_ref \<Longrightarrow> store w r = Some c \<Longrightarrow>
      store w' driver_ref = store w driver_ref \<and>
      (\<forall>q. q \<noteq> driver_ref \<longrightarrow> q \<noteq> r \<longrightarrow> lasts L (store w) (wait w) (store w') (wait w') q) \<and>
      (b = Inr () \<or> (\<exists>e. b = Inl e \<and> IsNotFound e)) \<and> (\<forall>c'. store w' r = Some c' \<longrightarrow> marked L c')"
    and status: "kb_UpdateStatus K v w = (b, w') \<Longrightarrow> store w driver_ref = Some cr \<Longrightarrow>
      (\<exists>cr'. store w' driver_ref = Some cr' \<and> same_resource L cr cr') \<and>
      (\<forall>q. q \<noteq> driver_ref \<longrightarrow> lasts L (store w) (wait w) (store w') (wait w') q)"
    and update: "kb_Update K (un_SetFinalizers L fs cr) w = (u, w') \<Longrightarrow> store w driver_ref = Some cr \<Longrightarrow>
      (\<forall>c. store w' driver_ref = Some c \<longrightarrow> un_GetFinalizers L c = fs \<and> (marked L c \<longleftrightarrow> marked L cr)) \<and>
      (\<forall>q. q \<noteq> driver_ref \<longrightarrow> lasts L (store w) (wait w) (store w') (wait w') q)"
begin

text \<open>How many more rounds an operand that the resource owns can be found by.\<close>

definition rank :: "jmap \<Rightarrow> 'w \<Rightarrow> kref \<Rightarrow> nat" where
  "rank cr w q = (case store w q of
     None \<Rightarrow> 0
   | Some c \<Rightarrow> if \<not> ownedBy L c cr then 0 else if marked L c then Suc (wait w q) else grace + 2)"

lemma rank_lasts: "lasts L (store w) (wait w) (store w') (wait w') q \<Longrightarrow> rank cr w' q \<le> rank cr w q"
  by (auto simp: lasts_def rank_def same_object_def ownedBy_def split: option.splits)

lemma rank_bound: "rank cr w q \<le> grace + 2"
  using graceful [of w q] by (auto simp: rank_def split: option.splits)

definition sinks :: "jmap \<Rightarrow> 'w \<Rightarrow> 'w \<Rightarrow> bool" where
  "sinks cr w w' \<longleftrightarrow> store w' driver_ref = store w driver_ref \<and> (\<forall>q. q \<noteq> driver_ref \<longrightarrow> rank cr w' q \<le> rank cr w q)"

lemma sinks_refl: "sinks cr w w"
  by (simp add: sinks_def)

lemma sinks_trans: "sinks cr w w' \<Longrightarrow> sinks cr w' w'' \<Longrightarrow> sinks cr w w''"
  unfolding sinks_def using order_trans by metis

lemma get_wp:
  assumes "\<And>a t. sinks cr (ks_world s) (ks_world t) \<Longrightarrow>
      (case store (ks_world t) r of None \<Rightarrow> \<exists>e. a = Inl e \<and> IsNotFound e | Some c \<Rightarrow> a = Inr c) \<Longrightarrow>
      (r \<noteq> driver_ref \<longrightarrow> (\<forall>c. store (ks_world t) r = Some c \<and> marked L c \<and> ownedBy L c cr \<longrightarrow>
        rank cr (ks_world t) r < rank cr (ks_world s) r)) \<Longrightarrow> Q a t"
  shows "wp (k_Get K r) Q s"
proof -
  obtain a w' where k: "kb_Get K r (ks_world s) = (a, w')" by (cases "kb_Get K r (ks_world s)")
  let ?t = "s\<lparr>ks_world := w', ks_trace := K_Get r a # ks_trace s\<rparr>"
  note g = get [OF k]
  have "Q a ?t"
  proof (rule assms)
    show "sinks cr (ks_world s) (ks_world ?t)" using g by (auto simp: sinks_def intro: rank_lasts)
    show "case store (ks_world ?t) r of None \<Rightarrow> \<exists>e. a = Inl e \<and> IsNotFound e | Some c \<Rightarrow> a = Inr c" using g by simp
    show "r \<noteq> driver_ref \<longrightarrow> (\<forall>c. store (ks_world ?t) r = Some c \<and> marked L c \<and> ownedBy L c cr \<longrightarrow>
        rank cr (ks_world ?t) r < rank cr (ks_world s) r)"
    proof (intro impI allI)
      fix c assume r: "r \<noteq> driver_ref" and c: "store (ks_world ?t) r = Some c \<and> marked L c \<and> ownedBy L c cr"
      have l: "lasts L (store (ks_world s)) (wait (ks_world s)) (store w') (wait w') r" using g r by blast
      then obtain d where d: "store (ks_world s) r = Some d" "marked L d" "ownedBy L d cr"
        using c by (auto simp: lasts_def same_object_def ownedBy_def split: option.splits)
      show "rank cr (ks_world ?t) r < rank cr (ks_world s) r"
        using collects [OF k r d(1,2)] c d by (simp add: rank_def)
    qed
  qed
  then show ?thesis by (simp add: k_Get_def wp_kcall k)
qed

lemma delete_wp:
  assumes "store (ks_world s) r = Some c" and "r \<noteq> driver_ref" and "ownedBy L c cr" and "\<not> marked L c"
    and "\<And>b t. sinks cr (ks_world s) (ks_world t) \<Longrightarrow> rank cr (ks_world t) r < rank cr (ks_world s) r \<Longrightarrow>
      b = Inr () \<or> (\<exists>e. b = Inl e \<and> IsNotFound e) \<Longrightarrow> Q b t"
  shows "wp (kcall (\<lambda>_. K_Delete r (un_GetUID L c)) (kb_Delete K r (un_GetUID L c))) Q s"
proof -
  obtain b w' where k: "kb_Delete K r (un_GetUID L c) (ks_world s) = (b, w')" by (cases "kb_Delete K r (un_GetUID L c) (ks_world s)")
  note d = delete [OF k assms(2,1)]
  have less: "rank cr w' r < rank cr (ks_world s) r"
    using d assms(1,3,4) graceful [of w' r] by (auto simp: rank_def split: option.splits)
  have "sinks cr (ks_world s) w'"
    unfolding sinks_def using d less by (metis less_imp_le rank_lasts)
  then show ?thesis using assms(5) [of "s\<lparr>ks_world := w', ks_trace := K_Delete r (un_GetUID L c) # ks_trace s\<rparr>" b] less d
    by (simp add: wp_kcall k)
qed

definition sinks_by :: "jmap \<Rightarrow> jmap list \<Rightarrow> 'w \<Rightarrow> 'w \<Rightarrow> bool res \<Rightarrow> bool" where
  "sinks_by cr vs w w' r \<longleftrightarrow> sinks cr w w' \<and> (\<forall>v \<in> set vs. rank cr w' (ref_of L v) \<le> rank cr w (ref_of L v) - 1) \<and>
     (case r of Inl _ \<Rightarrow> False
      | Inr p \<Rightarrow> if p then \<exists>v \<in> set vs. 0 < rank cr w (ref_of L v) else \<forall>v \<in> set vs. rank cr w' (ref_of L v) = 0)"

lemma sinks_by_answer: "sinks_by cr vs w w' r \<Longrightarrow> \<exists>p. r = Inr p"
  by (auto simp: sinks_by_def split: sum.splits)

lemma delete_one_sinks:
  assumes "ref_of L v \<noteq> driver_ref"
  shows "wp (delete_one K L cr v) (\<lambda>r s'. sinks_by cr [v] (ks_world s) (ks_world s') r) s"
  unfolding delete_one_def wp_bind
proof (rule get_wp [where cr = cr], goal_cases)
  case (1 a t)
  let ?r = "ref_of L v"
  have le: "rank cr (ks_world t) ?r \<le> rank cr (ks_world s) ?r" using 1 assms by (simp add: sinks_def)
  show ?case
  proof (cases "store (ks_world t) ?r")
    case None
    then have "rank cr (ks_world t) ?r = 0" by (simp add: rank_def)
    with 1 None show ?thesis by (auto simp: wp_rules sinks_by_def)
  next
    case (Some c)
    then have a: "a = Inr c" using 1 by simp
    consider (foreign) "\<not> ownedBy L c cr" | (old) "ownedBy L c cr" "marked L c" | (new) "ownedBy L c cr" "\<not> marked L c" by blast
    then show ?thesis
    proof cases
      case foreign
      then have "rank cr (ks_world t) ?r = 0" using Some by (simp add: rank_def)
      with 1 a foreign show ?thesis by (auto simp: wp_rules sinks_by_def)
    next
      case old
      then have "rank cr (ks_world t) ?r < rank cr (ks_world s) ?r" using 1 Some assms by blast
      with 1 a old show ?thesis by (auto simp: wp_rules sinks_by_def marked_def)
    next
      case new
      have "wp (kcall (\<lambda>_. K_Delete ?r (un_GetUID L c)) (kb_Delete K ?r (un_GetUID L c)))
          (\<lambda>d. wp (case d of Inl e \<Rightarrow> if IsNotFound e then ok True else fail e | Inr _ \<Rightarrow> ok True)
            (\<lambda>r s'. sinks_by cr [v] (ks_world s) (ks_world s') r)) t"
      proof (rule delete_wp [OF Some assms new], goal_cases)
        case (1 b u)
        have "sinks cr (ks_world s) (ks_world u)" using sinks_trans [OF \<open>sinks cr (ks_world s) (ks_world t)\<close> 1(1)] .
        with 1 le show ?case by (auto simp: wp_rules sinks_by_def)
      qed
      with a new show ?thesis by (simp add: wp_if wp_bind wp_case_sum marked_def)
    qed
  qed
qed

lemma sinks_by_Cons:
  assumes "sinks_by cr [v] w w' (Inr p)" and "sinks_by cr vs w' w'' (Inr q)" and "driver_ref \<notin> ref_of L ` set (v # vs)"
  shows "sinks_by cr (v # vs) w w'' (Inr (p \<or> q))"
proof -
  have le: "rank cr w'' (ref_of L u) \<le> rank cr w' (ref_of L u)" "rank cr w' (ref_of L u) \<le> rank cr w (ref_of L u)"
    if "u \<in> set (v # vs)" for u
  proof -
    have "ref_of L u \<noteq> driver_ref" using assms(3) that by (metis imageI)
    then show "rank cr w'' (ref_of L u) \<le> rank cr w' (ref_of L u)" "rank cr w' (ref_of L u) \<le> rank cr w (ref_of L u)"
      using assms(1,2) by (auto simp: sinks_by_def sinks_def)
  qed
  have v: "rank cr w' (ref_of L v) \<le> rank cr w (ref_of L v) - 1" using assms(1) by (simp add: sinks_by_def)
  have vs: "rank cr w'' (ref_of L u) \<le> rank cr w' (ref_of L u) - 1" if "u \<in> set vs" for u using assms(2) that by (simp add: sinks_by_def)
  have "rank cr w'' (ref_of L u) \<le> rank cr w (ref_of L u) - 1" if "u \<in> set (v # vs)" for u
    using that le [OF that] v vs [of u] by (cases "u = v") auto
  moreover have "sinks cr w w''" using assms(1,2) sinks_trans by (auto simp: sinks_by_def)
  moreover have "if p \<or> q then \<exists>u \<in> set (v # vs). 0 < rank cr w (ref_of L u) else \<forall>u \<in> set (v # vs). rank cr w'' (ref_of L u) = 0"
  proof (cases "p \<or> q")
    case True
    then show ?thesis using assms(1,2) le(2) by (fastforce simp: sinks_by_def dest: less_le_trans split: if_splits)
  next
    case False
    then have "rank cr w' (ref_of L v) = 0" and "\<forall>u \<in> set vs. rank cr w'' (ref_of L u) = 0"
      using assms(1,2) by (auto simp: sinks_by_def)
    then show ?thesis using False le(1) [of v] by simp
  qed
  ultimately show ?thesis by (simp add: sinks_by_def)
qed

lemma delete_pass_sinks:
  "driver_ref \<notin> ref_of L ` set vs \<Longrightarrow> wp (delete_pass K L cr vs) (\<lambda>r s'. sinks_by cr vs (ks_world s) (ks_world s') r) s"
proof (induction vs arbitrary: s)
  case Nil
  have "sinks_by cr [] (ks_world s) (ks_world s) (Inr False)" by (simp add: sinks_by_def sinks_refl)
  then show ?case by (simp add: wp_return)
next
  case (Cons v vs)
  have v: "ref_of L v \<noteq> driver_ref" and vs: "driver_ref \<notin> ref_of L ` set vs" using Cons.prems by auto
  show ?case
    unfolding delete_pass.simps wp_tryE
  proof (rule wp_mono [OF delete_one_sinks [OF v]], goal_cases)
    case (1 r t)
    then obtain p where r: "r = Inr p" using sinks_by_answer by blast
    show ?case
      unfolding r sum.case
    proof (rule wp_mono [OF Cons.IH [OF vs, of t]], goal_cases)
      case (1 r' u)
      then obtain q where r': "r' = Inr q" using sinks_by_answer by blast
      from sinks_by_Cons [OF \<open>sinks_by cr [v] _ _ r\<close> [unfolded r] 1 [unfolded r'] Cons.prems]
      show ?case unfolding r' by (simp add: wp_return)
    qed
  qed
qed

text \<open>Where a removal stands: the workloads and the rest are found for at most so many more rounds.\<close>

definition stage :: "jmap \<Rightarrow> jmap list \<Rightarrow> nat \<Rightarrow> nat \<Rightarrow> 'w \<Rightarrow> bool" where
  "stage cr objs n m w \<longleftrightarrow> (\<exists>cr'. store w driver_ref = Some cr' \<and> same_resource L cr cr') \<and>
     (\<forall>v \<in> set objs. rank cr w (ref_of L v) \<le> (if workload L v then n else m))"

definition finished :: "jmap \<Rightarrow> jmap list \<Rightarrow> 'w \<Rightarrow> bool" where
  "finished cr objs w \<longleftrightarrow> (\<forall>c. store w driver_ref = Some c \<longrightarrow> marked L c \<and> \<not> hasFinalizer L c) \<and>
     (\<forall>v \<in> set objs. rank cr w (ref_of L v) = 0)"

definition nearer :: "jmap \<Rightarrow> jmap list \<Rightarrow> nat \<Rightarrow> 'w \<Rightarrow> bool" where
  "nearer cr objs k w \<longleftrightarrow> finished cr objs w \<or> (\<exists>n m. n + m < k \<and> stage cr objs n m w)"

lemma removing_stage:
  assumes "stage cr objs n m (ks_world s)" and "driver_ref \<notin> ref_of L ` set objs"
  shows "wp (removing K L R cr') (\<lambda>_ s'. stage cr objs n m (ks_world s')) s"
proof -
  obtain cr0 where cr0: "store (ks_world s) driver_ref = Some cr0" and same: "same_resource L cr cr0"
    using assms(1) by (auto simp: stage_def)
  have up: "stage cr objs n m w'" if u: "kb_UpdateStatus K x (ks_world s) = (b, w')" for x b w'
  proof -
    have "rank cr w' (ref_of L v) \<le> rank cr (ks_world s) (ref_of L v)" if "v \<in> set objs" for v
      using status [OF u cr0] assms(2) that by (metis imageI rank_lasts)
    moreover have "\<exists>cr1. store w' driver_ref = Some cr1 \<and> same_resource L cr cr1"
      using status [OF u cr0] same same_resource_trans by blast
    ultimately show ?thesis using assms(1) unfolding stage_def by (meson order_trans)
  qed
  show ?thesis
    using assms(1) up unfolding removing_def condition_def
    by (auto simp: wp_bind wp_State wp_case_sum wp_return wp_if wp_kcall split: sum.splits prod.splits)
qed

lemma withdraw_stage:
  assumes "driver_ref \<notin> ref_of L ` set vs" and "same_resource L cr cr'"
    and some: "\<And>t. sinks cr (ks_world s) (ks_world t) \<Longrightarrow> \<exists>v \<in> set vs. 0 < rank cr (ks_world s) (ref_of L v) \<Longrightarrow>
      \<forall>v \<in> set vs. rank cr (ks_world t) (ref_of L v) \<le> rank cr (ks_world s) (ref_of L v) - 1 \<Longrightarrow> wp (removing K L R cr') Q t"
    and none: "\<And>t. sinks cr (ks_world s) (ks_world t) \<Longrightarrow> \<forall>v \<in> set vs. rank cr (ks_world t) (ref_of L v) = 0 \<Longrightarrow> wp rest Q t"
  shows "wp (withdraw K L R cr' vs rest) Q s"
proof -
  have same: "delete_pass K L cr' us = delete_pass K L cr us" for us
  proof (induction us)
    case (Cons u us)
    have "delete_one K L cr' u = delete_one K L cr u" unfolding delete_one_def same_resource_facts(1) [OF assms(2)] ..
    with Cons show ?case by simp
  qed simp
  show ?thesis
    unfolding withdraw_def wp_tryE same
  proof (rule wp_mono [OF delete_pass_sinks [OF assms(1)]], goal_cases)
    case (1 r t)
    then obtain p where r: "r = Inr p" using sinks_by_answer by blast
    show ?case
    proof (cases p)
      case True
      then show ?thesis using 1 some [of t] unfolding r by (simp add: sinks_by_def)
    next
      case False
      then show ?thesis using 1 none [of t] unfolding r by (simp add: sinks_by_def)
    qed
  qed
qed

lemma stage_sinks:
  assumes "stage cr objs n m w" and "sinks cr w w'" and "driver_ref \<notin> ref_of L ` set objs"
    and "\<And>v. v \<in> set objs \<Longrightarrow> rank cr w' (ref_of L v) \<le> rank cr w (ref_of L v) \<Longrightarrow>
      rank cr w (ref_of L v) \<le> (if workload L v then n else m) \<Longrightarrow> rank cr w' (ref_of L v) \<le> (if workload L v then n' else m')"
  shows "stage cr objs n' m' w'"
proof -
  have "rank cr w' (ref_of L v) \<le> rank cr w (ref_of L v)" if "v \<in> set objs" for v
    using assms(2,3) that unfolding sinks_def by (metis imageI)
  then show ?thesis using assms(1,2,4) by (auto simp: stage_def sinks_def)
qed

lemma remove_finalizer_finishes:
  assumes "store (ks_world s) driver_ref = Some cr'" and "marked L cr'" and "driver_ref \<notin> ref_of L ` set objs"
    and "\<forall>v \<in> set objs. rank cr (ks_world s) (ref_of L v) = 0"
  shows "wp (remove_finalizer K L cr') (\<lambda>_ s'. finished cr objs (ks_world s')) s"
proof -
  let ?fs = "filter (\<lambda>f. f \<noteq> Finalizer) (un_GetFinalizers L cr')"
  obtain u w' where k: "kb_Update K (un_SetFinalizers L ?fs cr') (ks_world s) = (u, w')"
    by (cases "kb_Update K (un_SetFinalizers L ?fs cr') (ks_world s)")
  note up = update [OF k assms(1)]
  have "rank cr w' (ref_of L v) \<le> rank cr (ks_world s) (ref_of L v)" if "v \<in> set objs" for v
    using up assms(3) that by (metis imageI rank_lasts)
  with assms(2,4) up have "finished cr objs w'" by (auto simp: finished_def hasFinalizer_def list_ex_iff)
  then show ?thesis by (simp add: remove_finalizer_def Let_def wp_rules k split: sum.splits)
qed

lemma cleanup_nearer:
  assumes "stage cr objs n m (ks_world s)" and "store (ks_world s) driver_ref = Some cr'" and "driver_ref \<notin> ref_of L ` set objs"
    and "same_resource L cr cr'" and "hasFinalizer L cr" and "marked L cr"
    and "Render L (kb_Operands K) cr spec (rc_Images R) [] (namespace R) = Inr objs"
  shows "wp (cleanup K L R cr' spec) (\<lambda>_ s'. nearer cr objs (n + m) (ks_world s')) s"
proof -
  let ?ws = "filter (workload L) objs" and ?os = "filter (\<lambda>v. \<not> workload L v) objs"
  have parts: "driver_ref \<notin> ref_of L ` set ?ws" "driver_ref \<notin> ref_of L ` set ?os" using assms(3) by auto
  have mark: "marked L cr'" using assms(4,6) by (simp add: same_resource_def marked_def)
  have on: "wp (removing K L R cr') (\<lambda>_ s'. nearer cr objs (n + m) (ks_world s')) t"
    if "stage cr objs n' m' (ks_world t)" "n' + m' < n + m" for n' m' t
    by (rule wp_mono [OF removing_stage [OF that(1) assms(3)]]) (use that(2) in \<open>auto simp: nearer_def\<close>)
  have cl: "cleanup K L R cr' spec = withdraw K L R cr' ?ws (withdraw K L R cr' ?os (remove_finalizer K L cr'))"
    using same_resource_facts [OF assms(4)] assms(5,7) by (simp add: cleanup_def)
  show ?thesis
    unfolding cl
  proof (rule withdraw_stage [OF parts(1) assms(4)], goal_cases)
    case (1 t)
    then have "0 < n" using assms(1) by (auto simp: stage_def)
    moreover have "stage cr objs (n - 1) m (ks_world t)"
      by (rule stage_sinks [OF assms(1) 1(1) assms(3)]) (use 1(3) in \<open>auto simp: le_diff_conv intro: order_trans\<close>)
    ultimately show ?case using on [of "n - 1" m t] by simp
  next
    case (2 t)
    have "stage cr objs 0 m (ks_world t)"
      by (rule stage_sinks [OF assms(1) 2(1) assms(3)]) (use 2(2) in \<open>auto split: if_splits intro: order_trans\<close>)
    moreover have "store (ks_world t) driver_ref = Some cr'" using 2(1) assms(2) by (simp add: sinks_def)
    ultimately have t: "stage cr objs 0 m (ks_world t)" "store (ks_world t) driver_ref = Some cr'" .
    show ?case
    proof (rule withdraw_stage [OF parts(2) assms(4)], goal_cases)
      case (1 u)
      then have "0 < m" using t(1) by (auto simp: stage_def)
      moreover have "stage cr objs 0 (m - 1) (ks_world u)"
        by (rule stage_sinks [OF t(1) 1(1) assms(3)]) (use 1(3) in \<open>auto simp: le_diff_conv intro: order_trans\<close>)
      ultimately show ?case using on [of 0 "m - 1" u] by simp
    next
      case (2 u)
      have "stage cr objs 0 0 (ks_world u)"
        by (rule stage_sinks [OF t(1) 2(1) assms(3)]) (use 2(2) in auto)
      then have "\<forall>v \<in> set objs. rank cr (ks_world u) (ref_of L v) = 0" by (auto simp: stage_def split: if_splits)
      moreover have "store (ks_world u) driver_ref = Some cr'" using 2(1) t(2) by (simp add: sinks_def)
      ultimately have "wp (remove_finalizer K L cr') (\<lambda>_ s'. finished cr objs (ks_world s')) u"
        using remove_finalizer_finishes mark assms(3) by blast
      then show ?case by (rule wp_mono) (simp add: nearer_def)
    qed
  qed
qed

lemma round_nearer:
  assumes "stage cr objs n m (ks_world s)" and "driver_ref \<notin> ref_of L ` set objs" and "hasFinalizer L cr" and "marked L cr"
    and "Render L (kb_Operands K) cr (fst (ParseSpec L (kb_DecodeSpec K) cr)) (rc_Images R) [] (namespace R) = Inr objs"
  shows "wp (Reconcile K L R) (\<lambda>_ s'. nearer cr objs (n + m) (ks_world s')) s"
  unfolding Reconcile_def wp_bind
proof (rule get_wp [where cr = cr], goal_cases)
  case (1 a t)
  obtain cr' where cr': "store (ks_world s) driver_ref = Some cr'" and same: "same_resource L cr cr'"
    using assms(1) by (auto simp: stage_def)
  have t: "stage cr objs n m (ks_world t)" "store (ks_world t) driver_ref = Some cr'"
    using stage_sinks [OF assms(1) 1(1) assms(2), of n m] 1 cr' by (auto simp: sinks_def intro: order_trans)
  obtain spec err where p: "ParseSpec L (kb_DecodeSpec K) cr = (spec, err)" by (cases "ParseSpec L (kb_DecodeSpec K) cr")
  have "un_GetDeletionTimestamp L cr' \<noteq> None" using same assms(4) by (simp add: same_resource_def marked_def)
  moreover have "wp (cleanup K L R cr' spec) (\<lambda>_ s'. nearer cr objs (n + m) (ks_world s')) t"
    using cleanup_nearer [OF t assms(2) same assms(3,4)] assms(5) p by simp
  ultimately show ?case using 1 t(2) p same_resource_facts(3) [OF same] by (simp add: wp_if)
qed

lemma round_stays:
  assumes "finished cr objs (ks_world s)" and "driver_ref \<notin> ref_of L ` set objs"
  shows "wp (Reconcile K L R) (\<lambda>_ s'. finished cr objs (ks_world s')) s"
  unfolding Reconcile_def wp_bind
proof (rule get_wp [where cr = cr], goal_cases)
  case (1 a t)
  have "rank cr (ks_world t) (ref_of L v) \<le> rank cr (ks_world s) (ref_of L v)" if "v \<in> set objs" for v
    using 1(1) assms(2) that unfolding sinks_def by (metis imageI)
  then have t: "finished cr objs (ks_world t)" using assms(1) 1(1) by (auto simp: finished_def sinks_def)
  show ?case
  proof (cases "store (ks_world t) driver_ref")
    case None
    with 1 t show ?thesis by (auto simp: wp_rules)
  next
    case (Some c)
    then have "marked L c" "\<not> hasFinalizer L c" "a = Inr c" using t 1 by (auto simp: finished_def)
    with t show ?thesis by (auto simp: wp_rules marked_def cleanup_def split: prod.splits)
  qed
qed

lemma leader_Suc: "snd (run_state (leader K L R (Suc k)) s) = snd (run_state (leader K L R k) (snd (run_state (Reconcile K L R) s)))"
  by (simp split: prod.splits)

lemma leader_stays:
  "finished cr objs (ks_world s) \<Longrightarrow> driver_ref \<notin> ref_of L ` set objs \<Longrightarrow> finished cr objs (ks_world (snd (run_state (leader K L R k) s)))"
proof (induction k arbitrary: s)
  case 0
  then show ?case by (simp add: State_Monad.return_def)
next
  case (Suc k)
  have "finished cr objs (ks_world (snd (run_state (Reconcile K L R) s)))" using round_stays [OF Suc.prems, of R] by (simp add: wp_iff)
  from Suc.IH [OF this Suc.prems(2)] show ?case unfolding leader_Suc .
qed

lemma leader_finishes:
  assumes "driver_ref \<notin> ref_of L ` set objs" and "hasFinalizer L cr" and "marked L cr"
    and "Render L (kb_Operands K) cr (fst (ParseSpec L (kb_DecodeSpec K) cr)) (rc_Images R) [] (namespace R) = Inr objs"
  shows "stage cr objs n m (ks_world s) \<Longrightarrow> n + m < k \<Longrightarrow> finished cr objs (ks_world (snd (run_state (leader K L R k) s)))"
proof (induction k arbitrary: s n m)
  case (Suc k)
  let ?t = "snd (run_state (Reconcile K L R) s)"
  have "nearer cr objs (n + m) (ks_world ?t)" using round_nearer [OF Suc.prems(1) assms] by (simp add: wp_iff)
  then consider (over) "finished cr objs (ks_world ?t)" | (on) n' m' where "n' + m' < n + m" "stage cr objs n' m' (ks_world ?t)"
    unfolding nearer_def by blast
  then have "finished cr objs (ks_world (snd (run_state (leader K L R k) ?t)))"
  proof cases
    case over
    then show ?thesis using assms(1) by (rule leader_stays)
  next
    case on
    then show ?thesis using Suc.prems(2) by (intro Suc.IH) auto
  qed
  then show ?case unfolding leader_Suc .
qed simp

lemma any_stage:
  "store w driver_ref = Some cr \<Longrightarrow> stage cr objs (grace + 2) (grace + 2) w"
  using rank_bound same_resource_refl by (auto simp: stage_def)

lemma rank_0: "rank cr w q = 0 \<longleftrightarrow> (case store w q of None \<Rightarrow> True | Some c \<Rightarrow> \<not> ownedBy L c cr)"
  by (simp add: rank_def split: option.split)

lemma finished_removed: "finished cr objs w \<Longrightarrow> removed L cr objs (store w)"
  by (simp add: finished_def removed_def rank_0 list_all_iff split: option.split)

end

section \<open>A cluster\<close>

text \<open>
  A cluster as a store of objects with the number of reads a marked object still answers. A deletion marks the object
  when the UID is right, and the mark lasts for two more reads; a report replaces the status of the custom resource; a
  marked resource whose last finalizer goes is removed.
\<close>

type_synonym cluster = "kref \<rightharpoonup> jmap \<times> nat"

definition cluster_store :: "cluster \<Rightarrow> kref \<rightharpoonup> jmap" where
  "cluster_store w r = map_option fst (w r)"

definition cluster_wait :: "cluster \<Rightarrow> kref \<Rightarrow> nat" where
  "cluster_wait w r = (case w r of None \<Rightarrow> 0 | Some (c, n) \<Rightarrow> min n 2)"

definition foreground_kube :: "cluster kube" where
  "foreground_kube = \<lparr>
     kb_Get = (\<lambda>r w. case w r of
        None \<Rightarrow> (Inl not_found, w)
      | Some (c, n) \<Rightarrow>
          if r = driver_ref \<or> \<not> marked sample_unstr c then (Inr c, w)
          else if n = 0 then (Inl not_found, w(r := None)) else (Inr c, w(r \<mapsto> (c, min n 2 - 1)))),
     kb_Create = (\<lambda>r v w. (Inr (), w(r \<mapsto> (v, 0)))),
     kb_Apply = (\<lambda>r b w. (Inr (), w)),
     kb_JsonPatch = (\<lambda>r p w. (case w r of None \<Rightarrow> Inl not_found | Some (c, n) \<Rightarrow> Inr c, w)),
     kb_Delete = (\<lambda>r uid w. case w r of
        None \<Rightarrow> (Inl not_found, w)
      | Some (c, n) \<Rightarrow>
          if un_GetUID sample_unstr c = uid then (Inr (), w(r \<mapsto> (set_meta ''deletionTimestamp'' (JStr ''now'') c, 2)))
          else (Inl (new_error ''conflict''), w)),
     kb_Update = (\<lambda>v w. (Inr v,
        if marked sample_unstr v \<and> un_GetFinalizers sample_unstr v = [] then w(driver_ref := None) else w(driver_ref \<mapsto> (v, 0)))),
     kb_UpdateStatus = (\<lambda>v w. (Inr (), case (w driver_ref, fmlookup v ''status'') of
        (Some (cr, n), Some st) \<Rightarrow> w(driver_ref \<mapsto> (fmupd ''status'' st cr, n)) | _ \<Rightarrow> w)),
     kb_ListPods = (\<lambda>n l w. (Inr [], w)),
     kb_Now = (\<lambda>w. ''t1''),
     kb_Marshal = (\<lambda>v. Inr []),
     kb_UpgradePatch = (\<lambda>v. Inr None),
     kb_DecodeSpec = (\<lambda>j. (small_spec, None)),
     kb_Operands = Inr []\<rparr>"

lemma same_status: "same_resource sample_unstr cr (fmupd ''status'' st cr)"
  by (simp add: same_resource_def sample_unstr_def top_text_def meta_text_def meta_def)

lemma lasts_same: "w' q = w q \<Longrightarrow> lasts L (cluster_store w) (cluster_wait w) (cluster_store w') (cluster_wait w') q"
  by (auto simp: lasts_def same_object_def cluster_store_def cluster_wait_def split: option.splits)

lemma marked_deleted: "marked sample_unstr (set_meta ''deletionTimestamp'' (JStr t) c)"
  by (simp add: marked_def sample_unstr_def)

lemma set_finalizers:
  "un_GetFinalizers sample_unstr (un_SetFinalizers sample_unstr fs c) = fs"
  "marked sample_unstr (un_SetFinalizers sample_unstr fs c) = marked sample_unstr c"
  by (simp_all add: sample_unstr_def marked_def jstrs_def text_or_empty_def comp_def)

lemmas cluster_defs = cluster_store_def cluster_wait_def foreground_kube_def

interpretation foreground: finishing_cluster foreground_kube sample_unstr cluster_store cluster_wait 2
proof (unfold_locales, goal_cases)
  case (1 r w a w')
  then show ?case
    by (auto simp: cluster_defs lasts_def same_object_def not_found_def IsNotFound_def split: option.splits if_splits)
next
  case (2 r w a w' c)
  then show ?case by (auto simp: cluster_defs split: if_splits)
next
  case (3 w r)
  then show ?case by (auto simp: cluster_defs split: option.splits)
next
  case (4 r c w b w')
  then show ?case by (auto simp: foreground_kube_def cluster_store_def marked_deleted intro!: lasts_same)
next
  case (5 v w b w' cr)
  then show ?case
    by (auto simp: foreground_kube_def cluster_store_def same_status same_resource_refl intro!: lasts_same split: option.splits)
next
  case (6 fs cr w u w')
  then show ?case by (auto simp: foreground_kube_def cluster_store_def set_finalizers intro!: lasts_same split: if_splits)
qed

section \<open>Properties\<close>

text \<open>C20. A removal comes to an end. A deletion only marks an object, and a marked object is found by at most
  \<open>grace\<close> more reads before the garbage collector has removed it. On a cluster that answers the operator's requests
  this way and on which nobody else changes the custom resource or creates its operands again, a custom resource that is being deleted
  and carries the finalizer loses every rendered object it owns, those marked before the first round included, and
  then the finalizer itself, within \<open>2 * grace + 5\<close> rounds; later rounds leave it so.\<close>

theorem removal_completes:
  assumes "finishing_cluster K L store wait grace" and "store (ks_world s) driver_ref = Some cr"
    and "un_GetDeletionTimestamp L cr \<noteq> None" and "hasFinalizer L cr"
    and "Render L (kb_Operands K) cr (fst (ParseSpec L (kb_DecodeSpec K) cr)) (rc_Images R) [] (namespace R) = Inr objs"
    and "driver_ref \<notin> ref_of L ` set objs" and "2 * grace + 5 \<le> n"
  shows "removed L cr objs (store (ks_world (snd (run_state (leader K L R n) s))))"
proof -
  note c = finishing_cluster.finished_removed [OF assms(1)] finishing_cluster.leader_finishes [OF assms(1)]
    finishing_cluster.any_stage [OF assms(1)]
  have "marked L cr" using assms(3) by (simp add: marked_def)
  from c(2) [OF assms(6,4) this assms(5) c(3) [OF assms(2)]] show ?thesis using assms(7) by (intro c(1)) simp
qed

theorem removal_completes_witness:
  "removed sample_unstr leaving [own_and_label sample_unstr leaving (render_scc ''ns'')]
     (cluster_store (ks_world (snd (run_state (leader foreground_kube sample_unstr sample_reconciler 9)
       \<lparr>ks_world = [driver_ref \<mapsto> (leaving, 0), scc_ref leaving \<mapsto> (own_and_label sample_unstr leaving fmempty, 0)], ks_trace = []\<rparr>))))"
proof (rule removal_completes [OF foreground.finishing_cluster_axioms])
  have ne: "scc_ref leaving \<noteq> driver_ref" by code_simp
  have p: "fst (ParseSpec sample_unstr (kb_DecodeSpec foreground_kube) leaving) = small_spec" by code_simp
  show "Render sample_unstr (kb_Operands foreground_kube) leaving (fst (ParseSpec sample_unstr (kb_DecodeSpec foreground_kube) leaving))
      (rc_Images sample_reconciler) [] (namespace sample_reconciler) = Inr [own_and_label sample_unstr leaving (render_scc ''ns'')]"
    unfolding p by (simp add: Render_def foreground_kube_def sample_reconciler_def namespace_def sample_images_all small_spec_def)
  show "driver_ref \<notin> ref_of sample_unstr ` set [own_and_label sample_unstr leaving (render_scc ''ns'')]"
    using ne by (auto simp: scc_ref_def)
  show "cluster_store (ks_world \<lparr>ks_world = [driver_ref \<mapsto> (leaving, 0), scc_ref leaving \<mapsto> (own_and_label sample_unstr leaving fmempty, 0)],
      ks_trace = []\<rparr>) driver_ref = Some leaving" using ne by (simp add: cluster_store_def)
  show "un_GetDeletionTimestamp sample_unstr leaving \<noteq> None" "hasFinalizer sample_unstr leaving" by code_simp+
qed simp

end
