(* ===== verification/Operator_Driver.thy ===== *)
theory Operator_Driver
  imports Controller_Volumes Operator_Render Sample_Env
begin

text \<open>
  Where the operator and the driver meet: the StorageClasses the operator renders are read by the driver when it
  creates a volume. A class that passes the operator's checks is one whose parameters the driver accepts, and the
  mode of the class decides what kind of volume the driver plans.
\<close>

text \<open>The ID of a volume of a class: a share of its own for NFS, a file in the backing share otherwise.\<close>

definition class_volume_id :: "StorageClass \<Rightarrow> string \<Rightarrow> string" where
  "class_volume_id sc name = (if sc_Mode sc = ''NFS'' then share_volume_id (''csi-'' @ name)
     else file_volume_id (sc_BackingShareName sc) (''csi-'' @ name))"

lemma check_class_modes:
  assumes "check_class L names sc = None"
  shows "sc_Mode sc = ''NFS'' \<and> sc_BackingShareName sc = [] \<or> sc_Mode sc \<in> {''Block'', ''ext4'', ''xfs''} \<and> sc_BackingShareName sc \<noteq> []"
  using assms by (auto simp: check_class_def split: if_splits)

lemma csi_format: "count_sub ''csi-%s'' ''%s'' = 1" "\<not> contains ''csi-%s'' ''/''" "sprintf_s ''csi-%s'' (Some name) = ''csi-'' @ name"
  by (simp_all add: count_sub.simps [of "_ # _"] count_sub.simps [of "[]"] contains_def has_prefix_def)

definition class_vparams :: "StorageClass \<Rightarrow> HSVolumeParameters" where
  "class_vparams sc = \<lparr>vp_DeleteDelay = - 1, vp_ExportOptions = [], vp_Objectives = [],
     vp_BlockBackingShareName = (if sc_Mode sc = ''Block'' then sc_BackingShareName sc else []),
     vp_MountBackingShareName = (if sc_Mode sc \<in> {''NFS'', ''Block''} then [] else sc_BackingShareName sc),
     vp_VolumeNameFormat = ''csi-%s'',
     vp_FSType = (if sc_Mode sc = ''NFS'' then ''nfs'' else if sc_Mode sc = ''Block'' then [] else sc_Mode sc),
     vp_Comment = ''Created by CSI driver'', vp_AdditionalMetadataTags = Map.empty, vp_CacheEnabled = False,
     vp_FQDN = [], vp_ObjectiveTarget = ''share''\<rparr>"

lemma parse_class: "run_state (parseVolParams E (map_of (class_parameters sc))) s = (Inr (class_vparams sc), s)"
proof -
  let ?p = "map_of (class_parameters sc)"
  have none: "?p k = None" if "k \<notin> {''volumeNameFormat'', ''fsType'', ''blockBackingShareName'', ''mountBackingShareName''}" for k
    using that by (auto simp: class_parameters_def)
  have "?p ''volumeNameFormat'' = Some ''csi-%s''" by (simp add: class_parameters_def)
  then have fmt: "parse_volumeNameFormat ?p = Inr ''csi-%s''" by (simp add: parse_volumeNameFormat_def csi_format)
  have get: "mget ?p ''blockBackingShareName'' = vp_BlockBackingShareName (class_vparams sc)"
    "mget ?p ''mountBackingShareName'' = vp_MountBackingShareName (class_vparams sc)"
    "mget ?p ''fsType'' = vp_FSType (class_vparams sc)"
    by (auto simp: mget_def class_parameters_def class_vparams_def)
  have empty: "mget ?p k = []" if "k \<notin> {''volumeNameFormat'', ''fsType'', ''blockBackingShareName'', ''mountBackingShareName''}" for k
    using none [OF that] by (simp add: mget_def)
  show ?thesis
    unfolding parseVolParams_def tryE_def
    by (simp add: fmt get none parse_deleteDelay_def parse_comment_def parse_exportOptions_def parse_additionalMetadataTags_def
        resolve_param_fqdn_def parse_objectiveTarget_def parse_objectives_def parse_cacheEnabled_def empty ParseBool_def)
      (simp add: class_vparams_def)
qed

lemma plan_class:
  assumes "check_class L names sc = None"
    and "cap_AccessType cap = Some (if sc_Mode sc = ''Block'' then Access_Block else Access_Mount fs flags)"
    and "sc_Mode sc \<in> {''ext4'', ''xfs''} \<Longrightarrow> checkFileBackedMinSize (sc_Mode sc) (requested_size cr True) = Inr ()"
    and "sc_Mode sc = ''NFS'' \<Longrightarrow> \<not> snap"
  shows "\<exists>pl. plan_volume name [cap] cr snap (class_vparams sc) = Inr pl \<and> planned_id pl = class_volume_id sc name"
proof -
  have other: "checkFileBackedMinSize [] n = Inr ()" for n by (simp add: checkFileBackedMinSize_def)
  from check_class_modes [OF assms(1)] assms(2-4) show ?thesis
    by (auto simp: plan_volume_def scan_caps_def scan_cap_def class_vparams_def Let_def csi_format planned_id_def class_volume_id_def other)
qed

text \<open>C13. A StorageClass of the operator serves the volumes it describes. Take a class that passes the operator's
  checks, and a request with the parameters of that class for one capability of its kind, at least as large as
  its file system needs, and not a restore for an NFS class. Then the class names the driver as its provisioner,
  the driver's parser accepts the parameters without asking anything of the outside, the request has a sound
  plan, and the ID of the plan, and of every volume the driver then returns, is that of a share of its own for
  NFS and of a file in the backing share of the class otherwise.\<close>

theorem class_serves_volumes:
  assumes "check_class L names sc = None" and "cv_Parameters req = map_of (class_parameters sc)"
    and "cv_VolumeCapabilities req = Some [cap]"
    and "cap_AccessType cap = Some (if sc_Mode sc = ''Block'' then Access_Block else Access_Mount fs flags)"
    and "sc_Mode sc \<in> {''ext4'', ''xfs''} \<Longrightarrow>
      checkFileBackedMinSize (sc_Mode sc) (requested_size (cv_CapacityRange req) True) = Inr ()"
    and "sc_Mode sc = ''NFS'' \<Longrightarrow> cv_SourceSnapshot req = None"
  shows "fmlookup (render_class sc) ''provisioner'' = Some (JStr CsiPluginName) \<and>
    (\<exists>vp. run_state (parseVolParams E (cv_Parameters req)) s = (Inr vp, s)) \<and>
    (\<exists>pl. plans E s req pl \<and> planned_id pl = class_volume_id sc (cv_Name req)) \<and>
    wp (CreateVolume E req) (\<lambda>r _. case r of Inl e \<Rightarrow> True | Inr vol \<Rightarrow> vol_VolumeId vol = class_volume_id sc (cv_Name req)) s"
proof -
  have parse: "run_state (parseVolParams E (cv_Parameters req)) s = (Inr (class_vparams sc), s)"
    using parse_class [of E sc s] assms(2) by simp
  obtain pl where of_pl: "plan_of req [cap] (class_vparams sc) = Inr pl" and id: "planned_id pl = class_volume_id sc (cv_Name req)"
    using plan_class [OF assms(1,4,5), of "cv_SourceSnapshot req \<noteq> None" "cv_Name req"] assms(6) by (auto simp: plan_of_def)
  have pl: "plans E s req pl" by (rule plansI [OF assms(3) _ of_pl]) (simp add: parse)
  have unique: "planned_id pl' = class_volume_id sc (cv_Name req)" if "plans E s req pl'" for pl'
    using that of_pl id parse assms(3) by (auto simp: plans_def)
  have "wp (CreateVolume E req) (\<lambda>r _. case r of Inl e \<Rightarrow> True | Inr vol \<Rightarrow> vol_VolumeId vol = class_volume_id sc (cv_Name req)) s"
  proof (rule wp_CreateVolume)
    fix caps vp pl' and t :: "'a drv"
    assume "plans E s req pl'" and p: "plan_of req caps vp = Inr pl'"
    then show "wp (create_planned E req caps vp pl') (\<lambda>r _. case r of Inl e \<Rightarrow> True | Inr vol \<Rightarrow> vol_VolumeId vol = class_volume_id sc (cv_Name req)) t"
      by (intro wp_mono [OF wp_gives [OF make_planned_volume [OF p]]]) (auto simp: unique split: sum.splits)
  qed simp
  moreover have "fmlookup (render_class sc) ''provisioner'' = Some (JStr CsiPluginName)"
    by (simp add: render_class_def fmlookup_of_list DriverName_def CsiPluginName_def)
  ultimately show ?thesis using parse pl id by blast
qed

definition sample_class :: StorageClass where
  "sample_class = \<lparr>sc_Name = ''fast'', sc_Mode = ''ext4'', sc_BackingShareName = ''backing''\<rparr>"

definition class_request :: CreateVolumeRequest where
  "class_request = \<lparr>cv_Name = ''pvc-1'', cv_CapacityRange = None,
     cv_VolumeCapabilities = Some [\<lparr>cap_AccessType = Some (Access_Mount [] []), cap_AccessMode = SINGLE_NODE_WRITER\<rparr>],
     cv_Parameters = map_of (class_parameters sample_class), cv_SourceSnapshot = None\<rparr>"

theorem class_serves_volumes_witness:
  "\<exists>pl. plans sample_env (init_drv 0) class_request pl \<and> planned_id pl = class_volume_id sample_class ''pvc-1''"
proof -
  have c: "check_class sample_unstr [] sample_class = None" by code_simp
  show ?thesis
    using class_serves_volumes [OF c, of class_request _ "[]" "[]" sample_env "init_drv 0"]
    by (simp add: class_request_def sample_class_def checkFileBackedMinSize_def requested_size_def
        DefaultBackingFileSizeBytes_def MinExt4SizeBytes_def)
qed

end
