(* ===== verification/Spec2Isabelle.thy ===== *)
theory Spec2Isabelle
  imports Volume_Lifecycle Node_Cleanup Mount_Liveness Lock_Protocol Inflight_Protocol Anvil_Routes Metrics Main_Program Wire_Formats
    Operator_Liveness Operator_Driver
begin

text \<open>
  A verification development for the Hammerspace CSI plugin, the Go program that provisions, mounts and
  snapshots volumes of a Hammerspace cluster for Kubernetes.

  \<^bold>\<open>The program.\<close> A CSI driver process answers the calls of the CSI controller and node services. The
  controller side (\<open>pkg/driver/controller.go\<close>) creates, deletes, expands and lists volumes and snapshots
  through the REST service of the cluster, the Anvil (\<open>pkg/client/hsclient.go\<close>). The node side
  (\<open>pkg/driver/node.go\<close>, \<open>node_helper.go\<close>) stages and publishes volumes on a host. Volumes are of three
  kinds: a share of their own (NFS), a directory nested in a backing share, or a file in a backing
  share, used as a block device or with a local file system through a loop device. Both sides mount
  backing shares on their host and count who uses them (\<open>pkg/driver/utils.go\<close>); both run host commands
  (\<open>pkg/common/host_utils.go\<close>). Before a snapshot the file systems of the volume's pods are frozen
  through the Kubernetes API (\<open>pkg/driver/freezer.go\<close>). The process (\<open>main.go\<close>) serves either the present
  protocol or, through an adapter (\<open>pkg/driver/driver_csi_v0.go\<close>), its predecessor. A second program, the
  operator (\<open>operator/\<close>), installs the driver in a cluster from a custom resource: it renders the objects,
  applies them, reports conditions, and removes them again; its templates are generated from the manual
  manifest by a third.

  \<^bold>\<open>The model.\<close> A Go function is a definition of the same name in the state monad \<open>go\<close> over the record
  \<open>drv\<close> (the fields of \<open>CSIDriver\<close> and the process-wide variables of the packages, a panic flag, and the
  history \<open>d_trace\<close> of everything done to the outside, newest first). A Go error is a value of
  \<open>go_error\<close>, with its gRPC code and text, in the left of the sum \<open>res\<close>; \<open>tryE\<close> is the early return on
  an error, \<open>deferring\<close> is \<open>defer\<close>. Everything that is not in the repository is a field of the record
  \<open>env\<close>, an argument of the definitions: the HTTP transport, the JSON decoders, the clock, commands, the
  file system and mount table, DNS, and Kubernetes. Each field is an arbitrary function of the state of
  the outside world and may change it, so that a theorem without a hypothesis on \<open>env\<close> holds for every
  answer, every failure and every delay. 64-bit arithmetic that may overflow is written with \<open>int64\<close>, the
  round-robin counter is a \<open>32 word\<close>.

  \<^bold>\<open>Theories\<close>, each importing those it calls:
  \<^item> \<open>Transitions\<close>: the locales \<open>keeps_invariant\<close> and \<open>runs_down\<close> of step relations, interpreted for the protocols below.
  \<^item> \<open>Prelude\<close>: the monad, its weakest preconditions \<open>wp\<close>, the locale \<open>state_frame\<close> of relations between
    states that every effect keeps, with the collection \<open>frame_intros\<close>; shared facts.
  \<^item> \<open>Go_Strings\<close>: the functions of Go's \<open>strings\<close>, \<open>strconv\<close>, \<open>path/filepath\<close>, \<open>net/url\<close> and \<open>fmt\<close>
    that the sources use, with their round trips. \<open>Go_Encoding\<close>: sorting of strings and base64.
    \<open>Go_Time\<close>: reading and writing durations; what is written is read back, for every 64-bit duration.
  \<^item> \<open>Driver_Types\<close>, \<open>Driver_State\<close>, \<open>Sample_Env\<close>: the data (\<open>hs_types.go\<close>, \<open>config.go\<close>,
    \<open>error_text.go\<close>), the state (\<open>driver.go\<close>), the environment, the events and the frames on them, and a
    concrete environment for instances of theorems.
  \<^item> \<open>Cache\<close>: \<open>hs_cache.go\<close> and \<open>common/utils.go\<close>. The locale \<open>ttl_cache\<close> states the laws of a cache
    with expiry; the cache of the code is an instance and refines its history of writes.
  \<^item> \<open>Host\<close>: \<open>host_utils.go\<close>. File system geometry and growth, deletion, mounts that are in flight.
  \<^item> \<open>Client\<close>: \<open>hsclient.go\<close>. Every REST operation, polling of tasks and its end, order of the portals.
  \<^item> \<open>Locks\<close>: the locks and mount slots of \<open>driver.go\<close>. The locale \<open>keyed_lock\<close> is interpreted for the
    volume, the snapshot and the mount locks.
  \<^item> \<open>Lock_Protocol\<close>: the same locks and slots under concurrency, as a step relation over calls with the semaphores as
    objects of a heap, and the proof that each call on its own runs as \<open>Locks\<close> says.
  \<^item> \<open>Inflight_Protocol\<close>: system calls that cannot be interrupted (\<open>beginMount\<close>, \<open>probeVolumePath\<close>), as a step relation
    over callers and goroutines.
  \<^item> \<open>Volume_Ids\<close>: the identifiers of volumes and snapshots, with the locale \<open>snapshot_codec\<close>.
  \<^item> \<open>Backing_Mount\<close>: loop devices, the state of mounts, reference counts (locale \<open>ref_counts\<close>), choice
    of the portal, export and NFS version.
  \<^item> \<open>Mount_Protocol\<close>: the reference counts under concurrency, as a step relation over threads.
  \<^item> \<open>Node_Helper\<close>, \<open>Node\<close>: staging and publishing, the node service.
  \<^item> \<open>Params\<close>, \<open>Freezer\<close>, \<open>Controller_Volumes\<close>, \<open>Controller_Snapshots\<close>: the controller service.
  \<^item> \<open>Event_Frames\<close>: what calls can do to the outside, by the locales \<open>read_events\<close>, \<open>command_events\<close>
    and \<open>host_events\<close>, each extending the one before.
  \<^item> \<open>Node_Cleanup\<close>: the calls of unpublishing and unstaging, in order, for every answer of the mount check.
  \<^item> \<open>Volume_Lifecycle\<close>: properties that span controller and node.
  \<^item> \<open>Service\<close>: any sequence of calls with any arguments.
  \<^item> \<open>Mount_Liveness\<close>: the end of the calls under way on backing mounts.
  \<^item> \<open>Csi_V0\<close>: the identity service (\<open>identity.go\<close>) and every call of the v0 adapter, with the relation
    \<open>served_v0\<close> of its sessions, which refines \<open>served\<close> of \<open>Service\<close>.
  \<^item> \<open>Anvil_Routes\<close>, \<open>Metrics\<close>: \<open>metrics.go\<close>. Route templates against a reference; instruments, their registration,
    operations and lock probes around the locks, over a list of measurements.
  \<^item> \<open>Server\<close>: the gRPC servers of \<open>driver.go\<close> and \<open>driver_csi_v0.go\<close> with the goroutine that serves, as a step relation
    of two threads, and the sequential reading of a stop.
  \<^item> \<open>Main_Program\<close>: \<open>main.go\<close>, the construction of the driver and the freezer, the settings read at initialisation, log
    level, telemetry choice, and the run of the process from start to signal.
  \<^item> \<open>Wire_Formats\<close>: the JSON coding the driver defines itself (\<open>backward_compability.go\<close>, \<open>hs_types.go\<close>).
  \<^item> \<open>Kube_Json\<close>: Kubernetes objects as JSON over finite maps; the Kubernetes object library is the record
    \<open>unstr\<close>, and the locale \<open>unstructured_lib\<close> its documented laws.
  \<^item> \<open>Operand_Manifests\<close>: \<open>operator/internal/manifests\<close> and the command \<open>generate-operands\<close>.
  \<^item> \<open>Operator_Render\<close>, \<open>Operator_Reconcile\<close>: \<open>render.go\<close>, \<open>reconcile.go\<close> and \<open>operator/cmd/main.go\<close>. The Kubernetes
    API is the record \<open>kube\<close>, which answers each request from a world that anyone may have changed; a
    round runs in the state monad over that world and the history of requests.
  \<^item> \<open>Operator_Safety\<close>: rules on the history of a round, the relation \<open>follows\<close> of states between which every
    request obeyed a rule, and the locale \<open>status_lib\<close> for the report of conditions.
  \<^item> \<open>Operator_Liveness\<close>: the locale \<open>finishing_cluster\<close> of clusters on which a deletion marks an object and the
    garbage collector removes it within a bounded number of reads, and the end of a removal on them.
  \<^item> \<open>Operator_Driver\<close>: the StorageClasses of the operator as the driver reads them.

  \<^bold>\<open>What is shown.\<close>
  \<^item> Between calls the driver holds no lock, reference or slot, and leaves nothing frozen
    (\<open>Service\<close>). References on backing mounts are exact, and in every interleaving a holder is counted and finds
    its share mounted if the service keeps listing it and the mount keeps answering; only the forced detaching of a stale
    mount takes one away from a holder (\<open>Backing_Mount\<close>, \<open>Mount_Protocol\<close>). This holds as long as no caller unmounts
    without the mutex of the directory, which some do: the race is a theorem too. No two calls hold one lock and no more slots are in
    use than there are (\<open>Lock_Protocol\<close>); one system call runs per path, however often it is retried
    (\<open>Inflight_Protocol\<close>).
  \<^item> Safety of what is done outside (\<open>Event_Frames\<close>, \<open>Volume_Lifecycle\<close>, \<open>Host\<close>): reading calls only
    read, a read-only publish makes no writable mount, an unstaged volume is not bound, mounts in use that
    answer are not detached, a volume with snapshots is not deleted, deletion spares the root and exports.
  \<^item> Functional correctness: plans and IDs of created volumes, when node and controller agree on the
    kind of a volume and when not, parsing of parameters with every error, identifiers, portal and export choice,
    growth decisions, parsers of the service's messages.
  \<^item> Progress: without new calls the calls on backing mounts end within eight steps each and leave nothing
    held; every call on locks can run to its end on its own; polling ends within its time limit; a server that is stopped
    ends within seven steps; a removal by the operator ends, within \<open>2 * grace + 5\<close> rounds when a marked object answers
    at most \<open>grace\<close> more reads.
  \<^item> The process: a v0 call is the v1 call of the same meaning, answers and errors included; a run from start
    to signal leaves nothing held when no call is cut off, and removes its socket; durations set in the environment are the ones used; the gauges of held locks and of
    operations in flight are exact, and every measurement reaches an instrument of its kind.
  \<^item> The operator: rendered objects are owned and run release images; a round takes nothing over and changes
    nothing before its preflight, installs workloads last, deletes only what is its own and workloads first,
    and takes its finalizer off last; a condition at rest is not written again; delegated permissions are
    checked exactly; a class it renders gives the volumes it describes.
  \<^item> Behaviour that deserves attention, as theorems on the code as it is: the race above, an expansion
    that goes by the free space and can shrink a share, lock names of publish and unpublish that differ, snapshot names that stay
    bound after the snapshot is deleted, staging through the v0 adapter that does not see the volume's
    attributes, a protocol version that is never refused, a stop right after the start that panics, and a patch
    of the operator that can take over an object replaced meanwhile, and an unpublish that reports success when the
    mount check fails.

  \<^bold>\<open>Loops.\<close> Loops over lists are structural recursion. The two loops bounded by the clock carry fuel:
  \<open>task_poll\<close> with \<open>poll_fuel\<close> (1801, since each round waits at least two seconds of an hour) and
  \<open>wait_visible\<close> with \<open>visible_fuel\<close> (6001, pauses of at least 100 ms in ten minutes). The theorems
  \<open>task_wait_ends\<close> and \<open>visible_wait_ends\<close> show that this fuel is never used up under a clock that runs
  forward by at least the time slept. The hand-over of managed fields counts its three attempts, and
  \<open>leader\<close> its ticks.

  \<^bold>\<open>Concurrency.\<close> Calls are modelled one at a time; the outcome of waiting for a lock is then an answer of the
  environment, and a lock is only acquired when it is free. What calls share is modelled again as step relations, in which
  any number of them interleave at every point where another can run: the keyed locks and slots (\<open>Lock_Protocol\<close>), the
  reference counts on backing mounts (\<open>Mount_Protocol\<close>), system calls in flight (\<open>Inflight_Protocol\<close>), and the server
  with its goroutine (\<open>Server\<close>). The theorem \<open>call_sees_sequential\<close> ties the first to the sequential model.

  \<^bold>\<open>Not modelled.\<close> The gRPC and HTTP transports and listeners, the logging and metrics libraries, leader election, and the
  Kubernetes clients are outside the repository; their outcomes are parameters. Tests are left out. Log lines and trace
  spans are left out of every function, and metrics of every function but the locks. \<open>Stop\<close> of the servers does not wait
  for handlers: a run of \<open>Main_Program\<close> says by its parameter that calls were cut off, and the theorem on it then claims
  nothing of what they held. Strings are lists of bytes: \<open>trim_space\<close> knows the ASCII white space and \<open>go_quote\<close> the ASCII
  escapes, so that Unicode spaces and the printability of other runes are not distinguished. \<open>sprintf_s\<close> knows the verbs
  \<open>%s\<close>, \<open>%v\<close> and \<open>%%\<close> and the marks of a wrong number of arguments, and no flags, widths or other verbs. The text of a lock that was not obtained is fixed where the code wraps the error of the context. In \<open>Lock_Protocol\<close> a waiting
  call may give up at any step, since its context is the caller's and can end at any time.
\<close>

end
